(* ===== verification/Prelude.thy ===== *)
theory Prelude
  imports
    "HOL-Library.Finite_Map"
    "HOL-Library.List_Lexorder"
    "HOL-Library.Char_ord"
    "HOL-Library.Word"
    "HOL-Library.Sublist"
begin

section \<open>Shared vocabulary of the development\<close>

text \<open>
  What every component uses: the machine integers of the source, the results of operations
  that can panic or return an error, \<^verbatim>\<open>HashMap\<close> as a finite map, \<^verbatim>\<open>Vec\<close> loops as
  recursion over lists, and the few string operations of the Rust standard library the code
  calls. The generic lemmas are declared so that \<open>simp\<close> and \<open>auto\<close> carry the component
  proofs; the collections \<open>res_simps\<close> and \<open>hm_simps\<close> name the ones that are not
  always wanted.
\<close>

named_theorems res_simps \<open>evaluation of results\<close>
named_theorems hm_simps \<open>lookups in finite maps after an update\<close>

subsection \<open>Machine integers\<close>

text \<open>
  \<^verbatim>\<open>u64\<close> and \<^verbatim>\<open>u32\<close> keep their width; \<open>+\<close> wraps, as release builds do. Time stamps
  (\<^verbatim>\<open>i64\<close> milliseconds) are mathematical integers: the code only adds or subtracts one
  minute.
\<close>

type_synonym u64 = "64 word"
type_synonym u32 = "32 word"
type_synonym millis = int

subsection \<open>Results\<close>

text \<open>
  A panic (\<^verbatim>\<open>panic!\<close>, a failed \<^verbatim>\<open>assert!\<close>, \<^verbatim>\<open>unwrap\<close> on \<^verbatim>\<open>None\<close>, an index out
  of range), a returned \<^verbatim>\<open>ServiceApiError\<close>, the \<^verbatim>\<open>ServingQueryError\<close> of the query
  layer with its HTTP status, and the error of a wire protocol are values.
\<close>

datatype error =
    Panic string
  | Service_Api_Error string
  | Serving_Query_Error nat string
  | Protocol_Error string

type_synonym 'a res = "error + 'a"

definition rbind :: "'a res \<Rightarrow> ('a \<Rightarrow> 'b res) \<Rightarrow> 'b res" where
  "rbind r f = (case r of Inl e \<Rightarrow> Inl e | Inr x \<Rightarrow> f x)"

definition rmap :: "('a \<Rightarrow> 'b) \<Rightarrow> 'a res \<Rightarrow> 'b res" where
  "rmap f r = (case r of Inl e \<Rightarrow> Inl e | Inr x \<Rightarrow> Inr (f x))"

definition unwrap :: "string \<Rightarrow> 'a option \<Rightarrow> 'a res" where
  "unwrap msg opt = (case opt of None \<Rightarrow> Inl (Panic msg) | Some x \<Rightarrow> Inr x)"

definition assert_that :: "string \<Rightarrow> bool \<Rightarrow> unit res" where
  "assert_that msg b = (if b then Inr () else Inl (Panic msg))"

text \<open>A loop over a \<^verbatim>\<open>Vec\<close> that stops at the first error.\<close>

fun foldm :: "('s \<Rightarrow> 'a \<Rightarrow> 's res) \<Rightarrow> 's \<Rightarrow> 'a list \<Rightarrow> 's res" where
  "foldm f s [] = Inr s"
| "foldm f s (x # xs) = rbind (f s x) (\<lambda>s'. foldm f s' xs)"

fun mapm :: "('a \<Rightarrow> 'b res) \<Rightarrow> 'a list \<Rightarrow> 'b list res" where
  "mapm f [] = Inr []"
| "mapm f (x # xs) = rbind (f x) (\<lambda>y. rmap (Cons y) (mapm f xs))"

lemma rbind_simps [simp, res_simps]:
  "rbind (Inl e) f = Inl e"
  "rbind (Inr x) f = f x"
  by (simp_all add: rbind_def)

lemma rmap_simps [simp, res_simps]:
  "rmap g (Inl e) = Inl e"
  "rmap g (Inr x) = Inr (g x)"
  by (simp_all add: rmap_def)

lemma unwrap_simps [simp, res_simps]:
  "unwrap msg None = Inl (Panic msg)"
  "unwrap msg (Some x) = Inr x"
  by (simp_all add: unwrap_def)

lemma assert_that_simps [simp, res_simps]:
  "assert_that msg True = Inr ()"
  "assert_that msg False = Inl (Panic msg)"
  by (simp_all add: assert_that_def)

lemma rbind_eq_Inr: "rbind r f = Inr y \<longleftrightarrow> (\<exists>x. r = Inr x \<and> f x = Inr y)"
  by (cases r) simp_all

lemma rmap_eq_Inr: "rmap g r = Inr y \<longleftrightarrow> (\<exists>x. r = Inr x \<and> y = g x)"
  by (cases r) auto

lemma unwrap_eq_Inr: "unwrap msg opt = Inr x \<longleftrightarrow> opt = Some x"
  by (cases opt) simp_all

lemma assert_that_eq_Inr: "assert_that msg b = Inr u \<longleftrightarrow> b"
  by (cases b) simp_all

lemmas res_Inr = rbind_eq_Inr rmap_eq_Inr unwrap_eq_Inr assert_that_eq_Inr

lemma foldm_append: "foldm f s (xs @ ys) = rbind (foldm f s xs) (\<lambda>s'. foldm f s' ys)"
proof (induction xs arbitrary: s)
  case Nil
  then show ?case by simp
next
  case (Cons x xs)
  then show ?case by (cases "f s x") simp_all
qed

text \<open>A loop keeps what each of its steps keeps.\<close>

lemma foldm_invariant:
  assumes run: "foldm f s xs = Inr s'"
    and start: "P s"
    and step: "\<And>s x s'. x \<in> set xs \<Longrightarrow> P s \<Longrightarrow> f s x = Inr s' \<Longrightarrow> P s'"
  shows "P s'"
  using run start step
proof (induction xs arbitrary: s)
  case Nil
  then show ?case by simp
next
  case (Cons x xs)
  from Cons.prems(1) obtain t where t: "f s x = Inr t" "foldm f t xs = Inr s'"
    by (auto simp: rbind_eq_Inr)
  have "P t" using Cons.prems(2) Cons.prems(3) [of x s t] t(1) by simp
  then show ?case by (rule Cons.IH [OF t(2)]) (auto intro: Cons.prems(3))
qed

lemma foldm_no_error:
  assumes "\<And>s x. x \<in> set xs \<Longrightarrow> f s x = Inr (g s x)"
  shows "foldm f s xs = Inr (fold (\<lambda>x s. g s x) xs s)"
  using assms by (induction xs arbitrary: s) simp_all

lemma mapm_Inr_iff: "mapm f xs = Inr ys \<longleftrightarrow> list_all2 (\<lambda>x y. f x = Inr y) xs ys"
proof (induction xs arbitrary: ys)
  case Nil
  then show ?case by auto
next
  case (Cons x xs)
  show ?case
    by (cases ys) (auto simp: res_Inr Cons.IH list_all2_Cons1)
qed

lemma mapm_total:
  assumes "\<And>x. x \<in> set xs \<Longrightarrow> f x = Inr (g x)"
  shows "mapm f xs = Inr (map g xs)"
  using assms by (induction xs) simp_all

subsection \<open>Hash maps\<close>

text \<open>
  A \<^verbatim>\<open>HashMap\<close> is a finite map (\<open>fmap\<close>): \<^verbatim>\<open>get\<close> is \<open>fmlookup\<close>, \<^verbatim>\<open>insert\<close> is
  \<open>fmupd\<close>, \<^verbatim>\<open>remove\<close> is \<open>fmdrop\<close>. Where the code iterates over a map and the order
  shows in the result, the operation takes the iteration order as an argument: a list that
  enumerates the keys, in any order.
\<close>

type_synonym ('k, 'v) hash_map = "('k, 'v) fmap"

abbreviation hm_contains :: "('k, 'v) hash_map \<Rightarrow> 'k \<Rightarrow> bool" where
  "hm_contains m k \<equiv> fmlookup m k \<noteq> None"

definition hm_retain :: "('k \<Rightarrow> 'v \<Rightarrow> bool) \<Rightarrow> ('k, 'v) hash_map \<Rightarrow> ('k, 'v) hash_map" where
  "hm_retain P m =
     fmfilter (\<lambda>k. case fmlookup m k of None \<Rightarrow> False | Some v \<Rightarrow> P k v) m"

definition hm_get_or :: "'v \<Rightarrow> ('k, 'v) hash_map \<Rightarrow> 'k \<Rightarrow> 'v" where
  "hm_get_or d m k = (case fmlookup m k of None \<Rightarrow> d | Some v \<Rightarrow> v)"

definition iter_order :: "'k list \<Rightarrow> ('k, 'v) hash_map \<Rightarrow> bool" where
  "iter_order ks m \<longleftrightarrow> distinct ks \<and> set ks = fmdom' m"

lemma hm_retain_lookup [simp]:
  "fmlookup (hm_retain P m) k =
     (case fmlookup m k of None \<Rightarrow> None | Some v \<Rightarrow> if P k v then Some v else None)"
  by (simp add: hm_retain_def split: option.split)

lemma hm_retain_empty [simp]: "hm_retain P fmempty = fmempty"
  by (simp add: hm_retain_def)

lemma hm_retain_True: "(\<And>k v. fmlookup m k = Some v \<Longrightarrow> P k v) \<Longrightarrow> hm_retain P m = m"
  by (rule fmap_ext) (simp split: option.split)

lemma hm_get_or_simps [simp, hm_simps]:
  "fmlookup m k = Some v \<Longrightarrow> hm_get_or d m k = v"
  "fmlookup m k = None \<Longrightarrow> hm_get_or d m k = d"
  by (simp_all add: hm_get_or_def)

lemma iter_order_mem: "iter_order ks m \<Longrightarrow> k \<in> set ks \<longleftrightarrow> (\<exists>v. fmlookup m k = Some v)"
  by (simp add: iter_order_def fmlookup_dom'_iff)

lemma iter_order_empty [simp]: "iter_order [] m \<longleftrightarrow> m = fmempty"
proof
  assume "iter_order [] m"
  then show "m = fmempty"
    by (intro fmap_ext) (metis empty_iff empty_set fmempty_lookup fmlookup_dom'_iff
      iter_order_def not_None_eq)
qed (simp add: iter_order_def)

lemma fmlookup_fmmap_Some: "fmlookup (fmmap f m) k = Some w \<longleftrightarrow>
    (\<exists>v. fmlookup m k = Some v \<and> w = f v)"
  by auto

subsection \<open>Vectors\<close>

fun position :: "('a \<Rightarrow> bool) \<Rightarrow> 'a list \<Rightarrow> nat option" where
  "position P [] = None"
| "position P (x # xs) = (if P x then Some 0 else map_option Suc (position P xs))"

text \<open>\<^verbatim>\<open>Vec::remove\<close> panics when the index is out of range.\<close>

definition vec_remove :: "nat \<Rightarrow> 'a list \<Rightarrow> 'a list res" where
  "vec_remove i xs =
     (if i < length xs then Inr (take i xs @ drop (Suc i) xs)
      else Inl (Panic ''removal index out of range''))"

definition vec_index :: "'a list \<Rightarrow> nat \<Rightarrow> 'a res" where
  "vec_index xs i = (if i < length xs then Inr (xs ! i) else Inl (Panic ''index out of bounds''))"

lemma position_Some:
  "position P xs = Some i \<Longrightarrow> i < length xs \<and> P (xs ! i) \<and> (\<forall>j < i. \<not> P (xs ! j))"
proof (induction xs arbitrary: i)
  case Nil
  then show ?case by simp
next
  case (Cons x xs)
  show ?case
  proof (cases "P x")
    case True
    then show ?thesis using Cons.prems by simp
  next
    case False
    with Cons.prems obtain j where j: "position P xs = Some j" "i = Suc j" by auto
    from Cons.IH [OF j(1)] j(2) False show ?thesis
      by (auto simp: less_Suc_eq_0_disj)
  qed
qed

lemma position_None: "position P xs = None \<longleftrightarrow> (\<forall>x \<in> set xs. \<not> P x)"
  by (induction xs) auto

lemma vec_index_eq_Inr: "vec_index xs i = Inr x \<longleftrightarrow> i < length xs \<and> x = xs ! i"
  by (auto simp: vec_index_def)

subsection \<open>Strings\<close>

text \<open>
  A Rust \<^verbatim>\<open>String\<close> is its UTF-8 bytes, one \<open>char\<close> a byte; \<^verbatim>\<open>Ord\<close> compares them
  bytewise, which is the lexicographic order \<open>List_Lexorder\<close> gives \<open>char list\<close>.
  \<^verbatim>\<open>split(c)\<close> cuts at every occurrence and always yields at least one part.
\<close>

fun split_char :: "char \<Rightarrow> string \<Rightarrow> string list" where
  "split_char c [] = [[]]"
| "split_char c (x # xs) =
     (if x = c then [] # split_char c xs
      else (case split_char c xs of [] \<Rightarrow> [[x]] | p # ps \<Rightarrow> (x # p) # ps))"

lemma split_char_nonempty [simp]: "split_char c xs \<noteq> []"
  by (induction xs) (auto split: list.splits)

lemma split_char_absent: "c \<notin> set xs \<Longrightarrow> split_char c xs = [xs]"
  by (induction xs) auto

lemma split_char_append:
  "c \<notin> set xs \<Longrightarrow> split_char c (xs @ c # ys) = xs # split_char c ys"
  by (induction xs) auto

end
