(* ===== verification/Json.thy ===== *)
theory Json
  imports Prelude Complex_Main
begin

section \<open>JSON values\<close>

text \<open>
  The \<^verbatim>\<open>serde_json::Value\<close> the code passes around. An object keeps its keys in insertion
  order (the lock file builds \<^verbatim>\<open>serde_json\<close> on \<^verbatim>\<open>indexmap\<close>), so it is an association
  list with distinct keys: \<^verbatim>\<open>insert\<close> overwrites a present key in place and appends a new
  one. A number is one of the three representations of \<^verbatim>\<open>serde_json\<close>; a float is always
  finite there and is modelled by its rational value. \<open>as_f64\<close> is the conversion to
  double precision: integers of more than 53 bits are rounded to the nearest representable
  one, ties to even.
\<close>

datatype number =
    Pos_Int u64
  | Neg_Int int
  | Float rat

datatype json =
    JNull
  | JBool bool
  | JNumber number
  | JString string
  | JArray "json list"
  | JObject "(string \<times> json) list"

type_synonym json_map = "(string \<times> json) list"

subsection \<open>Objects\<close>

abbreviation jm_get :: "json_map \<Rightarrow> string \<Rightarrow> json option" where
  "jm_get m k \<equiv> map_of m k"

fun jm_insert :: "string \<Rightarrow> 'v \<Rightarrow> (string \<times> 'v) list \<Rightarrow> (string \<times> 'v) list" where
  "jm_insert k v [] = [(k, v)]"
| "jm_insert k v ((k', v') # m) = (if k = k' then (k, v) # m else (k', v') # jm_insert k v m)"

definition as_object :: "json \<Rightarrow> json_map option" where
  "as_object v = (case v of JObject m \<Rightarrow> Some m | _ \<Rightarrow> None)"

definition as_array :: "json \<Rightarrow> json list option" where
  "as_array v = (case v of JArray xs \<Rightarrow> Some xs | _ \<Rightarrow> None)"

lemma map_of_jm_insert [simp]: "map_of (jm_insert k v m) = (map_of m)(k \<mapsto> v)"
  by (induction k v m rule: jm_insert.induct) (auto simp: fun_eq_iff)

lemma keys_jm_insert [simp]: "fst ` set (jm_insert k v m) = insert k (fst ` set m)"
  by (induction k v m rule: jm_insert.induct) auto

lemma distinct_jm_insert: "distinct (map fst m) \<Longrightarrow> distinct (map fst (jm_insert k v m))"
  by (induction k v m rule: jm_insert.induct) auto

lemma jm_insert_fresh: "k \<notin> fst ` set m \<Longrightarrow> jm_insert k v m = m @ [(k, v)]"
  by (induction k v m rule: jm_insert.induct) auto

subsection \<open>Conversion to double precision\<close>

text \<open>The number of low bits a double drops from \<open>n\<close>: none below \<open>2 ^ 53\<close>.\<close>

fun f64_shift :: "nat \<Rightarrow> nat" where
  "f64_shift n = (if n < 2 ^ 53 then 0 else Suc (f64_shift (n div 2)))"

declare f64_shift.simps [simp del]

definition f64_of_nat :: "nat \<Rightarrow> nat" where
  "f64_of_nat n =
     (let u = 2 ^ f64_shift n; q = n div u; r = n mod u in
      if 2 * r < u \<or> (2 * r = u \<and> even q) then q * u else Suc q * u)"

definition f64_of_int :: "int \<Rightarrow> rat" where
  "f64_of_int i = (if 0 \<le> i then of_nat (f64_of_nat (nat i)) else - of_nat (f64_of_nat (nat (- i))))"

fun as_f64 :: "number \<Rightarrow> rat" where
  "as_f64 (Pos_Int n) = f64_of_int (uint n)"
| "as_f64 (Neg_Int i) = f64_of_int i"
| "as_f64 (Float r) = r"

text \<open>The mathematical value of a number.\<close>

fun exact :: "number \<Rightarrow> rat" where
  "exact (Pos_Int n) = of_int (uint n)"
| "exact (Neg_Int i) = of_int i"
| "exact (Float r) = r"

lemma f64_shift_small [simp]: "n < 2 ^ 53 \<Longrightarrow> f64_shift n = 0"
  by (simp add: f64_shift.simps [of n])

lemma f64_shift_large:
  assumes "2 ^ 53 \<le> n"
  shows "2 ^ (52 + f64_shift n) \<le> n \<and> n < 2 ^ (53 + f64_shift n)"
  using assms
proof (induction n rule: f64_shift.induct)
  case (1 n)
  have step: "f64_shift n = Suc (f64_shift (n div 2))"
    using "1.prems" by (simp add: f64_shift.simps [of n])
  show ?case
  proof (cases "2 ^ 53 \<le> n div 2")
    case True
    with 1 have IH: "2 ^ (52 + f64_shift (n div 2)) \<le> n div 2"
      "n div 2 < 2 ^ (53 + f64_shift (n div 2))"
      by simp_all
    from IH(1) have "2 * 2 ^ (52 + f64_shift (n div 2)) \<le> n" by linarith
    moreover from IH(2) have "n < 2 * 2 ^ (53 + f64_shift (n div 2))" by linarith
    ultimately show ?thesis unfolding step by (simp add: power_add)
  next
    case False
    with "1.prems" step show ?thesis by simp
  qed
qed

lemma f64_of_nat_exact: "n \<le> 2 ^ 53 \<Longrightarrow> f64_of_nat n = n"
proof -
  assume n: "n \<le> 2 ^ 53"
  show ?thesis
  proof (cases "n = 2 ^ 53")
    case True
    moreover have "f64_shift (2 ^ 53) = 1"
      by (simp add: f64_shift.simps)
    ultimately show ?thesis by (simp add: f64_of_nat_def)
  next
    case False
    with n show ?thesis by (simp add: f64_of_nat_def)
  qed
qed

text \<open>Rounding at one granularity \<open>u\<close>: monotone, and within the neighbouring multiples.\<close>

definition round_to :: "nat \<Rightarrow> nat \<Rightarrow> nat" where
  "round_to u n =
     (let q = n div u; r = n mod u in
      if 2 * r < u \<or> (2 * r = u \<and> even q) then q * u else Suc q * u)"

lemma f64_of_nat_round_to: "f64_of_nat n = round_to (2 ^ f64_shift n) n"
  by (simp add: f64_of_nat_def round_to_def Let_def)

lemma round_to_bounds: "n div u * u \<le> round_to u n" "round_to u n \<le> Suc (n div u) * u"
  by (simp_all add: round_to_def Let_def)

lemma round_to_mono:
  assumes "0 < u" "m \<le> n"
  shows "round_to u m \<le> round_to u n"
proof (cases "m div u = n div u")
  case True
  from assms(2) True have "m mod u \<le> n mod u"
    by (metis add_le_cancel_left div_mult_mod_eq)
  with True show ?thesis by (auto simp: round_to_def Let_def)
next
  case False
  with assms have "m div u < n div u"
    by (simp add: div_le_mono le_neq_implies_less)
  then have "Suc (m div u) * u \<le> n div u * u"
    by (intro mult_le_mono1) simp
  then show ?thesis using round_to_bounds(2) [of u m] round_to_bounds(1) [of n u] by linarith
qed

lemma f64_of_nat_mono:
  assumes "m \<le> n"
  shows "f64_of_nat m \<le> f64_of_nat n"
proof (cases "f64_shift m = f64_shift n")
  case True
  with assms show ?thesis by (simp add: f64_of_nat_round_to round_to_mono)
next
  case False
  let ?e = "f64_shift m" and ?f = "f64_shift n"
  have n: "2 ^ 53 \<le> n"
  proof (rule ccontr)
    assume "\<not> 2 ^ 53 \<le> n"
    then have "n < 2 ^ 53" "m < 2 ^ 53" using assms by simp_all
    then show False using False by simp
  qed
  from f64_shift_large [OF n] have nl: "2 ^ (52 + ?f) \<le> n" and nu: "n < 2 ^ (53 + ?f)"
    by blast+
  have me: "m < 2 ^ (53 + ?e)"
  proof (cases "2 ^ 53 \<le> m")
    case True
    then show ?thesis using f64_shift_large by blast
  next
    case False
    then show ?thesis by simp
  qed
  have "?e < ?f"
  proof (rule ccontr)
    assume "\<not> ?e < ?f"
    with False have less: "Suc ?f \<le> ?e" by simp
    then have m: "2 ^ 53 \<le> m" using f64_shift_small [of m] by (cases "m < 2 ^ 53") simp_all
    from less have "(2::nat) ^ (53 + ?f) \<le> 2 ^ (52 + ?e)" by (intro power_increasing) simp_all
    with f64_shift_large [OF m] assms nu show False by linarith
  qed
  have "m < 2 ^ 53 * 2 ^ ?e" using me by (simp only: power_add)
  then have "m div 2 ^ ?e < 2 ^ 53" by (rule less_mult_imp_div_less)
  then have "Suc (m div 2 ^ ?e) * 2 ^ ?e \<le> 2 ^ 53 * 2 ^ ?e"
    by (intro mult_le_mono1) (rule Suc_leI)
  then have "f64_of_nat m \<le> 2 ^ (53 + ?e)"
    using round_to_bounds(2) [of "2 ^ ?e" m] unfolding f64_of_nat_round_to power_add
    by (rule order_trans [rotated])
  also have "\<dots> \<le> 2 ^ (52 + ?f)"
    using \<open>?e < ?f\<close> by (intro power_increasing) simp_all
  also have "\<dots> \<le> n div 2 ^ ?f * 2 ^ ?f"
  proof -
    have "2 ^ 52 * 2 ^ ?f \<le> n" using nl by (simp only: power_add)
    then have "2 ^ 52 \<le> n div 2 ^ ?f" by (simp only: less_eq_div_iff_mult_less_eq zero_less_power zero_less_numeral)
    then have "2 ^ 52 * 2 ^ ?f \<le> n div 2 ^ ?f * 2 ^ ?f" by (rule mult_le_mono1)
    then show ?thesis by (simp only: power_add)
  qed
  also have "\<dots> \<le> f64_of_nat n"
    unfolding f64_of_nat_round_to by (rule round_to_bounds(1))
  finally show ?thesis .
qed

lemma f64_of_int_mono: "i \<le> j \<Longrightarrow> f64_of_int i \<le> f64_of_int j"
proof -
  assume "i \<le> j"
  consider "0 \<le> i" | "i < 0" "0 \<le> j" | "j < 0" using \<open>i \<le> j\<close> by linarith
  then show ?thesis
  proof cases
    case 1
    with \<open>i \<le> j\<close> show ?thesis by (simp add: f64_of_int_def f64_of_nat_mono nat_mono)
  next
    case 2
    have "- rat_of_nat (f64_of_nat (nat (- i))) \<le> 0" by simp
    also have "0 \<le> rat_of_nat (f64_of_nat (nat j))" by simp
    finally show ?thesis using 2 by (simp add: f64_of_int_def)
  next
    case 3
    with \<open>i \<le> j\<close> show ?thesis by (simp add: f64_of_int_def f64_of_nat_mono nat_mono)
  qed
qed

lemma f64_of_int_exact: "\<bar>i\<bar> \<le> 2 ^ 53 \<Longrightarrow> f64_of_int i = of_int i"
  by (cases "0 \<le> i") (simp_all add: f64_of_int_def f64_of_nat_exact nat_le_iff of_nat_nat)

text \<open>Integers of at most 53 bits convert without loss.\<close>

fun fits_f64 :: "number \<Rightarrow> bool" where
  "fits_f64 (Pos_Int n) \<longleftrightarrow> uint n \<le> 2 ^ 53"
| "fits_f64 (Neg_Int i) \<longleftrightarrow> \<bar>i\<bar> \<le> 2 ^ 53"
| "fits_f64 (Float r) \<longleftrightarrow> True"

lemma as_f64_exact: "fits_f64 n \<Longrightarrow> as_f64 n = exact n"
  by (cases n) (simp_all add: f64_of_int_exact)

end
