(* ===== verification/Schema.thy ===== *)
theory Schema
  imports Json
begin

section \<open>Table schemas\<close>

text \<open>
  \<^verbatim>\<open>control_plane/src/schema_massager.rs\<close>: the types of a table's fields and how the schemas
  of successive commits are merged. A schema is nested (an object field has a schema of its
  own), so the three structs are mutually recursive datatypes. \<open>merge_field\<close> and
  \<open>merge_from\<close> follow the two Rust functions branch by branch; the two panics on
  incompatible types are errors.
\<close>

datatype powdrr_data_type =
    DT_Array powdrr_data_type
  | DT_Boolean
  | DT_Float
  | DT_Integer
  | DT_Null
  | DT_Object powdrr_schema
  | DT_String
and powdrr_field = PowdrrField (field_name: string) (field_type: powdrr_data_type)
and powdrr_schema = PowdrrSchema (schema_fields: "powdrr_field list")

fun is_null :: "powdrr_data_type \<Rightarrow> bool" where
  "is_null DT_Null = True"
| "is_null _ = False"

fun is_object :: "powdrr_data_type \<Rightarrow> bool" where
  "is_object (DT_Object _) = True"
| "is_object _ = False"

fun is_array :: "powdrr_data_type \<Rightarrow> bool" where
  "is_array (DT_Array _) = True"
| "is_array _ = False"

fun as_object_schema :: "powdrr_data_type \<Rightarrow> powdrr_schema option" where
  "as_object_schema (DT_Object s) = Some s"
| "as_object_schema _ = None"

fun array_element_type :: "powdrr_data_type \<Rightarrow> powdrr_data_type res" where
  "array_element_type (DT_Array t) = Inr t"
| "array_element_type _ = Inl (Panic ''Check to see that it is an array first.'')"

definition schema_minimal :: powdrr_schema where
  "schema_minimal = PowdrrSchema []"

definition schema_deletes :: powdrr_schema where
  "schema_deletes = PowdrrSchema [PowdrrField ''_id_seq_no'' DT_String]"

text \<open>\<^verbatim>\<open>sort_by\<close> is a stable sort, and field names are always comparable.\<close>

definition schema_from :: "powdrr_field list \<Rightarrow> powdrr_schema" where
  "schema_from fs = PowdrrSchema (sort_key field_name fs)"

text \<open>Collecting pairs into a \<^verbatim>\<open>HashMap\<close> keeps the last field of a name.\<close>

definition to_map :: "powdrr_schema \<Rightarrow> (string, powdrr_field) hash_map" where
  "to_map s = fold (\<lambda>f m. fmupd (field_name f) f m) (schema_fields s) fmempty"

definition replace_field :: "string \<Rightarrow> powdrr_field \<Rightarrow> powdrr_schema \<Rightarrow> powdrr_schema res" where
  "replace_field name merged s =
     (case position (\<lambda>f. field_name f = name) (schema_fields s) of
        None \<Rightarrow> Inl (Panic ''called `Option::unwrap()` on a `None` value'')
      | Some i \<Rightarrow> Inr (PowdrrSchema ((schema_fields s)[i := merged])))"

definition push_field :: "powdrr_field \<Rightarrow> powdrr_schema \<Rightarrow> powdrr_schema" where
  "push_field f s = PowdrrSchema (schema_fields s @ [f])"

lemma size_schema_fields [simp]: "Suc (2 * size_list size (schema_fields s)) < 2 * size s"
  by (cases s) simp

function (sequential)
    merge_field :: "powdrr_field \<Rightarrow> powdrr_field \<Rightarrow> powdrr_field option res"
and merge_from :: "powdrr_schema \<Rightarrow> powdrr_schema \<Rightarrow> powdrr_schema res"
and merge_loop :: "(string, powdrr_field) hash_map \<Rightarrow> powdrr_schema \<Rightarrow> powdrr_field list \<Rightarrow>
      powdrr_schema res" where
  "merge_field sf (PowdrrField on ot) =
     (if is_null ot then Inr None
      else if is_null (field_type sf) \<and> \<not> is_null ot then Inr (Some (PowdrrField on ot))
      else (case (field_type sf, ot) of
          (DT_Object ss, DT_Object os) \<Rightarrow>
            rbind (merge_from ss os) (\<lambda>m. Inr (Some (PowdrrField on (DT_Object m))))
        | (DT_Array se, DT_Array oe) \<Rightarrow>
            (if is_null oe then Inr None
             else if is_null se \<and> \<not> is_null oe then Inr (Some (PowdrrField on ot))
             else (case (se, oe) of
                 (DT_Object ss, DT_Object os) \<Rightarrow>
                   rbind (merge_from ss os)
                     (\<lambda>m. Inr (Some (PowdrrField on (DT_Array (DT_Object m)))))
               | _ \<Rightarrow>
                   if se \<noteq> oe then Inl (Panic ''Array element types are changing, it is bad'')
                   else Inr None))
        | _ \<Rightarrow>
            if field_type sf \<noteq> ot then Inl (Panic ''Data types are changing, it is bad'')
            else Inr None))"
| "merge_from self other = merge_loop (to_map self) self (schema_fields other)"
| "merge_loop sm self [] = Inr self"
| "merge_loop sm self (f # fs) =
     (case fmlookup sm (field_name f) of
        Some sf \<Rightarrow>
          rbind (merge_field sf f) (\<lambda>r. case r of
              Some merged \<Rightarrow>
                rbind (replace_field (field_name f) merged self) (\<lambda>self'. merge_loop sm self' fs)
            | None \<Rightarrow> merge_loop sm self fs)
      | None \<Rightarrow> merge_loop sm (push_field f self) fs)"
  by pat_completeness auto

termination
  by (relation "measure (\<lambda>x. case x of
      Inl (sf, f) \<Rightarrow> 2 * size f
    | Inr (Inl (s, s')) \<Rightarrow> 2 * size s'
    | Inr (Inr (sm, s, fs)) \<Rightarrow> 2 * size_list size fs + 1)") auto

declare merge_from.simps [simp del]

text \<open>\<^verbatim>\<open>merge_all\<close> folds a non-empty list and sorts the fields by name.\<close>

fun merge_all :: "powdrr_schema list \<Rightarrow> powdrr_schema res" where
  "merge_all [] = Inl (Panic ''assertion failed: !schemas.is_empty()'')"
| "merge_all (s # ss) =
     rmap (\<lambda>m. PowdrrSchema (sort_key field_name (schema_fields m))) (foldm merge_from s ss)"

subsection \<open>Coercion of documents\<close>

fun default_serde_value :: "powdrr_data_type \<Rightarrow> json"
and default_fields :: "powdrr_field list \<Rightarrow> json_map \<Rightarrow> json_map" where
  "default_serde_value (DT_Object (PowdrrSchema fs)) = JObject (default_fields fs [])"
| "default_serde_value _ = JNull"
| "default_fields [] m = m"
| "default_fields (PowdrrField n t # fs) m =
     default_fields fs (jm_insert n (default_serde_value t) m)"

fun coerce_value :: "powdrr_schema \<Rightarrow> json \<Rightarrow> json res"
and coerce_loop :: "powdrr_field list \<Rightarrow> json_map \<Rightarrow> json_map res" where
  "coerce_value (PowdrrSchema fs) v =
     (case v of
        JObject m \<Rightarrow> rmap JObject (coerce_loop fs m)
      | _ \<Rightarrow> Inl (Panic ''assertion failed: value.is_object()''))"
| "coerce_loop [] m = Inr m"
| "coerce_loop (PowdrrField n t # fs) m =
     (case map_of m n of
        Some v \<Rightarrow>
          (case t of
             DT_Object s \<Rightarrow>
               rbind (coerce_value s v) (\<lambda>v'. coerce_loop fs (jm_insert n v' m))
           | _ \<Rightarrow> coerce_loop fs m)
      | None \<Rightarrow> coerce_loop fs (jm_insert n (default_serde_value t) m))"

fun coerce_value_option :: "powdrr_schema \<Rightarrow> json option \<Rightarrow> json option res" where
  "coerce_value_option s None = Inr None"
| "coerce_value_option s (Some v) = rmap Some (coerce_value s v)"

subsection \<open>Well-formed schemas and the information order\<close>

abbreviation field_names :: "powdrr_schema \<Rightarrow> string list" where
  "field_names s \<equiv> map field_name (schema_fields s)"

definition schema_get :: "powdrr_schema \<Rightarrow> string \<Rightarrow> powdrr_data_type option" where
  "schema_get s n = map_of (map (\<lambda>f. (field_name f, field_type f)) (schema_fields s)) n"

lemma size_field_type_less: "size (field_type f) < size f"
  by (cases f) simp

lemma size_field_type [termination_simp]:
  "f \<in> set fs \<Longrightarrow> size (field_type f) < Suc (size_list size fs)"
proof (induction fs)
  case Nil
  then show ?case by simp
next
  case (Cons g fs)
  then show ?case using size_field_type_less [of g] by auto
qed

text \<open>No two fields of one object have the same name, at any depth.\<close>

fun wf_type :: "powdrr_data_type \<Rightarrow> bool" and wf_schema :: "powdrr_schema \<Rightarrow> bool" where
  "wf_type (DT_Object s) = wf_schema s"
| "wf_type (DT_Array t) = wf_type t"
| "wf_type _ = True"
| "wf_schema (PowdrrSchema fs) =
     (distinct (map field_name fs) \<and> (\<forall>f \<in> set fs. wf_type (field_type f)))"

text \<open>
  \<open>type_le t t'\<close>: what \<open>t\<close> knows of a field, \<open>t'\<close> knows too. A null type knows
  nothing, an object schema knows its fields, and arrays are ordered by their element types as
  far as the code merges them: null elements, equal elements, or object elements.
\<close>

fun type_le :: "powdrr_data_type \<Rightarrow> powdrr_data_type \<Rightarrow> bool"
and fields_le :: "powdrr_field list \<Rightarrow> powdrr_schema \<Rightarrow> bool" where
  "type_le DT_Null t' = True"
| "type_le (DT_Object (PowdrrSchema fs)) t' =
     (case t' of DT_Object s' \<Rightarrow> fields_le fs s' | _ \<Rightarrow> False)"
| "type_le (DT_Array t) t' =
     (case t' of
        DT_Array u \<Rightarrow> t = DT_Null \<or> t = u \<or> (is_object t \<and> type_le t u)
      | _ \<Rightarrow> False)"
| "type_le t t' = (t = t')"
| "fields_le [] s' = True"
| "fields_le (PowdrrField n t # fs) s' =
     ((case schema_get s' n of None \<Rightarrow> False | Some t' \<Rightarrow> type_le t t') \<and> fields_le fs s')"

definition schema_le :: "powdrr_schema \<Rightarrow> powdrr_schema \<Rightarrow> bool" where
  "schema_le s s' = fields_le (schema_fields s) s'"

lemma schema_get_field:
  "distinct (field_names s) \<Longrightarrow> f \<in> set (schema_fields s) \<Longrightarrow>
     schema_get s (field_name f) = Some (field_type f)"
  unfolding schema_get_def by (rule map_of_is_SomeI) (auto simp: comp_def)

lemma schema_get_None: "schema_get s n = None \<longleftrightarrow> n \<notin> set (field_names s)"
  by (auto simp: schema_get_def map_of_eq_None_iff image_image)

lemma schema_get_SomeD:
  "schema_get s n = Some t \<Longrightarrow> \<exists>f \<in> set (schema_fields s). field_name f = n \<and> field_type f = t"
  by (auto simp: schema_get_def dest!: map_of_SomeD)

lemma wf_schema_get: "wf_schema s \<Longrightarrow> schema_get s n = Some t \<Longrightarrow> wf_type t"
  by (cases s) (auto dest!: schema_get_SomeD)

lemma wf_schema_distinct: "wf_schema s \<Longrightarrow> distinct (field_names s)"
  by (cases s) simp

lemma fields_le_iff:
  "fields_le fs s' \<longleftrightarrow>
     (\<forall>f \<in> set fs. \<exists>t'. schema_get s' (field_name f) = Some t' \<and> type_le (field_type f) t')"
proof (induction fs)
  case Nil
  then show ?case by simp
next
  case (Cons f fs)
  then show ?case by (cases f) (auto split: option.splits)
qed

lemma type_le_object [simp]: "type_le (DT_Object s) (DT_Object s') \<longleftrightarrow> schema_le s s'"
  by (cases s) (simp add: schema_le_def)

lemma schema_le_get:
  assumes "distinct (field_names s)"
  shows "schema_le s s' \<longleftrightarrow> (\<forall>n t. schema_get s n = Some t \<longrightarrow>
     (\<exists>t'. schema_get s' n = Some t' \<and> type_le t t'))"
proof
  assume le: "schema_le s s'"
  show "\<forall>n t. schema_get s n = Some t \<longrightarrow> (\<exists>t'. schema_get s' n = Some t' \<and> type_le t t')"
    using le by (auto simp: schema_le_def fields_le_iff dest!: schema_get_SomeD)
next
  assume "\<forall>n t. schema_get s n = Some t \<longrightarrow> (\<exists>t'. schema_get s' n = Some t' \<and> type_le t t')"
  then show "schema_le s s'"
    using schema_get_field [OF assms] by (simp add: schema_le_def fields_le_iff)
qed

lemma type_le_refl: "wf_type t \<Longrightarrow> type_le t t"
  and schema_le_refl: "wf_schema s \<Longrightarrow> schema_le s s"
proof (induction t and s rule: wf_type_wf_schema.induct)
  case (4 fs)
  then show ?case
    by (auto simp: schema_le_def fields_le_iff schema_get_field [of "PowdrrSchema fs", simplified])
qed (auto simp: schema_le_def split: powdrr_data_type.splits)

subsection \<open>Merging\<close>

lemma to_map_fold:
  "fmlookup (fold (\<lambda>f m. fmupd (field_name f) f m) fs m0) n =
     (if n \<in> field_name ` set fs then map_of (rev (map (\<lambda>f. (field_name f, f)) fs)) n
      else fmlookup m0 n)"
proof (induction fs arbitrary: m0)
  case Nil
  then show ?case by simp
next
  case (Cons f fs)
  have "map_of (rev (map (\<lambda>f. (field_name f, f)) fs)) n = None \<longleftrightarrow> n \<notin> field_name ` set fs"
    by (auto simp: map_of_eq_None_iff image_image)
  with Cons show ?case by (auto simp: map_add_def split: option.splits)
qed

lemma to_map_Some:
  "fmlookup (to_map s) n = Some f \<Longrightarrow> f \<in> set (schema_fields s) \<and> field_name f = n"
  by (auto simp: to_map_def to_map_fold split: if_splits dest!: map_of_SomeD)

lemma to_map_None: "fmlookup (to_map s) n = None \<longleftrightarrow> n \<notin> set (field_names s)"
  by (auto simp: to_map_def to_map_fold map_of_eq_None_iff image_image)

lemma to_map_get:
  assumes "distinct (field_names s)"
  shows "schema_get s n = map_option field_type (fmlookup (to_map s) n)"
proof (cases "fmlookup (to_map s) n")
  case None
  then have "schema_get s n = None" by (metis to_map_None schema_get_None)
  with None show ?thesis by simp
next
  case (Some f)
  from to_map_Some [OF this] schema_get_field [OF assms] Some show ?thesis by auto
qed

lemma schema_get_update:
  assumes "position (\<lambda>f. field_name f = n) fs = Some i" "field_name g = n"
  shows "map_of (map (\<lambda>f. (field_name f, field_type f)) (fs[i := g])) =
     (map_of (map (\<lambda>f. (field_name f, field_type f)) fs))(n \<mapsto> field_type g)"
  using assms
proof (induction fs arbitrary: i)
  case Nil
  then show ?case by simp
next
  case (Cons f fs)
  then show ?case by (cases "field_name f = n") (auto simp: fun_upd_twist)
qed

lemma replace_field_get:
  assumes "replace_field n g s = Inr s'" "field_name g = n"
  shows "schema_get s' = (schema_get s)(n \<mapsto> field_type g)" "field_names s' = field_names s"
proof -
  from assms(1) obtain i where i: "position (\<lambda>f. field_name f = n) (schema_fields s) = Some i"
    "s' = PowdrrSchema ((schema_fields s)[i := g])"
    by (auto simp: replace_field_def split: option.splits)
  from schema_get_update [OF i(1) assms(2)] i(2)
  show "schema_get s' = (schema_get s)(n \<mapsto> field_type g)"
    by (simp add: schema_get_def fun_eq_iff)
  from position_Some [OF i(1)] i(2) assms(2) show "field_names s' = field_names s"
    by (auto simp: map_update list_update_same_conv)
qed

lemma push_field_get:
  "schema_get (push_field f s) n =
     (case schema_get s n of Some t \<Rightarrow> Some t
      | None \<Rightarrow> if n = field_name f then Some (field_type f) else None)"
  "field_names (push_field f s) = field_names s @ [field_name f]"
  by (auto simp: push_field_def schema_get_def map_add_def split: option.split)

text \<open>What one field of the incoming schema does to the merged one.\<close>

definition merged_as :: "powdrr_field option \<Rightarrow> powdrr_field \<Rightarrow> powdrr_data_type \<Rightarrow> bool" where
  "merged_as old f t = (case old of
     None \<Rightarrow> t = field_type f
   | Some sf \<Rightarrow> (\<exists>r. merge_field sf f = Inr r \<and>
       t = (case r of None \<Rightarrow> field_type sf | Some g \<Rightarrow> field_type g)))"

lemma merge_field_name: "merge_field sf f = Inr (Some g) \<Longrightarrow> field_name g = field_name f"
  by (cases f) (auto simp: res_Inr split: if_splits powdrr_data_type.splits)

lemma merge_loop_spec:
  assumes "merge_loop sm s fs = Inr m"
    and "distinct (map field_name fs)"
    and "\<And>f. f \<in> set fs \<Longrightarrow>
      schema_get s (field_name f) = map_option field_type (fmlookup sm (field_name f))"
  shows "(\<forall>n. n \<notin> field_name ` set fs \<longrightarrow> schema_get m n = schema_get s n) \<and>
    (\<forall>f \<in> set fs. \<exists>t. schema_get m (field_name f) = Some t \<and>
        merged_as (fmlookup sm (field_name f)) f t) \<and>
    field_names m = field_names s @
      [n \<leftarrow> map field_name fs. fmlookup sm n = None]"
  using assms
proof (induction fs arbitrary: s)
  case Nil
  then show ?case by simp
next
  case (Cons f fs)
  let ?n = "field_name f"
  from Cons.prems(2) have fresh: "?n \<notin> field_name ` set fs" by simp
  obtain s' t where loop: "merge_loop sm s' fs = Inr m"
    and get: "schema_get s' = (schema_get s)(?n \<mapsto> t)"
    and names: "field_names s' = field_names s @ (if fmlookup sm ?n = None then [?n] else [])"
    and t: "merged_as (fmlookup sm ?n) f t"
  proof (cases "fmlookup sm ?n")
    case None
    then have "schema_get s ?n = None" using Cons.prems(3) [of f] by simp
    then have "schema_get (push_field f s) = (schema_get s)(?n \<mapsto> field_type f)"
      by (auto simp: fun_eq_iff push_field_get split: option.split)
    with None Cons.prems(1) show thesis
      by (intro that [of "push_field f s" "field_type f"])
        (simp_all add: merged_as_def push_field_get(2))
  next
    case (Some sf)
    then have old: "schema_get s ?n = Some (field_type sf)" using Cons.prems(3) [of f] by simp
    from Some Cons.prems(1) obtain r where r: "merge_field sf f = Inr r"
      by (auto simp: res_Inr)
    show thesis
    proof (cases r)
      case None
      with r Some old Cons.prems(1) show thesis
        by (intro that [of s "field_type sf"]) (auto simp: merged_as_def)
    next
      case (Some g)
      with r \<open>fmlookup sm ?n = Some sf\<close> Cons.prems(1) obtain s'
        where s': "replace_field ?n g s = Inr s'" "merge_loop sm s' fs = Inr m"
        by (auto simp: res_Inr)
      from replace_field_get [OF s'(1)] merge_field_name r Some
      have "schema_get s' = (schema_get s)(?n \<mapsto> field_type g)" "field_names s' = field_names s"
        by auto
      with s'(2) r Some \<open>fmlookup sm ?n = Some sf\<close> show thesis
        by (intro that [of s' "field_type g"]) (auto simp: merged_as_def)
    qed
  qed
  have "\<And>g. g \<in> set fs \<Longrightarrow>
      schema_get s' (field_name g) = map_option field_type (fmlookup sm (field_name g))"
    using Cons.prems(3) fresh by (simp add: get) (metis image_eqI)
  from Cons.IH [OF loop _ this] Cons.prems(2)
  show ?case using fresh get names t by auto
qed

lemma merge_from_spec:
  assumes "merge_from s other = Inr m" "wf_schema s" "wf_schema other"
  shows "\<And>n. n \<notin> set (field_names other) \<Longrightarrow> schema_get m n = schema_get s n"
    and "\<And>f. f \<in> set (schema_fields other) \<Longrightarrow>
      \<exists>t. schema_get m (field_name f) = Some t \<and>
          merged_as (fmlookup (to_map s) (field_name f)) f t"
    and "field_names m =
      field_names s @ [n \<leftarrow> field_names other. n \<notin> set (field_names s)]"
proof -
  have "distinct (field_names s)" "distinct (field_names other)"
    using assms(2,3) by (auto dest: wf_schema_distinct)
  then have *: "(\<forall>n. n \<notin> field_name ` set (schema_fields other) \<longrightarrow>
       schema_get m n = schema_get s n) \<and>
    (\<forall>f \<in> set (schema_fields other). \<exists>t. schema_get m (field_name f) = Some t \<and>
        merged_as (fmlookup (to_map s) (field_name f)) f t) \<and>
    field_names m = field_names s @
      [n \<leftarrow> field_names other. fmlookup (to_map s) n = None]"
    using assms(1) by (intro merge_loop_spec) (simp_all add: to_map_get merge_from.simps)
  then show "\<And>n. n \<notin> set (field_names other) \<Longrightarrow> schema_get m n = schema_get s n"
    and "\<And>f. f \<in> set (schema_fields other) \<Longrightarrow>
      \<exists>t. schema_get m (field_name f) = Some t \<and>
          merged_as (fmlookup (to_map s) (field_name f)) f t"
    by simp_all
  from * show "field_names m =
      field_names s @ [n \<leftarrow> field_names other. n \<notin> set (field_names s)]"
    unfolding to_map_None by blast
qed

lemma merge_from_distinct:
  assumes "merge_from s other = Inr m" "wf_schema s" "wf_schema other"
  shows "distinct (field_names m)"
  using merge_from_spec(3) [OF assms] wf_schema_distinct [OF assms(2)]
    wf_schema_distinct [OF assms(3)]
  by auto

text \<open>The least upper bound in the information order.\<close>

definition type_join ::
    "powdrr_data_type \<Rightarrow> powdrr_data_type \<Rightarrow> powdrr_data_type \<Rightarrow> bool" where
  "type_join a b t \<longleftrightarrow> type_le a t \<and> type_le b t \<and> wf_type t \<and>
     (\<forall>u. wf_type u \<longrightarrow> type_le a u \<longrightarrow> type_le b u \<longrightarrow> type_le t u)"

definition schema_join :: "powdrr_schema \<Rightarrow> powdrr_schema \<Rightarrow> powdrr_schema \<Rightarrow> bool" where
  "schema_join a b m \<longleftrightarrow> schema_le a m \<and> schema_le b m \<and> wf_schema m \<and>
     (\<forall>u. wf_schema u \<longrightarrow> schema_le a u \<longrightarrow> schema_le b u \<longrightarrow> schema_le m u)"

lemma type_join_left: "type_le b a \<Longrightarrow> wf_type a \<Longrightarrow> type_join a b a"
  by (auto simp: type_join_def type_le_refl)

lemma type_join_right: "type_le a b \<Longrightarrow> wf_type b \<Longrightarrow> type_join a b b"
  by (auto simp: type_join_def type_le_refl)

lemma type_le_Object_iff: "type_le (DT_Object s) u \<longleftrightarrow> (\<exists>s'. u = DT_Object s' \<and> schema_le s s')"
  by (cases s; cases u) (auto simp: schema_le_def)

lemma type_le_Array_Object_iff:
  "wf_schema s \<Longrightarrow> type_le (DT_Array (DT_Object s)) u \<longleftrightarrow>
     (\<exists>s'. u = DT_Array (DT_Object s') \<and> schema_le s s')"
  by (cases u) (auto simp: type_le_Object_iff schema_le_refl)

lemma type_join_object:
  "schema_join ss os m \<Longrightarrow> type_join (DT_Object ss) (DT_Object os) (DT_Object m)"
  by (auto simp: type_join_def schema_join_def type_le_Object_iff)

lemma type_join_array_object:
  "wf_schema ss \<Longrightarrow> wf_schema os \<Longrightarrow> schema_join ss os m \<Longrightarrow>
     type_join (DT_Array (DT_Object ss)) (DT_Array (DT_Object os)) (DT_Array (DT_Object m))"
  by (auto simp: type_join_def schema_join_def type_le_Array_Object_iff simp del: type_le.simps)

lemma merge_field_join:
  assumes run: "merge_field sf f = Inr r"
    and wf: "wf_type (field_type sf)" "wf_type (field_type f)"
    and IH: "\<And>ss os m. size os < size f \<Longrightarrow> wf_schema ss \<Longrightarrow> wf_schema os \<Longrightarrow>
      merge_from ss os = Inr m \<Longrightarrow> schema_join ss os m"
    and t: "t = (case r of None \<Rightarrow> field_type sf | Some g \<Rightarrow> field_type g)"
  shows "type_join (field_type sf) (field_type f) t"
proof -
  obtain on ot where f: "f = PowdrrField on ot" by (cases f)
  note refl = type_le_refl [OF wf(1)] type_le_refl [OF wf(2)]
  consider (null) "ot = DT_Null"
    | (fill) "field_type sf = DT_Null" "ot \<noteq> DT_Null"
    | (obj) ss os where "field_type sf = DT_Object ss" "ot = DT_Object os"
    | (arr) se oe where "field_type sf = DT_Array se" "ot = DT_Array oe"
    | (other) "ot \<noteq> DT_Null" "field_type sf \<noteq> DT_Null"
        "\<not> (is_object (field_type sf) \<and> is_object ot)"
        "\<not> (is_array (field_type sf) \<and> is_array ot)"
    by (cases "field_type sf"; cases ot) auto
  then show ?thesis
  proof cases
    case null
    with run f t wf show ?thesis by (auto intro: type_join_left)
  next
    case fill
    then have "\<not> is_null ot" by (cases ot) auto
    with fill run f t wf show ?thesis by (auto simp: type_join_right)
  next
    case obj
    with run f obtain m where m: "merge_from ss os = Inr m"
      "r = Some (PowdrrField on (DT_Object m))" by (auto simp: res_Inr)
    with IH [of os ss m] obj f wf t show ?thesis by (simp add: type_join_object)
  next
    case arr
    show ?thesis
    proof (cases "is_object se \<and> is_object oe")
      case True
      then obtain ss os where so: "se = DT_Object ss" "oe = DT_Object os"
        by (cases se; cases oe) auto
      with arr run f obtain m where m: "merge_from ss os = Inr m"
        "r = Some (PowdrrField on (DT_Array (DT_Object m)))" by (auto simp: res_Inr)
      with IH [of os ss m] arr so f wf t show ?thesis by (simp add: type_join_array_object)
    next
      case False
      have "oe = DT_Null \<and> r = None \<or> se = DT_Null \<and> r = Some f \<or> se = oe \<and> r = None"
        using arr run f False
        by (cases se; cases oe) (auto split: if_splits)
      then show ?thesis using arr f t refl wf by (auto simp: type_join_left type_join_right)
    qed
  next
    case other
    then have "field_type sf = ot \<and> r = None"
      using run f by (cases "field_type sf"; cases ot) (auto split: if_splits)
    with f t refl wf show ?thesis by (auto intro: type_join_left)
  qed
qed

lemma size_list_member: "x \<in> set xs \<Longrightarrow> size x \<le> size_list size xs"
  by (induction xs) auto

lemma size_schema_member: "f \<in> set (schema_fields s) \<Longrightarrow> size f < size s"
  by (cases s) (auto dest: size_list_member)

lemma merge_from_field_join:
  assumes run: "merge_from s other = Inr m" "wf_schema s" "wf_schema other"
    and IH: "\<And>ss os m. size os < size other \<Longrightarrow> wf_schema ss \<Longrightarrow> wf_schema os \<Longrightarrow>
      merge_from ss os = Inr m \<Longrightarrow> schema_join ss os m"
    and f: "f \<in> set (schema_fields other)"
  shows "\<exists>t. schema_get m (field_name f) = Some t \<and>
      (case schema_get s (field_name f) of
         None \<Rightarrow> t = field_type f
       | Some t0 \<Rightarrow> type_join t0 (field_type f) t)"
proof -
  from merge_from_spec(2) [OF run f] obtain t
    where m: "schema_get m (field_name f) = Some t"
      and t: "merged_as (fmlookup (to_map s) (field_name f)) f t" by blast
  have ds: "distinct (field_names s)" using run(2) by (rule wf_schema_distinct)
  have wff: "wf_type (field_type f)" using run(3) f by (cases other) auto
  show ?thesis
  proof (cases "fmlookup (to_map s) (field_name f)")
    case None
    with t m show ?thesis by (auto simp: merged_as_def to_map_get [OF ds])
  next
    case (Some sf)
    with to_map_Some have "sf \<in> set (schema_fields s)" by blast
    with run(2) have wfs: "wf_type (field_type sf)" by (cases s) auto
    from t Some obtain r where r: "merge_field sf f = Inr r"
      "t = (case r of None \<Rightarrow> field_type sf | Some g \<Rightarrow> field_type g)"
      by (auto simp: merged_as_def)
    have "type_join (field_type sf) (field_type f) t"
      using size_schema_member [OF f]
      by (intro merge_field_join [OF r(1) wfs wff _ r(2)] IH) simp_all
    with Some m show ?thesis by (simp add: to_map_get [OF ds])
  qed
qed

text \<open>A schema is a join as soon as each of its fields is one.\<close>

lemma schema_joinI:
  assumes wf: "wf_schema s" "wf_schema other" and dm: "distinct (field_names m)"
    and fields: "\<And>f. f \<in> set (schema_fields other) \<Longrightarrow>
      \<exists>t. schema_get m (field_name f) = Some t \<and>
        (case schema_get s (field_name f) of
           None \<Rightarrow> t = field_type f
         | Some t0 \<Rightarrow> type_join t0 (field_type f) t)"
    and old: "\<And>n. n \<notin> set (field_names other) \<Longrightarrow> schema_get m n = schema_get s n"
  shows "schema_join s other m"
proof -
  have each: "type_le t t \<and> wf_type t \<and>
      (\<forall>t0. schema_get s n = Some t0 \<longrightarrow> type_le t0 t) \<and>
      (\<forall>f \<in> set (schema_fields other). field_name f = n \<longrightarrow> type_le (field_type f) t) \<and>
      (\<forall>u. wf_schema u \<longrightarrow> schema_le s u \<longrightarrow> schema_le other u \<longrightarrow>
         (\<exists>t'. schema_get u n = Some t' \<and> type_le t t'))"
    if n: "schema_get m n = Some t" for n t
  proof (cases "n \<in> set (field_names other)")
    case True
    then obtain f where f: "f \<in> set (schema_fields other)" "n = field_name f" by auto
    have wff: "wf_type (field_type f)" using wf(2) f(1) by (cases other) auto
    have uniq: "g = f" if "g \<in> set (schema_fields other)" "field_name g = n" for g
      using wf_schema_distinct [OF wf(2)] f that by (auto simp: distinct_map inj_on_def)
    have join: "case schema_get s n of None \<Rightarrow> t = field_type f | Some t0 \<Rightarrow> type_join t0 (field_type f) t"
      using fields [OF f(1)] n f(2) by auto
    have least: "\<exists>t'. schema_get u n = Some t' \<and> type_le t t'"
      if u: "wf_schema u" "schema_le s u" "schema_le other u" for u
    proof -
      from u(3) f obtain t' where t': "schema_get u n = Some t'" "type_le (field_type f) t'"
        by (auto simp: schema_le_def fields_le_iff)
      then have wft: "wf_type t'" using wf_schema_get [OF u(1)] by blast
      have "type_le t t'"
      proof (cases "schema_get s n")
        case None
        with join t' show ?thesis by simp
      next
        case (Some t0)
        with u(2) schema_le_get [OF wf_schema_distinct [OF wf(1)], of u] t'(1)
        have "type_le t0 t'" by fastforce
        with Some join t'(2) wft show ?thesis by (simp add: type_join_def)
      qed
      with t'(1) show ?thesis by blast
    qed
    show ?thesis
      using join wff least uniq
      by (cases "schema_get s n") (auto simp: type_join_def type_le_refl)
  next
    case False
    with old n have n: "schema_get s n = Some t" by simp
    with wf_schema_get [OF wf(1)] have "wf_type t" by blast
    with n False schema_le_get [OF wf_schema_distinct [OF wf(1)]] show ?thesis
      by (auto simp: type_le_refl)
  qed
  have get: "schema_get m (field_name g) = Some (field_type g)" if "g \<in> set (schema_fields m)" for g
    using schema_get_field [OF dm that] .
  have "wf_schema m" using dm each get by (cases m) auto
  moreover have "schema_le other m"
    unfolding schema_le_def fields_le_iff using fields each by blast
  moreover have "schema_get m n \<noteq> None" if "schema_get s n \<noteq> None" for n
    using fields old [of n] that by (cases "n \<in> set (field_names other)") auto
  then have "schema_le s m"
    unfolding schema_le_get [OF wf_schema_distinct [OF wf(1)]] using each by (metis not_None_eq)
  moreover have "schema_le m u" if "wf_schema u" "schema_le s u" "schema_le other u" for u
    unfolding schema_le_get [OF dm] using each that by blast
  ultimately show ?thesis by (simp add: schema_join_def)
qed

lemma merge_from_join:
  "merge_from s other = Inr m \<Longrightarrow> wf_schema s \<Longrightarrow> wf_schema other \<Longrightarrow> schema_join s other m"
proof (induction "size other" arbitrary: s other m rule: less_induct)
  case less
  show ?case
  proof (rule schema_joinI)
    show "wf_schema s" "wf_schema other" "distinct (field_names m)"
      using less.prems by (auto intro: merge_from_distinct)
    show "schema_get m n = schema_get s n" if "n \<notin> set (field_names other)" for n
      using merge_from_spec(1) [OF less.prems that] .
    show "\<exists>t. schema_get m (field_name f) = Some t \<and>
        (case schema_get s (field_name f) of
           None \<Rightarrow> t = field_type f
         | Some t0 \<Rightarrow> type_join t0 (field_type f) t)"
      if "f \<in> set (schema_fields other)" for f
      using merge_from_field_join [OF less.prems less.hyps that] by blast
  qed
qed

text \<open>A schema that already knows everything absorbs a merge.\<close>

lemma replace_field_self:
  assumes "distinct (field_names s)" "sf \<in> set (schema_fields s)"
  shows "replace_field (field_name sf) sf s = Inr s"
proof (cases "position (\<lambda>f. field_name f = field_name sf) (schema_fields s)")
  case None
  with assms(2) show ?thesis by (auto simp: position_None)
next
  case (Some i)
  from position_Some [OF this] have i: "i < length (schema_fields s)"
    "field_name (schema_fields s ! i) = field_name sf" by auto
  with assms have "schema_fields s ! i = sf"
    by (metis distinct_map inj_onD nth_mem)
  with Some i show ?thesis by (cases s) (simp add: replace_field_def list_update_same_conv)
qed

lemma merge_field_absorb:
  assumes le: "type_le (field_type f) (field_type sf)" and name: "field_name sf = field_name f"
    and wf: "wf_type (field_type sf)" "wf_type (field_type f)"
    and IH: "\<And>ss os. size os < size f \<Longrightarrow> wf_schema ss \<Longrightarrow> wf_schema os \<Longrightarrow>
      schema_le os ss \<Longrightarrow> merge_from ss os = Inr ss"
  shows "merge_field sf f = Inr None \<or> merge_field sf f = Inr (Some sf)"
proof -
  obtain on ot where f: "f = PowdrrField on ot" by (cases f)
  obtain sn st where sf: "sf = PowdrrField sn st" by (cases sf)
  show ?thesis
  proof (cases "\<exists>os ss. ot = DT_Object os \<and> st = DT_Object ss")
    case True
    then obtain os ss where "ot = DT_Object os" "st = DT_Object ss" by blast
    with IH [of os ss] f sf le wf name show ?thesis by simp
  next
    case no_obj: False
    show ?thesis
    proof (cases "\<exists>os ss. ot = DT_Array (DT_Object os) \<and> st = DT_Array (DT_Object ss)")
      case True
      then obtain os ss where so: "ot = DT_Array (DT_Object os)" "st = DT_Array (DT_Object ss)"
        by blast
      with le f sf wf have "schema_le os ss" by (auto simp: type_le_Array_Object_iff simp del: type_le.simps)
      with so IH [of os ss] f sf wf name show ?thesis by simp
    next
      case False
      have "ot = DT_Null \<or> ot = st \<or> (\<exists>se. ot = DT_Array DT_Null \<and> st = DT_Array se)"
        using le f sf no_obj False
        by (cases ot; cases st) (auto simp: type_le_Object_iff elim!: is_object.elims)
      with no_obj False f sf show ?thesis
        by (cases st) (auto split: powdrr_data_type.splits)
    qed
  qed
qed

lemma merge_loop_absorb:
  assumes "\<And>f. f \<in> set fs \<Longrightarrow> \<exists>sf. fmlookup sm (field_name f) = Some sf \<and>
      (merge_field sf f = Inr None \<or>
       merge_field sf f = Inr (Some sf) \<and> replace_field (field_name f) sf s = Inr s)"
  shows "merge_loop sm s fs = Inr s"
  using assms
proof (induction fs)
  case Nil
  then show ?case by simp
next
  case (Cons f fs)
  from Cons.prems [of f] obtain sf where "fmlookup sm (field_name f) = Some sf"
    "merge_field sf f = Inr None \<or>
       merge_field sf f = Inr (Some sf) \<and> replace_field (field_name f) sf s = Inr s"
    by auto
  with Cons show ?case by auto
qed

lemma merge_from_absorb:
  "schema_le other s \<Longrightarrow> wf_schema s \<Longrightarrow> wf_schema other \<Longrightarrow> merge_from s other = Inr s"
proof (induction "size other" arbitrary: s other rule: less_induct)
  case less
  have ds: "distinct (field_names s)" using less.prems(2) by (rule wf_schema_distinct)
  show ?case
    unfolding merge_from.simps
  proof (rule merge_loop_absorb)
    fix f assume f: "f \<in> set (schema_fields other)"
    with less.prems(1) obtain t where t: "schema_get s (field_name f) = Some t"
      "type_le (field_type f) t" by (auto simp: schema_le_def fields_le_iff)
    then obtain sf where sf: "fmlookup (to_map s) (field_name f) = Some sf" "field_type sf = t"
      by (auto simp: to_map_get [OF ds])
    from to_map_Some [OF sf(1)] have mem: "sf \<in> set (schema_fields s)"
      "field_name sf = field_name f" by blast+
    have "wf_type (field_type sf)" "wf_type (field_type f)"
      using less.prems(2,3) mem(1) f by (cases s; cases other; auto)+
    then have "merge_field sf f = Inr None \<or> merge_field sf f = Inr (Some sf)"
      using t(2) sf(2) mem(2) size_schema_member [OF f]
      by (intro merge_field_absorb less.hyps) auto
    then show "\<exists>sf. fmlookup (to_map s) (field_name f) = Some sf \<and>
        (merge_field sf f = Inr None \<or>
         merge_field sf f = Inr (Some sf) \<and> replace_field (field_name f) sf s = Inr s)"
      using sf(1) replace_field_self [OF ds mem(1)] mem(2) by auto
  qed
qed

lemma merge_from_twice:
  assumes "merge_from s other = Inr m" "wf_schema s" "wf_schema other"
  shows "merge_from m other = Inr m"
  using merge_from_join [OF assms] assms(3) by (auto simp: schema_join_def intro: merge_from_absorb)

subsection \<open>Properties of the merge\<close>

text \<open>
  C14. Merging one schema into another gives the least schema that knows everything both know:
  an upper bound of both in the information order, below every other one; the receiver's fields
  keep their positions and the new names follow in the order of the other schema.
\<close>

theorem schema_merge_least_upper_bound:
  assumes "merge_from s other = Inr m" "wf_schema s" "wf_schema other"
  shows "schema_join s other m \<and>
    field_names m = field_names s @ [n \<leftarrow> field_names other. n \<notin> set (field_names s)]"
  using merge_from_join [OF assms] merge_from_spec(3) [OF assms] by simp

lemma schema_merge_least_upper_bound_witness:
  "\<exists>m. merge_from
        (PowdrrSchema [PowdrrField ''a'' DT_Null, PowdrrField ''b'' DT_Integer])
        (PowdrrSchema [PowdrrField ''c'' DT_String, PowdrrField ''a'' DT_Float]) = Inr m \<and>
    field_names m = [''a'', ''b'', ''c'']"
  (is "\<exists>m. merge_from ?s ?o = Inr m \<and> _")
proof -
  have "\<exists>m. merge_from ?s ?o = Inr m"
    by (simp add: merge_from.simps to_map_def merge_field.simps push_field_def replace_field_def)
  then obtain m where m: "merge_from ?s ?o = Inr m" by blast
  from schema_merge_least_upper_bound [OF m] m show ?thesis by simp
qed

text \<open>Merging the same schema a second time changes nothing.\<close>

lemma schema_merge_idempotent:
  assumes "merge_from s other = Inr m" "wf_schema s" "wf_schema other"
  shows "merge_from m other = Inr m \<and> merge_from m s = Inr m"
  using merge_from_join [OF assms] assms(2,3)
  by (auto simp: schema_join_def intro: merge_from_absorb)

lemma schema_merge_idempotent_witness:
  "\<exists>m. merge_from (PowdrrSchema [PowdrrField ''a'' DT_Null])
         (PowdrrSchema [PowdrrField ''a'' DT_Float]) = Inr m \<and>
       merge_from m (PowdrrSchema [PowdrrField ''a'' DT_Null]) = Inr m"
  (is "\<exists>m. merge_from ?s ?o = Inr m \<and> _")
proof -
  have "\<exists>m. merge_from ?s ?o = Inr m"
    by (simp add: merge_from.simps to_map_def merge_field.simps push_field_def replace_field_def)
  then obtain m where m: "merge_from ?s ?o = Inr m" by blast
  from schema_merge_idempotent [OF m] m show ?thesis by simp
qed

end
