(* ===== verification/File_Set.thy ===== *)
theory File_Set
  imports Schema
begin

section \<open>File sets\<close>

text \<open>
  \<^verbatim>\<open>FileSetPayload\<close> of \<^verbatim>\<open>control_plane/src/data_contract.rs\<close>: the files of a table as four
  parallel vectors, the schemas shared between files and referred to by index. The operations
  are the ones of the source, the index loop of \<^verbatim>\<open>remove\<close> included; \<open>abs_files\<close> reads
  a well-formed payload as the list of its file descriptors, and each operation is shown to
  implement its obvious list counterpart there. \<open>hash\<close> stands for the standard library's
  \<^verbatim>\<open>DefaultHasher\<close>, whose algorithm the language leaves open.
\<close>

record file_descriptor =
  fd_path :: string
  fd_schema :: powdrr_schema
  fd_size :: u64

record file_set_payload =
  file_paths :: "string list"
  schemas :: "powdrr_schema list"
  file_schemas :: "nat list"
  sizes :: "u64 list"

definition fs_new :: file_set_payload where
  "fs_new = \<lparr>file_paths = [], schemas = [], file_schemas = [], sizes = []\<rparr>"

definition fs_validate :: "file_set_payload \<Rightarrow> unit res" where
  "fs_validate fs =
     foldm (\<lambda>_ i. assert_that ''assertion failed: index < &max_index'' (i < length (schemas fs)))
       () (file_schemas fs)"

definition fs_single :: "string \<Rightarrow> u64 \<Rightarrow> powdrr_schema \<Rightarrow> file_set_payload" where
  "fs_single path sz sch =
     \<lparr>file_paths = [path], schemas = [sch], file_schemas = [0], sizes = [sz]\<rparr>"

definition fs_len :: "file_set_payload \<Rightarrow> nat" where
  "fs_len fs = length (file_paths fs)"

definition fs_clear :: "file_set_payload \<Rightarrow> file_set_payload" where
  "fs_clear fs = fs\<lparr>file_paths := [], sizes := [], file_schemas := [], schemas := []\<rparr>"

text \<open>
  \<^verbatim>\<open>remove\<close> walks the paths with an index that only advances past kept files. A vector that
  is shorter than \<^verbatim>\<open>file_paths\<close> makes \<^verbatim>\<open>Vec::remove\<close> panic.
\<close>

function fs_remove_loop :: "string list \<Rightarrow> nat \<Rightarrow> file_set_payload \<Rightarrow> file_set_payload res" where
  "fs_remove_loop rm i fs =
     (if i < length (file_paths fs) then
        (if file_paths fs ! i \<in> set rm then
           rbind (vec_remove i (sizes fs)) (\<lambda>szs.
           rbind (vec_remove i (file_schemas fs)) (\<lambda>schs.
             fs_remove_loop rm i
               (fs\<lparr>file_paths := take i (file_paths fs) @ drop (Suc i) (file_paths fs),
                   sizes := szs, file_schemas := schs\<rparr>)))
         else fs_remove_loop rm (Suc i) fs)
      else Inr fs)"
  by pat_completeness auto
termination
  by (relation "measure (\<lambda>(rm, i, fs). length (file_paths fs) - i)") auto

declare fs_remove_loop.simps [simp del]

definition fs_remove :: "string list \<Rightarrow> file_set_payload \<Rightarrow> file_set_payload res" where
  "fs_remove rm fs = fs_remove_loop rm 0 fs"

definition as_file_tuples :: "file_set_payload \<Rightarrow> file_descriptor list res" where
  "as_file_tuples fs =
     mapm (\<lambda>((path, sz), i).
        rmap (\<lambda>sch. \<lparr>fd_path = path, fd_schema = sch, fd_size = sz\<rparr>) (vec_index (schemas fs) i))
      (zip (zip (file_paths fs) (sizes fs)) (file_schemas fs))"

text \<open>\<^verbatim>\<open>%\<close> panics on a zero divisor.\<close>

definition selected_file :: "(string \<Rightarrow> u64) \<Rightarrow> string \<Rightarrow> u64 \<Rightarrow> u64 \<Rightarrow> bool res" where
  "selected_file hash path index num =
     (if num = 0 then Inl (Panic ''attempt to calculate the remainder with a divisor of zero'')
      else Inr (hash path mod num = index))"

fun filterm :: "('a \<Rightarrow> bool res) \<Rightarrow> 'a list \<Rightarrow> 'a list res" where
  "filterm p [] = Inr []"
| "filterm p (x # xs) =
     rbind (p x) (\<lambda>b. rmap (\<lambda>ys. if b then x # ys else ys) (filterm p xs))"

definition as_selected_tuples ::
    "(string \<Rightarrow> u64) \<Rightarrow> u64 \<Rightarrow> u64 \<Rightarrow> file_set_payload \<Rightarrow> file_descriptor list res" where
  "as_selected_tuples hash index num fs =
     rbind (as_file_tuples fs) (filterm (\<lambda>x. selected_file hash (fd_path x) index num))"

definition fs_add :: "file_set_payload \<Rightarrow> file_descriptor \<Rightarrow> file_set_payload" where
  "fs_add fs fd =
     (if fd_path fd \<in> set (file_paths fs) then fs
      else
        let fs' = fs\<lparr>file_paths := file_paths fs @ [fd_path fd], sizes := sizes fs @ [fd_size fd]\<rparr>
        in case position (\<lambda>item. item = fd_schema fd) (schemas fs) of
             Some i \<Rightarrow> fs'\<lparr>file_schemas := file_schemas fs @ [i]\<rparr>
           | None \<Rightarrow>
               fs'\<lparr>file_schemas := file_schemas fs @ [length (schemas fs)],
                   schemas := schemas fs @ [fd_schema fd]\<rparr>)"

definition merge_inplace :: "file_set_payload \<Rightarrow> file_set_payload \<Rightarrow> file_set_payload res" where
  "merge_inplace fs other = rmap (\<lambda>tuples. foldl fs_add fs tuples) (as_file_tuples other)"

definition fs_merge :: "file_set_payload \<Rightarrow> file_set_payload \<Rightarrow> file_set_payload res" where
  "fs_merge fs other =
     (if length (file_paths fs) > length (file_paths other) then merge_inplace fs other
      else merge_inplace other fs)"

text \<open>\<^verbatim>\<open>select\<close> takes the first path that contains the file name, and panics when none does.\<close>

definition fs_select :: "string \<Rightarrow> file_set_payload \<Rightarrow> file_set_payload res" where
  "fs_select name fs =
     (case position (\<lambda>path. sublist name path) (file_paths fs) of
        None \<Rightarrow> Inl (Panic ''File not found'')
      | Some i \<Rightarrow>
          rbind (vec_index (sizes fs) i) (\<lambda>sz.
          rbind (vec_index (file_schemas fs) i) (\<lambda>si.
          rbind (vec_index (schemas fs) si) (\<lambda>sch.
            Inr (fs_single (file_paths fs ! i) sz sch)))))"

subsection \<open>Well-formed payloads and their abstraction\<close>

definition wf_files :: "file_set_payload \<Rightarrow> bool" where
  "wf_files fs \<longleftrightarrow>
     length (sizes fs) = length (file_paths fs) \<and>
     length (file_schemas fs) = length (file_paths fs) \<and>
     (\<forall>i \<in> set (file_schemas fs). i < length (schemas fs)) \<and>
     distinct (file_paths fs)"

definition abs_files :: "file_set_payload \<Rightarrow> file_descriptor list" where
  "abs_files fs =
     map (\<lambda>((path, sz), i). \<lparr>fd_path = path, fd_schema = schemas fs ! i, fd_size = sz\<rparr>)
       (zip (zip (file_paths fs) (sizes fs)) (file_schemas fs))"

text \<open>The list counterparts: add unless the path is present, remove by path.\<close>

definition add_file :: "file_descriptor list \<Rightarrow> file_descriptor \<Rightarrow> file_descriptor list" where
  "add_file fds fd = (if fd_path fd \<in> fd_path ` set fds then fds else fds @ [fd])"

lemma wf_fs_new [simp]: "wf_files fs_new"
  by (simp add: wf_files_def fs_new_def)

lemma abs_fs_new [simp]: "abs_files fs_new = []"
  by (simp add: abs_files_def fs_new_def)

lemma wf_fs_single [simp]: "wf_files (fs_single p z s)"
  by (simp add: wf_files_def fs_single_def)

lemma abs_fs_single [simp]:
  "abs_files (fs_single p z s) = [\<lparr>fd_path = p, fd_schema = s, fd_size = z\<rparr>]"
  by (simp add: abs_files_def fs_single_def)

lemma abs_files_paths: "wf_files fs \<Longrightarrow> map fd_path (abs_files fs) = file_paths fs"
  by (auto simp: wf_files_def abs_files_def intro!: nth_equalityI)

lemma abs_files_path_set: "wf_files fs \<Longrightarrow> fd_path ` set (abs_files fs) = set (file_paths fs)"
  by (metis abs_files_paths set_map)

lemma as_file_tuples_wf:
  assumes "wf_files fs"
  shows "as_file_tuples fs = Inr (abs_files fs)"
  unfolding as_file_tuples_def abs_files_def
  using assms
  by (intro mapm_total) (auto simp: wf_files_def vec_index_def dest!: set_zip_rightD)

subsection \<open>Adding files\<close>

text \<open>
  What the clients of a file set rely on: adding keeps the payload well formed and adds the
  file unless its path is present.
\<close>

locale file_catalog =
  fixes invar :: "'c \<Rightarrow> bool"
    and files :: "'c \<Rightarrow> 'f list"
    and path :: "'f \<Rightarrow> 'p"
    and add :: "'c \<Rightarrow> 'f \<Rightarrow> 'c"
  assumes invar_add: "invar c \<Longrightarrow> invar (add c f)"
    and files_add: "invar c \<Longrightarrow>
      files (add c f) = (if path f \<in> path ` set (files c) then files c else files c @ [f])"
begin

lemma invar_adds: "invar c \<Longrightarrow> invar (foldl add c fs)"
  by (induction fs arbitrary: c) (simp_all add: invar_add)

lemma paths_adds:
  "invar c \<Longrightarrow> path ` set (files (foldl add c fs)) = path ` set (files c) \<union> path ` set fs"
  by (induction fs arbitrary: c) (auto simp: invar_add files_add)

lemma files_adds_prefix: "invar c \<Longrightarrow> \<exists>new. files (foldl add c fs) = files c @ new \<and> set new \<subseteq> set fs"
proof (induction fs arbitrary: c)
  case Nil
  then show ?case by simp
next
  case (Cons f fs)
  then obtain new where "files (foldl add (add c f) fs) = files (add c f) @ new" "set new \<subseteq> set fs"
    using invar_add by blast
  with Cons.prems show ?case by (auto simp: files_add)
qed

lemma files_adds_fresh:
  "invar c \<Longrightarrow> distinct (map path fs) \<Longrightarrow> path ` set fs \<inter> path ` set (files c) = {} \<Longrightarrow>
     files (foldl add c fs) = files c @ fs"
proof (induction fs arbitrary: c)
  case Nil
  then show ?case by simp
next
  case (Cons f fs)
  then show ?case by (auto simp: invar_add files_add intro!: Cons.IH [THEN trans])
qed

lemma files_adds_present:
  "invar c \<Longrightarrow> path ` set fs \<subseteq> path ` set (files c) \<Longrightarrow> files (foldl add c fs) = files c"
  by (induction fs arbitrary: c) (auto simp: invar_add files_add)

end

lemma wf_fs_add: "wf_files fs \<Longrightarrow> wf_files (fs_add fs fd)"
  by (auto simp: wf_files_def fs_add_def Let_def less_Suc_eq split: option.split dest!: position_Some)

lemma abs_files_schemas_append:
  assumes "wf_files fs"
  shows "map (\<lambda>((path, sz), i). \<lparr>fd_path = path, fd_schema = (schemas fs @ ss) ! i, fd_size = sz\<rparr>)
       (zip (zip (file_paths fs) (sizes fs)) (file_schemas fs)) = abs_files fs"
  unfolding abs_files_def
  using assms by (intro map_cong) (auto simp: wf_files_def nth_append dest!: set_zip_rightD)

lemma abs_fs_add:
  assumes "wf_files fs"
  shows "abs_files (fs_add fs fd) =
    (if fd_path fd \<in> fd_path ` set (abs_files fs) then abs_files fs else abs_files fs @ [fd])"
proof (cases "fd_path fd \<in> set (file_paths fs)")
  case True
  then show ?thesis using assms by (simp add: fs_add_def abs_files_path_set)
next
  case False
  have len: "length (sizes fs) = length (file_paths fs)"
    "length (file_schemas fs) = length (file_paths fs)"
    using assms by (simp_all add: wf_files_def)
  have "abs_files (fs_add fs fd) = abs_files fs @ [fd]"
  proof (cases "position (\<lambda>item. item = fd_schema fd) (schemas fs)")
    case None
    then show ?thesis
      using False len abs_files_schemas_append [OF assms, of "[fd_schema fd]"]
      by (simp add: abs_files_def fs_add_def Let_def)
  next
    case (Some i)
    from position_Some [OF this] have "schemas fs ! i = fd_schema fd" by simp
    with Some show ?thesis
      using False len by (simp add: abs_files_def fs_add_def Let_def)
  qed
  with False show ?thesis using assms by (simp add: abs_files_path_set)
qed

interpretation fset: file_catalog wf_files abs_files fd_path fs_add
  by unfold_locales (simp_all add: wf_fs_add abs_fs_add)

subsection \<open>Merging\<close>

lemma merge_inplace_wf:
  assumes "wf_files fs" "wf_files other"
  obtains fs' where "merge_inplace fs other = Inr fs'" "wf_files fs'"
    "fs' = foldl fs_add fs (abs_files other)"
    "set (file_paths fs') = set (file_paths fs) \<union> set (file_paths other)"
proof (rule that)
  let ?m = "foldl fs_add fs (abs_files other)"
  show "merge_inplace fs other = Inr ?m"
    using assms(2) by (simp add: merge_inplace_def as_file_tuples_wf)
  show wf: "wf_files ?m" using assms(1) by (rule fset.invar_adds)
  show "set (file_paths ?m) = set (file_paths fs) \<union> set (file_paths other)"
    using fset.paths_adds [OF assms(1), of "abs_files other"] wf assms
    by (simp add: abs_files_path_set)
qed simp

lemma fs_merge_wf:
  assumes "wf_files fs" "wf_files other"
  obtains fs' where "fs_merge fs other = Inr fs'" "wf_files fs'"
    "set (file_paths fs') = set (file_paths fs) \<union> set (file_paths other)"
proof (cases "length (file_paths fs) > length (file_paths other)")
  case True
  with merge_inplace_wf [OF assms] that show ?thesis by (auto simp: fs_merge_def)
next
  case False
  from merge_inplace_wf [OF assms(2,1)] obtain m where "merge_inplace other fs = Inr m"
    "wf_files m" "set (file_paths m) = set (file_paths other) \<union> set (file_paths fs)" by blast
  with False that show ?thesis by (auto simp: fs_merge_def)
qed

subsection \<open>Removing files\<close>

abbreviation file_rows :: "file_set_payload \<Rightarrow> ((string \<times> u64) \<times> nat) list" where
  "file_rows fs \<equiv> zip (zip (file_paths fs) (sizes fs)) (file_schemas fs)"

lemma zip_cut:
  "length xs = length ys \<Longrightarrow>
     zip (take i xs @ drop (Suc i) xs) (take i ys @ drop (Suc i) ys) =
     take i (zip xs ys) @ drop (Suc i) (zip xs ys)"
  by (simp add: zip_append take_zip drop_zip)

lemma wf_files_cut:
  assumes "wf_files fs"
  shows "wf_files (fs\<lparr>file_paths := take i (file_paths fs) @ drop (Suc i) (file_paths fs),
      sizes := take i (sizes fs) @ drop (Suc i) (sizes fs),
      file_schemas := take i (file_schemas fs) @ drop (Suc i) (file_schemas fs)\<rparr>)"
proof -
  have "distinct (take i xs @ drop (Suc i) xs)" if "distinct xs" for xs :: "string list"
    using that set_take_disj_set_drop_if_distinct [of xs i "Suc i"] by auto
  with assms show ?thesis
    by (auto simp: wf_files_def dest: in_set_takeD in_set_dropD)
qed

lemma fs_remove_loop_wf:
  assumes "wf_files fs" "i \<le> length (file_paths fs)"
  shows "\<exists>fs'. fs_remove_loop rm i fs = Inr fs' \<and> wf_files fs' \<and> schemas fs' = schemas fs \<and>
    file_rows fs' =
      take i (file_rows fs) @ [r \<leftarrow> drop i (file_rows fs). fst (fst r) \<notin> set rm]"
  using assms
proof (induction rm i fs rule: fs_remove_loop.induct)
  case (1 rm i fs)
  have len: "length (sizes fs) = length (file_paths fs)"
    "length (file_schemas fs) = length (file_paths fs)"
    using "1.prems"(1) by (simp_all add: wf_files_def)
  show ?case
  proof (cases "i < length (file_paths fs)")
    case False
    then have "fs_remove_loop rm i fs = Inr fs" by (simp add: fs_remove_loop.simps [of rm i fs])
    with False "1.prems" len show ?thesis by simp
  next
    case True
    then have row: "drop i (file_rows fs) =
        ((file_paths fs ! i, sizes fs ! i), file_schemas fs ! i) # drop (Suc i) (file_rows fs)"
      by (simp add: len flip: Cons_nth_drop_Suc)
    show ?thesis
    proof (cases "file_paths fs ! i \<in> set rm")
      case rm: True
      let ?cut = "fs\<lparr>file_paths := take i (file_paths fs) @ drop (Suc i) (file_paths fs),
        sizes := take i (sizes fs) @ drop (Suc i) (sizes fs),
        file_schemas := take i (file_schemas fs) @ drop (Suc i) (file_schemas fs)\<rparr>"
      have step: "fs_remove_loop rm i fs = fs_remove_loop rm i ?cut"
        using True rm len by (simp add: fs_remove_loop.simps [of rm i fs] vec_remove_def)
      have rows: "file_rows ?cut = take i (file_rows fs) @ drop (Suc i) (file_rows fs)"
        by (simp add: len take_zip drop_zip)
      have "\<exists>fs'. fs_remove_loop rm i ?cut = Inr fs' \<and> wf_files fs' \<and> schemas fs' = schemas ?cut \<and>
          file_rows fs' =
            take i (file_rows ?cut) @ [r \<leftarrow> drop i (file_rows ?cut). fst (fst r) \<notin> set rm]"
        using True rm len wf_files_cut [OF "1.prems"(1)]
        by (intro "1.IH"(1)) (simp_all add: vec_remove_def)
      then show ?thesis unfolding rows step using True rm row len by simp
    next
      case keep: False
      have step: "fs_remove_loop rm i fs = fs_remove_loop rm (Suc i) fs"
        using True keep by (simp add: fs_remove_loop.simps [of rm i fs])
      have "take (Suc i) (file_rows fs) =
          take i (file_rows fs) @ [((file_paths fs ! i, sizes fs ! i), file_schemas fs ! i)]"
        using True len by (simp add: take_Suc_conv_app_nth)
      with "1.IH"(2) [OF True keep "1.prems"(1)] True keep show ?thesis
        by (simp add: step row)
    qed
  qed
qed

lemma fs_remove_wf:
  assumes "wf_files fs"
  obtains fs' where "fs_remove rm fs = Inr fs'" "wf_files fs'"
    "abs_files fs' = [fd \<leftarrow> abs_files fs. fd_path fd \<notin> set rm]"
    "file_paths fs' = [p \<leftarrow> file_paths fs. p \<notin> set rm]"
proof -
  from fs_remove_loop_wf [OF assms, of 0 rm] obtain fs' where fs':
    "fs_remove rm fs = Inr fs'" "wf_files fs'" "schemas fs' = schemas fs"
    "file_rows fs' = [r \<leftarrow> file_rows fs. fst (fst r) \<notin> set rm]"
    by (auto simp: fs_remove_def)
  then have abs: "abs_files fs' = [fd \<leftarrow> abs_files fs. fd_path fd \<notin> set rm]"
    by (auto simp: abs_files_def filter_map comp_def case_prod_beta)
  then have "file_paths fs' = [p \<leftarrow> file_paths fs. p \<notin> set rm]"
    using abs_files_paths [OF assms] abs_files_paths [OF fs'(2)]
    by (metis (no_types, lifting) comp_def filter_cong filter_map)
  with fs' abs that show thesis by blast
qed

subsection \<open>Selecting files\<close>

lemma filterm_total:
  assumes "\<And>x. x \<in> set xs \<Longrightarrow> p x = Inr (q x)"
  shows "filterm p xs = Inr (filter q xs)"
  using assms by (induction xs) simp_all

lemma as_selected_tuples_wf:
  assumes "wf_files fs" "num \<noteq> 0"
  shows "as_selected_tuples hash index num fs =
    Inr [fd \<leftarrow> abs_files fs. hash (fd_path fd) mod num = index]"
  using assms
  by (simp add: as_selected_tuples_def as_file_tuples_wf selected_file_def filterm_total)

lemma fs_select_wf:
  assumes "wf_files fs" "\<exists>p \<in> set (file_paths fs). sublist name p"
  obtains fd where "fs_select name fs = Inr (fs_single (fd_path fd) (fd_size fd) (fd_schema fd))"
    "fd \<in> set (abs_files fs)" "sublist name (fd_path fd)"
proof -
  from assms(2) obtain i where i: "position (sublist name) (file_paths fs) = Some i"
    using position_None [of "sublist name" "file_paths fs"] by auto
  from position_Some [OF i] have il: "i < length (file_paths fs)" "sublist name (file_paths fs ! i)"
    by auto
  let ?fd = "abs_files fs ! i"
  have len: "length (abs_files fs) = length (file_paths fs)"
    by (metis abs_files_paths assms(1) length_map)
  have fd: "?fd = \<lparr>fd_path = file_paths fs ! i, fd_schema = schemas fs ! (file_schemas fs ! i),
      fd_size = sizes fs ! i\<rparr>"
    using assms(1) il by (simp add: abs_files_def wf_files_def)
  have "fs_select name fs = Inr (fs_single (fd_path ?fd) (fd_size ?fd) (fd_schema ?fd))"
    using assms(1) il i by (simp add: fs_select_def wf_files_def vec_index_def fd)
  moreover have "?fd \<in> set (abs_files fs)" using il len by simp
  ultimately show thesis using that [of ?fd] il(2) fd by simp
qed

subsection \<open>Properties of file sets\<close>

lemma abs_foldl_add:
  "wf_files fs \<Longrightarrow> abs_files (foldl fs_add fs fds) = foldl add_file (abs_files fs) fds"
  by (induction fds arbitrary: fs) (simp_all add: wf_fs_add abs_fs_add add_file_def)

text \<open>
  C16. The four parallel vectors of a payload implement a list of files: merging another payload
  in place never panics and adds its files in order, skipping the paths already present.
\<close>

theorem merge_inplace_refines:
  assumes "wf_files fs" "wf_files other"
  shows "\<exists>fs'. merge_inplace fs other = Inr fs' \<and> wf_files fs' \<and>
    abs_files fs' = foldl add_file (abs_files fs) (abs_files other)"
  using merge_inplace_wf [OF assms] by (metis abs_foldl_add assms(1))

lemma merge_inplace_refines_witness:
  "\<exists>fs'. merge_inplace (fs_single ''a'' 1 (PowdrrSchema [])) (fs_single ''b'' 2 (PowdrrSchema [])) =
      Inr fs' \<and> wf_files fs' \<and> map fd_path (abs_files fs') = [''a'', ''b'']"
  using merge_inplace_refines [OF wf_fs_single [of "''a''" 1 "PowdrrSchema []"]
      wf_fs_single [of "''b''" 2 "PowdrrSchema []"]]
  by (auto simp: add_file_def)

text \<open>
  C17. Removing paths from a payload removes exactly the files with these paths, keeps the others
  in order with their sizes and schemas, and never panics; the loop ends for every payload.
\<close>

theorem remove_refines:
  assumes "wf_files fs"
  shows "\<exists>fs'. fs_remove rm fs = Inr fs' \<and> wf_files fs' \<and>
    abs_files fs' = [fd \<leftarrow> abs_files fs. fd_path fd \<notin> set rm]"
  by (rule fs_remove_wf [OF assms]) blast

lemma remove_refines_witness:
  "\<exists>fs'. fs_remove [''b''] (fs_single ''b'' 2 (PowdrrSchema [])) = Inr fs' \<and> wf_files fs' \<and>
     abs_files fs' = []"
  using remove_refines [OF wf_fs_single [of "''b''" 2 "PowdrrSchema []"], of "[''b'']"] by simp

text \<open>
  C18. Sharding a file set over \<open>num\<close> nodes by the hash of the path gives every file to exactly
  one node, whatever the hash function.
\<close>

theorem shards_partition:
  assumes "wf_files fs" "num \<noteq> 0" "fd \<in> set (abs_files fs)"
  shows "\<exists>!index. index < num \<and>
    (\<exists>shard. as_selected_tuples hash index num fs = Inr shard \<and> fd \<in> set shard)"
proof -
  have "hash (fd_path fd) mod num < num"
    using assms(2) by (simp add: word_less_nat_alt unat_mod unat_gt_0)
  with assms show ?thesis by (auto simp: as_selected_tuples_wf)
qed

lemma shards_partition_witness:
  "\<exists>!index. index < (2 :: u64) \<and>
    (\<exists>shard. as_selected_tuples (\<lambda>_. 5) index 2 (fs_single ''b'' 2 (PowdrrSchema [])) = Inr shard \<and>
      \<lparr>fd_path = ''b'', fd_schema = PowdrrSchema [], fd_size = 2\<rparr> \<in> set shard)"
  by (rule shards_partition) simp_all

end
