(* ===== verification/Checkpoint.thy ===== *)
theory Checkpoint
  imports File_Set
begin

section \<open>Commits and checkpoints\<close>

text \<open>
  The commits a table receives and the checkpoint they produce
  (\<^verbatim>\<open>control_plane/src/data_contract.rs\<close>, \<^verbatim>\<open>checkpoint_descriptor.rs\<close>). A
  \<open>table_metadata_checkpoint\<close> names the Iceberg files, the speedboat (recent, not yet
  compacted) files, the delete files and, for each extension, the side files that exist for
  each of them. Every method that changes a checkpoint is a function on the record, in the
  order the source applies its effects.
\<close>

subsection \<open>Descriptors\<close>

record checkpoint_descriptor =
  cd_table_name :: string
  cd_checkpoint_id :: string
  cd_original_checkpoint_id :: "string option"

definition descriptor_new :: "string \<Rightarrow> string \<Rightarrow> checkpoint_descriptor" where
  "descriptor_new table_name checkpoint_id =
     \<lparr>cd_table_name = table_name, cd_checkpoint_id = checkpoint_id,
      cd_original_checkpoint_id = None\<rparr>"

definition from_full_name :: "string \<Rightarrow> checkpoint_descriptor res" where
  "from_full_name full_name =
     (case split_char CHR '':'' full_name of
        [t, c] \<Rightarrow>
          Inr \<lparr>cd_table_name = t, cd_checkpoint_id = c, cd_original_checkpoint_id = None\<rparr>
      | [t, orig, c] \<Rightarrow>
          Inr \<lparr>cd_table_name = t, cd_checkpoint_id = c, cd_original_checkpoint_id = Some orig\<rparr>
      | _ \<Rightarrow> Inl (Panic (''Invalid checkpoint descriptor: '' @ full_name)))"

definition full_checkpoint_id :: "checkpoint_descriptor \<Rightarrow> string" where
  "full_checkpoint_id d =
     (case cd_original_checkpoint_id d of
        Some orig \<Rightarrow> orig @ '':'' @ cd_checkpoint_id d
      | None \<Rightarrow> cd_checkpoint_id d)"

definition full_name :: "checkpoint_descriptor \<Rightarrow> string" where
  "full_name d =
     (case cd_original_checkpoint_id d of
        Some orig \<Rightarrow> cd_table_name d @ '':'' @ orig @ '':'' @ cd_checkpoint_id d
      | None \<Rightarrow> cd_table_name d @ '':'' @ cd_checkpoint_id d)"

subsection \<open>Speedboat commits\<close>

record speedboat_segment_file =
  seg_id :: string
  seg_file_path :: string
  seg_size :: u64

record speedboat_commit_table_info =
  ti_commit_type :: string
  ti_table_name :: string
  ti_segments :: "speedboat_segment_file list"
  ti_files :: "string list"
  ti_sizes :: "u64 list"
  ti_schema :: "powdrr_schema option"

record speedboat_commit =
  sc_type_files :: "speedboat_commit_table_info list"
  sc_compaction :: "string option"

text \<open>\<^verbatim>\<open>format!("\{:x\}")\<close> of a \<^verbatim>\<open>u64\<close>: lower-case hexadecimal without leading zeros.\<close>

definition hex_char :: "nat \<Rightarrow> char" where
  "hex_char d = (''0123456789abcdef'' ! d)"

fun hex_digits :: "nat \<Rightarrow> string" where
  "hex_digits n = (if n < 16 then [hex_char n] else hex_digits (n div 16) @ [hex_char (n mod 16)])"

declare hex_digits.simps [simp del]

definition synthetic_legacy_segment_id :: "(string \<Rightarrow> u64) \<Rightarrow> string \<Rightarrow> string" where
  "synthetic_legacy_segment_id hash file_path = ''legacy-'' @ hex_digits (unat (hash file_path))"

definition from_segments ::
    "string \<Rightarrow> string \<Rightarrow> speedboat_segment_file list \<Rightarrow> powdrr_schema option \<Rightarrow>
     speedboat_commit_table_info" where
  "from_segments commit_type table_name segments schema =
     \<lparr>ti_commit_type = commit_type, ti_table_name = table_name, ti_segments = segments,
      ti_files = map seg_file_path segments, ti_sizes = map seg_size segments,
      ti_schema = schema\<rparr>"

definition segment_files ::
    "(string \<Rightarrow> u64) \<Rightarrow> speedboat_commit_table_info \<Rightarrow> speedboat_segment_file list" where
  "segment_files hash ti =
     (if ti_segments ti \<noteq> [] then ti_segments ti
      else map (\<lambda>(path, sz). \<lparr>seg_id = synthetic_legacy_segment_id hash path,
                 seg_file_path = path, seg_size = sz\<rparr>)
             (zip (ti_files ti) (ti_sizes ti)))"

definition as_file_set_payload ::
    "(string \<Rightarrow> u64) \<Rightarrow> speedboat_commit_table_info \<Rightarrow> file_set_payload res" where
  "as_file_set_payload hash ti =
     (let segments = segment_files hash ti in
      rmap (\<lambda>schema.
          \<lparr>file_paths = map seg_file_path segments, schemas = [schema],
           file_schemas = map (\<lambda>_. 0) segments, sizes = map seg_size segments\<rparr>)
        (unwrap ''called `Option::unwrap()` on a `None` value'' (ti_schema ti)))"

subsection \<open>Iceberg metadata\<close>

record iceberg_column_stats =
  cs_field_id :: int
  cs_field_name :: string
  cs_null_count :: "u64 option"
  cs_lower_bound :: "json option"
  cs_upper_bound :: "json option"

record iceberg_partition_field =
  pf_source_field_id :: int
  pf_source_field_name :: string
  pf_field_id :: int
  pf_field_name :: string
  pf_transform :: string

record iceberg_partition_value =
  pv_source_field_name :: string
  pv_field_name :: string
  pv_transform :: string
  pv_value :: "json option"

record iceberg_sort_field =
  sf_source_field_id :: int
  sf_source_field_name :: string
  sf_transform :: string
  sf_descending :: bool
  sf_nulls_first :: bool

record iceberg_access_artifact =
  aa_name :: string
  aa_kind :: string
  aa_fields :: "string list"
  aa_exact :: bool
  aa_supports_eq :: bool
  aa_supports_range :: bool
  aa_supports_order :: bool

record iceberg_row_group_stats =
  rg_index :: nat
  rg_record_count :: "u64 option"
  rg_compressed_bytes :: u64
  rg_page_index_present :: bool
  rg_bloom_filter_present :: bool
  rg_columns :: "iceberg_column_stats list"

record iceberg_file_stats =
  st_file_path :: string
  st_record_count :: "u64 option"
  st_columns :: "iceberg_column_stats list"
  st_partition_values :: "iceberg_partition_value list"
  st_row_groups :: "iceberg_row_group_stats list"

record iceberg_metadata =
  im_table_schema :: powdrr_schema
  im_snapshot_id :: "string option"
  im_files :: file_set_payload
  im_partition_spec :: "iceberg_partition_field list"
  im_sort_order :: "iceberg_sort_field list"
  im_column_names :: "string list"
  im_column_stats :: "(string \<times> string) list"
  im_access_artifacts :: "iceberg_access_artifact list"
  im_file_stats :: "iceberg_file_stats list"

record iceberg_commit =
  ic_metadata :: iceberg_metadata
  ic_deletes_table_info :: "speedboat_commit_table_info option"
  ic_compactions :: "string list"

definition select_file_stats :: "string \<Rightarrow> iceberg_metadata \<Rightarrow> iceberg_file_stats list" where
  "select_file_stats file_name im = [st \<leftarrow> im_file_stats im. sublist file_name (st_file_path st)]"

subsection \<open>Extension and compaction commits\<close>

record extension_file =
  ef_suffix :: string
  ef_location :: string

type_synonym extension_file_metadata = "(string, extension_file list) hash_map"

definition checkpoint_extension_metadata_prefix :: string where
  "checkpoint_extension_metadata_prefix = ''__checkpoint__:''"

definition checkpoint_extension_metadata_key :: "string \<Rightarrow> string" where
  "checkpoint_extension_metadata_key checkpoint_id =
     checkpoint_extension_metadata_prefix @ checkpoint_id"

definition is_checkpoint_extension_metadata_key :: "string \<Rightarrow> bool" where
  "is_checkpoint_extension_metadata_key key = prefix checkpoint_extension_metadata_prefix key"

record extension_commit =
  ec_id :: string
  ec_extension :: string
  ec_files :: extension_file_metadata

record compaction_commit =
  cc_removed_speedboat_files :: "string list"
  cc_removed_delete_files :: "string list"
  cc_parquet_file_name :: string
  cc_compaction_id :: string
  cc_checkpoint_id_to_replace :: string
  cc_checkpoints_to_delete :: "string list"

record cleanup_commit =
  clc_id :: string
  clc_table_name :: string

type_synonym compactions_lookup = "(string, compaction_commit) hash_map"

subsection \<open>Checkpoints\<close>

record speedboat_metadata_t =
  sm_files :: file_set_payload

record deletes_metadata_t =
  dm_files :: "string list"

record table_metadata_checkpoint =
  tm_table_name :: string
  tm_original_checkpoint_id :: "string option"
  tm_checkpoint_id :: string
  iceberg_metadata :: "iceberg_metadata option"
  speedboat_metadata :: "speedboat_metadata_t option"
  deletes_metadata :: "deletes_metadata_t option"
  extension_metadata :: "(string, extension_file_metadata) hash_map"
  tm_schema :: powdrr_schema

definition checkpoint_new ::
    "string \<Rightarrow> string \<Rightarrow> powdrr_schema \<Rightarrow> table_metadata_checkpoint" where
  "checkpoint_new table_name checkpoint_id schema =
     \<lparr>tm_table_name = table_name, tm_original_checkpoint_id = None,
      tm_checkpoint_id = checkpoint_id, iceberg_metadata = None, speedboat_metadata = None,
      deletes_metadata = None, extension_metadata = fmempty, tm_schema = schema\<rparr>"

definition get_descriptor :: "table_metadata_checkpoint \<Rightarrow> checkpoint_descriptor" where
  "get_descriptor tm =
     \<lparr>cd_table_name = tm_table_name tm, cd_checkpoint_id = tm_checkpoint_id tm,
      cd_original_checkpoint_id = tm_original_checkpoint_id tm\<rparr>"

definition iceberg_paths :: "table_metadata_checkpoint \<Rightarrow> string list" where
  "iceberg_paths tm =
     (case iceberg_metadata tm of None \<Rightarrow> [] | Some im \<Rightarrow> file_paths (im_files im))"

definition speedboat_paths :: "table_metadata_checkpoint \<Rightarrow> string list" where
  "speedboat_paths tm =
     (case speedboat_metadata tm of None \<Rightarrow> [] | Some sm \<Rightarrow> file_paths (sm_files sm))"

definition delete_paths :: "table_metadata_checkpoint \<Rightarrow> string list" where
  "delete_paths tm = (case deletes_metadata tm of None \<Rightarrow> [] | Some dm \<Rightarrow> dm_files dm)"

definition current_file_paths :: "table_metadata_checkpoint \<Rightarrow> string fset" where
  "current_file_paths tm = fset_of_list (iceberg_paths tm) |\<union>| fset_of_list (speedboat_paths tm)"

definition retain_current_extension_metadata ::
    "table_metadata_checkpoint \<Rightarrow> table_metadata_checkpoint" where
  "retain_current_extension_metadata tm =
     (let current = current_file_paths tm;
          checkpoint_key = checkpoint_extension_metadata_key (tm_checkpoint_id tm) in
      tm\<lparr>extension_metadata :=
           fmmap (hm_retain (\<lambda>path _. path |\<in>| current \<or> path = checkpoint_key))
             (extension_metadata tm)\<rparr>)"

definition get_removed_files ::
    "string list \<Rightarrow> compactions_lookup \<Rightarrow> (string list \<times> string list) res" where
  "get_removed_files compactions lookup =
     rmap (\<lambda>data. (concat (map cc_removed_speedboat_files data),
                   concat (map cc_removed_delete_files data)))
       (mapm (\<lambda>x. unwrap ''called `Option::unwrap()` on a `None` value'' (fmlookup lookup x))
         compactions)"

text \<open>The body shared by the three ways a compaction is applied to a checkpoint.\<close>

definition remove_speedboat_files ::
    "string list \<Rightarrow> table_metadata_checkpoint \<Rightarrow> table_metadata_checkpoint res" where
  "remove_speedboat_files rm tm =
     (case speedboat_metadata tm of
        None \<Rightarrow> Inr tm
      | Some sm \<Rightarrow>
          rmap (\<lambda>fs. tm\<lparr>speedboat_metadata := Some (sm\<lparr>sm_files := fs\<rparr>)\<rparr>)
            (fs_remove rm (sm_files sm)))"

definition remove_delete_files ::
    "string list \<Rightarrow> table_metadata_checkpoint \<Rightarrow> table_metadata_checkpoint" where
  "remove_delete_files rm tm =
     (case deletes_metadata tm of
        None \<Rightarrow> tm
      | Some dm \<Rightarrow>
          tm\<lparr>deletes_metadata := Some (dm\<lparr>dm_files := [x \<leftarrow> dm_files dm. x \<notin> set rm]\<rparr>)\<rparr>)"

definition remove_extension_keys ::
    "string list \<Rightarrow> table_metadata_checkpoint \<Rightarrow> table_metadata_checkpoint" where
  "remove_extension_keys rm tm =
     tm\<lparr>extension_metadata :=
          fmmap (hm_retain (\<lambda>key _. key \<notin> set rm)) (extension_metadata tm)\<rparr>"

definition apply_compactions ::
    "string list \<Rightarrow> compactions_lookup \<Rightarrow> table_metadata_checkpoint \<Rightarrow>
     table_metadata_checkpoint res" where
  "apply_compactions compactions lookup tm =
     rbind (get_removed_files compactions lookup) (\<lambda>(removed_speedboat, removed_deletes).
     rmap (\<lambda>tm'. remove_extension_keys removed_speedboat (remove_delete_files removed_deletes tm'))
       (remove_speedboat_files removed_speedboat tm))"

definition extend_deletes ::
    "string list \<Rightarrow> table_metadata_checkpoint \<Rightarrow> table_metadata_checkpoint" where
  "extend_deletes files tm =
     (case deletes_metadata tm of
        None \<Rightarrow> tm\<lparr>deletes_metadata := Some \<lparr>dm_files = files\<rparr>\<rparr>
      | Some dm \<Rightarrow> tm\<lparr>deletes_metadata := Some (dm\<lparr>dm_files := dm_files dm @ files\<rparr>)\<rparr>)"

definition apply_speedboat_table_info ::
    "(string \<Rightarrow> u64) \<Rightarrow> table_metadata_checkpoint \<Rightarrow> speedboat_commit_table_info \<Rightarrow>
     table_metadata_checkpoint res" where
  "apply_speedboat_table_info hash tm ti =
     (if ti_commit_type ti = ''delete'' then Inr (extend_deletes (ti_files ti) tm)
      else if ti_commit_type ti = ''commit'' \<or> ti_commit_type ti = ''compaction'' then
        rbind (unwrap ''called `Option::unwrap()` on a `None` value'' (speedboat_metadata tm)) (\<lambda>sm.
        rbind (as_file_set_payload hash ti) (\<lambda>payload.
        rbind (merge_inplace (sm_files sm) payload) (\<lambda>fs.
          (let tm' = tm\<lparr>speedboat_metadata := Some (sm\<lparr>sm_files := fs\<rparr>)\<rparr> in
           case ti_schema ti of
             None \<Rightarrow> Inr tm'
           | Some schema \<Rightarrow>
               rmap (\<lambda>merged. tm'\<lparr>tm_schema := merged\<rparr>) (merge_from (tm_schema tm') schema)))))
      else Inl (Panic ''Unknown commit type''))"

definition apply_speedboat ::
    "(string \<Rightarrow> u64) \<Rightarrow> compactions_lookup \<Rightarrow> table_metadata_checkpoint \<Rightarrow> speedboat_commit \<Rightarrow>
     (table_metadata_checkpoint \<times> bool) res" where
  "apply_speedboat hash lookup tm commit =
     (let tm1 = (if speedboat_metadata tm = None
                 then tm\<lparr>speedboat_metadata := Some \<lparr>sm_files = fs_new\<rparr>\<rparr> else tm);
          tm2 = (if deletes_metadata tm1 = None
                 then tm1\<lparr>deletes_metadata := Some \<lparr>dm_files = []\<rparr>\<rparr> else tm1) in
      rbind (foldm (apply_speedboat_table_info hash) tm2 (sc_type_files commit)) (\<lambda>tm3.
      rmap (\<lambda>tm4. (tm4, True))
        (case sc_compaction commit of
           None \<Rightarrow> Inr tm3
         | Some compaction \<Rightarrow> apply_compactions [compaction] lookup tm3)))"

definition apply_iceberg ::
    "compactions_lookup \<Rightarrow> table_metadata_checkpoint \<Rightarrow> iceberg_commit \<Rightarrow>
     (table_metadata_checkpoint \<times> bool) res" where
  "apply_iceberg lookup tm commit =
     (let tm1 = tm\<lparr>iceberg_metadata := Some (ic_metadata commit)\<rparr>;
          tm2 = (case ic_deletes_table_info commit of
                   None \<Rightarrow> tm1
                 | Some info \<Rightarrow> extend_deletes (ti_files info) tm1) in
      rbind (merge_from (tm_schema tm2) (im_table_schema (ic_metadata commit))) (\<lambda>schema.
      rmap (\<lambda>tm3. (retain_current_extension_metadata tm3, True))
        (apply_compactions (ic_compactions commit) lookup (tm2\<lparr>tm_schema := schema\<rparr>))))"

text \<open>
  \<^verbatim>\<open>add_coverage\<close> copies, for each current file and for the checkpoint itself, the side files
  of the commit that are not already known, and reports whether anything was added.
\<close>

definition cover_path ::
    "extension_file_metadata \<Rightarrow> extension_file_metadata \<Rightarrow> string \<Rightarrow>
     extension_file_metadata \<times> bool \<Rightarrow> extension_file_metadata \<times> bool" where
  "cover_path files existing path acc =
     (case fmlookup files path of
        Some v \<Rightarrow> if hm_contains existing path then acc else (fmupd path v (fst acc), True)
      | None \<Rightarrow> acc)"

definition add_coverage ::
    "extension_commit \<Rightarrow> table_metadata_checkpoint \<Rightarrow> table_metadata_checkpoint \<times> bool" where
  "add_coverage commit tm =
     (let existing = hm_get_or fmempty (extension_metadata tm) (ec_extension commit);
          acc1 = fold (cover_path (ec_files commit) existing) (iceberg_paths tm) (existing, False);
          acc2 = fold (cover_path (ec_files commit) existing) (speedboat_paths tm) acc1;
          acc3 = cover_path (ec_files commit) existing
                   (checkpoint_extension_metadata_key (tm_checkpoint_id tm)) acc2 in
      (tm\<lparr>extension_metadata :=
            fmupd (ec_extension commit) (fst acc3) (extension_metadata tm)\<rparr>, snd acc3))"

definition validate_fully_covered_for_extension ::
    "string \<Rightarrow> table_metadata_checkpoint \<Rightarrow> bool" where
  "validate_fully_covered_for_extension extension_name tm =
     (let m = hm_get_or fmempty (extension_metadata tm) extension_name in
      list_all (\<lambda>path. hm_contains m path) (iceberg_paths tm) \<and>
      list_all (\<lambda>path. hm_contains m path) (speedboat_paths tm))"

definition fully_covered_for_extension ::
    "string \<Rightarrow> table_metadata_checkpoint \<Rightarrow> bool res" where
  "fully_covered_for_extension extension_name tm =
     (let current = current_file_paths tm;
          total_num_files = fcard current;
          total_num_extension_files =
            (case fmlookup (extension_metadata tm) extension_name of
               None \<Rightarrow> 0
             | Some x \<Rightarrow> fcard (ffilter (\<lambda>path. path |\<in>| current) (fmdom x)));
          size_check_method = (total_num_files = total_num_extension_files) in
      rbind (assert_that ''assertion `left == right` failed''
              (size_check_method = validate_fully_covered_for_extension extension_name tm))
        (\<lambda>_. Inr size_check_method))"

text \<open>One round of a loop \<^verbatim>\<open>changed = changed | checkpoint.apply(commit)\<close>.\<close>

definition or_changed ::
    "('s \<Rightarrow> 'c \<Rightarrow> ('s \<times> bool) res) \<Rightarrow> 's \<times> bool \<Rightarrow> 'c \<Rightarrow> ('s \<times> bool) res" where
  "or_changed f acc c = rmap (\<lambda>(s', b). (s', snd acc \<or> b)) (f (fst acc) c)"

definition clone_and_apply ::
    "(string \<Rightarrow> u64) \<Rightarrow> string \<Rightarrow> table_metadata_checkpoint \<Rightarrow> speedboat_commit list \<Rightarrow>
     iceberg_commit list \<Rightarrow> extension_commit list \<Rightarrow> compactions_lookup \<Rightarrow>
     (table_metadata_checkpoint \<times> bool) res" where
  "clone_and_apply hash next_id tm speedboat_commits iceberg_commits extension_commits lookup =
     (let tm1 = retain_current_extension_metadata (tm\<lparr>tm_checkpoint_id := next_id\<rparr>) in
      rbind (foldm (or_changed (apply_speedboat hash lookup)) (tm1, False) speedboat_commits) (\<lambda>acc2.
      rbind (foldm (or_changed (apply_iceberg lookup)) acc2 iceberg_commits) (\<lambda>acc3.
      foldm (or_changed (\<lambda>t c. Inr (add_coverage c t))) acc3 extension_commits)))"

definition apply_compaction_for_replacement ::
    "compaction_commit \<Rightarrow> iceberg_metadata \<Rightarrow> table_metadata_checkpoint \<Rightarrow>
     table_metadata_checkpoint res" where
  "apply_compaction_for_replacement compaction im tm =
     rbind (assert_that ''assertion failed: self.speedboat_metadata.is_some()''
              (speedboat_metadata tm \<noteq> None)) (\<lambda>_.
     rbind (remove_speedboat_files (cc_removed_speedboat_files compaction) tm) (\<lambda>tm1.
     (let tm2 = remove_delete_files (cc_removed_delete_files compaction) tm1 in
      rbind (fs_select (cc_parquet_file_name compaction) (im_files im)) (\<lambda>payload.
      (let stats = select_file_stats (cc_parquet_file_name compaction) im in
       rmap (\<lambda>im'. retain_current_extension_metadata (tm2\<lparr>iceberg_metadata := Some im'\<rparr>))
        (case iceberg_metadata tm2 of
           None \<Rightarrow>
             Inr \<lparr>im_table_schema = im_table_schema im, im_snapshot_id = None,
                  im_files = payload, im_partition_spec = im_partition_spec im,
                  im_sort_order = im_sort_order im, im_column_names = [], im_column_stats = [],
                  im_access_artifacts = im_access_artifacts im, im_file_stats = stats\<rparr>
         | Some md \<Rightarrow>
             rmap (\<lambda>fs. md\<lparr>im_files := fs,
                 im_partition_spec := (if im_partition_spec md = [] then im_partition_spec im
                                       else im_partition_spec md),
                 im_sort_order := (if im_sort_order md = [] then im_sort_order im
                                   else im_sort_order md),
                 im_access_artifacts := (if im_access_artifacts md = []
                                         then im_access_artifacts im
                                         else im_access_artifacts md),
                 im_file_stats :=
                   foldl (\<lambda>sts st. if st_file_path st \<in> st_file_path ` set sts then sts
                                   else sts @ [st]) (im_file_stats md) stats\<rparr>)
               (merge_inplace (im_files md) payload)))))))"

subsection \<open>Work items\<close>

record extension_work_item =
  ew_id :: string
  ew_extension_type :: string
  ew_table_name :: string
  ew_checkpoint_id :: "string option"
  ew_table_schema :: powdrr_schema
  ew_speedboat_files :: file_set_payload
  ew_iceberg_files :: file_set_payload

definition ew_clear :: "extension_work_item \<Rightarrow> extension_work_item" where
  "ew_clear w = w\<lparr>ew_speedboat_files := fs_clear (ew_speedboat_files w),
                  ew_iceberg_files := fs_clear (ew_iceberg_files w)\<rparr>"

definition has_work :: "extension_work_item \<Rightarrow> bool" where
  "has_work w = (fs_len (ew_speedboat_files w) > 0 \<or> fs_len (ew_iceberg_files w) > 0)"

definition merge_speedboat ::
    "(string \<Rightarrow> u64) \<Rightarrow> extension_work_item \<Rightarrow> speedboat_commit \<Rightarrow> extension_work_item res" where
  "merge_speedboat hash w commit =
     foldm (\<lambda>w ti.
         if ti_commit_type ti = ''commit'' \<or> ti_commit_type ti = ''compaction'' then
           rbind (as_file_set_payload hash ti) (\<lambda>payload.
           rmap (\<lambda>fs. w\<lparr>ew_speedboat_files := fs\<rparr>)
             (merge_inplace (ew_speedboat_files w) payload))
         else Inr w)
       w (sc_type_files commit)"

definition merge_iceberg ::
    "extension_work_item \<Rightarrow> iceberg_commit \<Rightarrow> extension_work_item res" where
  "merge_iceberg w commit =
     rmap (\<lambda>fs. w\<lparr>ew_iceberg_files := fs\<rparr>)
       (merge_inplace (ew_iceberg_files w) (im_files (ic_metadata commit)))"

record compaction_work_item =
  cw_id :: string
  cw_table_schema :: powdrr_schema
  cw_speedboat_files :: file_set_payload
  cw_delete_files :: "string list"
  cw_checkpoint_id_to_replace :: string
  cw_checkpoints_to_delete :: "string list"

record compaction_work_item_tracker =
  ct_in_progress :: bool
  ct_work_item :: compaction_work_item

definition from_checkpoint ::
    "string \<Rightarrow> table_metadata_checkpoint \<Rightarrow> string list \<Rightarrow> compaction_work_item res" where
  "from_checkpoint next_id checkpoint checkpoints_to_delete =
     rmap (\<lambda>sm.
         \<lparr>cw_id = next_id, cw_table_schema = tm_schema checkpoint,
          cw_speedboat_files = sm_files sm, cw_delete_files = delete_paths checkpoint,
          cw_checkpoint_id_to_replace = tm_checkpoint_id checkpoint,
          cw_checkpoints_to_delete = checkpoints_to_delete\<rparr>)
       (unwrap ''assertion failed: checkpoint.speedboat_metadata.is_some()''
         (speedboat_metadata checkpoint))"

record cleanup_work_item =
  cl_id :: string
  cl_table_name :: string
  cl_files_to_delete :: "string list"

subsection \<open>Coverage by an extension\<close>

lemma fset_current_file_paths [simp]:
  "fset (current_file_paths tm) = set (iceberg_paths tm) \<union> set (speedboat_paths tm)"
  by (simp add: current_file_paths_def fset_of_list.rep_eq)

lemma validate_iff:
  "validate_fully_covered_for_extension ext tm \<longleftrightarrow>
     fset (current_file_paths tm) \<subseteq> fmdom' (hm_get_or fmempty (extension_metadata tm) ext)"
  by (auto simp: validate_fully_covered_for_extension_def Let_def list_all_iff fmlookup_dom'_iff)

text \<open>The size comparison of the code decides the inclusion the check loop decides.\<close>

lemma fcard_filter_eq: "fcard A = fcard (ffilter (\<lambda>x. x |\<in>| A) B) \<longleftrightarrow> A |\<subseteq>| B"
proof
  assume card: "fcard A = fcard (ffilter (\<lambda>x. x |\<in>| A) B)"
  have "ffilter (\<lambda>x. x |\<in>| A) B |\<subseteq>| A" by auto
  then have "ffilter (\<lambda>x. x |\<in>| A) B = A"
    using card by (metis card_subset_eq fcard.rep_eq finite_fset fset_inject less_eq_fset.rep_eq)
  then show "A |\<subseteq>| B" by auto
next
  assume "A |\<subseteq>| B"
  then have "ffilter (\<lambda>x. x |\<in>| A) B = A" by auto
  then show "fcard A = fcard (ffilter (\<lambda>x. x |\<in>| A) B)" by simp
qed

lemma size_check_eq:
  "(fcard A = (case fmlookup M ext of None \<Rightarrow> 0
                | Some x \<Rightarrow> fcard (ffilter (\<lambda>path. path |\<in>| A) (fmdom x)))) \<longleftrightarrow>
   fset A \<subseteq> fmdom' (hm_get_or fmempty M ext)"
proof (cases "fmlookup M ext")
  case None
  then show ?thesis by (simp add: fcard.rep_eq)
next
  case (Some m)
  then show ?thesis by (simp add: fcard_filter_eq less_eq_fset.rep_eq fmdom'_alt_def)
qed

lemma fully_covered_eq:
  "fully_covered_for_extension ext tm =
     Inr (fset (current_file_paths tm) \<subseteq> fmdom' (hm_get_or fmempty (extension_metadata tm) ext))"
  by (simp add: fully_covered_for_extension_def Let_def size_check_eq validate_iff
      del: fset_current_file_paths)

lemma cover_path_lookup:
  "fmlookup (fst (cover_path files existing p acc)) q =
     (if q = p \<and> hm_contains files p \<and> \<not> hm_contains existing p then fmlookup files p
      else fmlookup (fst acc) q)"
  by (auto simp: cover_path_def split: option.split)

lemma cover_path_changed:
  "snd (cover_path files existing p acc) \<longleftrightarrow>
     snd acc \<or> (hm_contains files p \<and> \<not> hm_contains existing p)"
  by (auto simp: cover_path_def split: option.split)

lemma cover_paths_lookup:
  "fmlookup (fst (fold (cover_path files existing) ps acc)) q =
     (if q \<in> set ps \<and> hm_contains files q \<and> \<not> hm_contains existing q then fmlookup files q
      else fmlookup (fst acc) q)"
  by (induction ps arbitrary: acc) (auto simp: cover_path_lookup)

lemma cover_paths_changed:
  "snd (fold (cover_path files existing) ps acc) \<longleftrightarrow>
     snd acc \<or> (\<exists>p \<in> set ps. hm_contains files p \<and> \<not> hm_contains existing p)"
  by (induction ps arbitrary: acc) (auto simp: cover_path_changed)

text \<open>The paths a checkpoint can have side files for.\<close>

definition coverable :: "table_metadata_checkpoint \<Rightarrow> string set" where
  "coverable tm = insert (checkpoint_extension_metadata_key (tm_checkpoint_id tm))
     (set (iceberg_paths tm) \<union> set (speedboat_paths tm))"

abbreviation ext_lookup ::
    "table_metadata_checkpoint \<Rightarrow> string \<Rightarrow> string \<Rightarrow> extension_file list option" where
  "ext_lookup tm ext p \<equiv> fmlookup (hm_get_or fmempty (extension_metadata tm) ext) p"

lemma add_coverage_lookup:
  "ext_lookup (fst (add_coverage c tm)) (ec_extension c) p =
     (case ext_lookup tm (ec_extension c) p of
        Some v \<Rightarrow> Some v
      | None \<Rightarrow> if p \<in> coverable tm then fmlookup (ec_files c) p else None)"
  by (auto simp: add_coverage_def Let_def coverable_def cover_path_lookup cover_paths_lookup
      split: option.split)

lemma add_coverage_changed:
  "snd (add_coverage c tm) \<longleftrightarrow>
     (\<exists>p \<in> coverable tm. hm_contains (ec_files c) p \<and> ext_lookup tm (ec_extension c) p = None)"
  by (auto simp: add_coverage_def Let_def coverable_def cover_path_changed cover_paths_changed)

lemma add_coverage_frame [simp]:
  "tm_table_name (fst (add_coverage c tm)) = tm_table_name tm"
  "tm_original_checkpoint_id (fst (add_coverage c tm)) = tm_original_checkpoint_id tm"
  "tm_checkpoint_id (fst (add_coverage c tm)) = tm_checkpoint_id tm"
  "iceberg_metadata (fst (add_coverage c tm)) = iceberg_metadata tm"
  "speedboat_metadata (fst (add_coverage c tm)) = speedboat_metadata tm"
  "deletes_metadata (fst (add_coverage c tm)) = deletes_metadata tm"
  "tm_schema (fst (add_coverage c tm)) = tm_schema tm"
  by (simp_all add: add_coverage_def Let_def)

lemma add_coverage_other_extension:
  "ext \<noteq> ec_extension c \<Longrightarrow>
     fmlookup (extension_metadata (fst (add_coverage c tm))) ext = fmlookup (extension_metadata tm) ext"
  by (simp add: add_coverage_def Let_def)

lemma paths_eqI:
  "iceberg_metadata a = iceberg_metadata b \<Longrightarrow> iceberg_paths a = iceberg_paths b"
  "speedboat_metadata a = speedboat_metadata b \<Longrightarrow> speedboat_paths a = speedboat_paths b"
  by (simp_all add: iceberg_paths_def speedboat_paths_def)

lemma add_coverage_paths [simp]:
  "iceberg_paths (fst (add_coverage c tm)) = iceberg_paths tm"
  "speedboat_paths (fst (add_coverage c tm)) = speedboat_paths tm"
  "current_file_paths (fst (add_coverage c tm)) = current_file_paths tm"
  "coverable (fst (add_coverage c tm)) = coverable tm"
  by (simp_all add: iceberg_paths_def speedboat_paths_def current_file_paths_def coverable_def)

subsection \<open>The checkpoint invariant\<close>

text \<open>
  A checkpoint is well formed when its file sets are; its extension metadata is current when
  it speaks of the files the checkpoint names and of the checkpoint itself only.
\<close>

definition wf_checkpoint :: "table_metadata_checkpoint \<Rightarrow> bool" where
  "wf_checkpoint tm \<longleftrightarrow>
     (case iceberg_metadata tm of None \<Rightarrow> True | Some im \<Rightarrow> wf_files (im_files im)) \<and>
     (case speedboat_metadata tm of None \<Rightarrow> True | Some sm \<Rightarrow> wf_files (sm_files sm))"

definition extensions_current :: "table_metadata_checkpoint \<Rightarrow> bool" where
  "extensions_current tm \<longleftrightarrow>
     (\<forall>m \<in> fmran' (extension_metadata tm). fmdom' m \<subseteq> coverable tm)"

definition checkpoint_inv :: "string \<Rightarrow> string \<Rightarrow> table_metadata_checkpoint \<Rightarrow> bool" where
  "checkpoint_inv table_name checkpoint_id tm \<longleftrightarrow>
     wf_checkpoint tm \<and> extensions_current tm \<and>
     tm_table_name tm = table_name \<and> tm_checkpoint_id tm = checkpoint_id"

lemma extensions_currentI:
  "(\<And>ext m p v. fmlookup (extension_metadata tm) ext = Some m \<Longrightarrow> fmlookup m p = Some v \<Longrightarrow>
      p \<in> coverable tm) \<Longrightarrow> extensions_current tm"
  by (auto simp: extensions_current_def fmlookup_ran'_iff fmlookup_dom'_iff)

lemma extensions_currentD:
  "extensions_current tm \<Longrightarrow> fmlookup (extension_metadata tm) ext = Some m \<Longrightarrow>
     fmlookup m p = Some v \<Longrightarrow> p \<in> coverable tm"
  by (meson extensions_current_def fmdom'I fmran'I subsetD)

lemma extensions_current_mono:
  "extensions_current tm \<Longrightarrow> extension_metadata tm' = extension_metadata tm \<Longrightarrow>
     coverable tm \<subseteq> coverable tm' \<Longrightarrow> extensions_current tm'"
  by (auto simp: extensions_current_def)

lemma retain_frame [simp]:
  "tm_table_name (retain_current_extension_metadata tm) = tm_table_name tm"
  "tm_checkpoint_id (retain_current_extension_metadata tm) = tm_checkpoint_id tm"
  "iceberg_metadata (retain_current_extension_metadata tm) = iceberg_metadata tm"
  "speedboat_metadata (retain_current_extension_metadata tm) = speedboat_metadata tm"
  "deletes_metadata (retain_current_extension_metadata tm) = deletes_metadata tm"
  "tm_schema (retain_current_extension_metadata tm) = tm_schema tm"
  by (simp_all add: retain_current_extension_metadata_def Let_def)

lemma retain_paths [simp]:
  "iceberg_paths (retain_current_extension_metadata tm) = iceberg_paths tm"
  "speedboat_paths (retain_current_extension_metadata tm) = speedboat_paths tm"
  "coverable (retain_current_extension_metadata tm) = coverable tm"
  "wf_checkpoint (retain_current_extension_metadata tm) = wf_checkpoint tm"
  by (simp_all add: iceberg_paths_def speedboat_paths_def coverable_def wf_checkpoint_def)

lemma retain_lookup:
  "fmlookup (extension_metadata (retain_current_extension_metadata tm)) ext =
     map_option (hm_retain (\<lambda>p _. p \<in> coverable tm)) (fmlookup (extension_metadata tm) ext)"
  by (auto simp: retain_current_extension_metadata_def Let_def coverable_def disj_commute
      intro!: arg_cong2 [where f = map_option] arg_cong [where f = hm_retain])

lemma extensions_current_retain: "extensions_current (retain_current_extension_metadata tm)"
  by (rule extensions_currentI) (auto simp: retain_lookup split: option.splits if_splits)

text \<open>One lemma per operation.\<close>

lemma remove_speedboat_files_wf:
  assumes "wf_checkpoint tm"
  obtains tm' where "remove_speedboat_files rm tm = Inr tm'" "wf_checkpoint tm'"
    "speedboat_paths tm' = [p \<leftarrow> speedboat_paths tm. p \<notin> set rm]"
    "tm' = tm\<lparr>speedboat_metadata := speedboat_metadata tm'\<rparr>"
    "speedboat_metadata tm' = None \<longleftrightarrow> speedboat_metadata tm = None"
proof (cases "speedboat_metadata tm")
  case None
  then show thesis using assms
    by (intro that [of tm]) (simp_all add: remove_speedboat_files_def speedboat_paths_def)
next
  case (Some sm)
  with assms have "wf_files (sm_files sm)" by (simp add: wf_checkpoint_def)
  then obtain fs where fs: "fs_remove rm (sm_files sm) = Inr fs" "wf_files fs"
    "file_paths fs = [p \<leftarrow> file_paths (sm_files sm). p \<notin> set rm]" by (rule fs_remove_wf)
  show thesis
    by (rule that [of "tm\<lparr>speedboat_metadata := Some (sm\<lparr>sm_files := fs\<rparr>)\<rparr>"])
      (use Some fs assms in \<open>simp_all add: remove_speedboat_files_def speedboat_paths_def
        wf_checkpoint_def\<close>)
qed

lemma remove_delete_files_frame [simp]:
  "tm_table_name (remove_delete_files rm tm) = tm_table_name tm"
  "tm_checkpoint_id (remove_delete_files rm tm) = tm_checkpoint_id tm"
  "iceberg_metadata (remove_delete_files rm tm) = iceberg_metadata tm"
  "speedboat_metadata (remove_delete_files rm tm) = speedboat_metadata tm"
  "extension_metadata (remove_delete_files rm tm) = extension_metadata tm"
  "tm_schema (remove_delete_files rm tm) = tm_schema tm"
  "delete_paths (remove_delete_files rm tm) = [p \<leftarrow> delete_paths tm. p \<notin> set rm]"
  by (simp_all add: remove_delete_files_def delete_paths_def split: option.split)

lemma remove_extension_keys_frame [simp]:
  "tm_table_name (remove_extension_keys rm tm) = tm_table_name tm"
  "tm_checkpoint_id (remove_extension_keys rm tm) = tm_checkpoint_id tm"
  "iceberg_metadata (remove_extension_keys rm tm) = iceberg_metadata tm"
  "speedboat_metadata (remove_extension_keys rm tm) = speedboat_metadata tm"
  "deletes_metadata (remove_extension_keys rm tm) = deletes_metadata tm"
  "tm_schema (remove_extension_keys rm tm) = tm_schema tm"
  by (simp_all add: remove_extension_keys_def)

text \<open>The files a list of compactions removes, when all of them are known.\<close>

definition removed_speedboat :: "string list \<Rightarrow> compactions_lookup \<Rightarrow> string list" where
  "removed_speedboat cs lookup =
     concat (map (\<lambda>c. case fmlookup lookup c of None \<Rightarrow> [] | Some cc \<Rightarrow> cc_removed_speedboat_files cc) cs)"

definition removed_deletes :: "string list \<Rightarrow> compactions_lookup \<Rightarrow> string list" where
  "removed_deletes cs lookup =
     concat (map (\<lambda>c. case fmlookup lookup c of None \<Rightarrow> [] | Some cc \<Rightarrow> cc_removed_delete_files cc) cs)"

lemma get_removed_files_known:
  assumes "set cs \<subseteq> fmdom' lookup"
  shows "get_removed_files cs lookup = Inr (removed_speedboat cs lookup, removed_deletes cs lookup)"
proof -
  have "mapm (\<lambda>x. unwrap msg (fmlookup lookup x)) cs = Inr (map (\<lambda>x. the (fmlookup lookup x)) cs)" for msg
    using assms by (intro mapm_total) (auto simp: fmlookup_dom'_iff dest!: subsetD)
  moreover have "(case fmlookup lookup c of None \<Rightarrow> [] | Some cc \<Rightarrow> g cc) = g (the (fmlookup lookup c))"
    if "c \<in> set cs" for c and g :: "compaction_commit \<Rightarrow> string list"
    using assms that by (auto simp: fmlookup_dom'_iff dest!: subsetD)
  ultimately show ?thesis
    by (simp add: get_removed_files_def removed_speedboat_def removed_deletes_def comp_def
        cong: map_cong)
qed

lemma get_removed_files_unknown:
  assumes "\<not> set cs \<subseteq> fmdom' lookup"
  shows "\<exists>msg. get_removed_files cs lookup = Inl (Panic msg)"
proof -
  have "\<exists>msg. mapm (\<lambda>x. unwrap m (fmlookup lookup x)) cs = Inl (Panic msg)" for m
    using assms
  proof (induction cs)
    case (Cons c cs)
    show ?case
    proof (cases "fmlookup lookup c")
      case (Some x)
      with Cons.prems have "\<not> set cs \<subseteq> fmdom' lookup" by (auto simp: fmlookup_dom'_iff)
      with Cons.IH Some show ?thesis by auto
    qed simp
  qed simp
  then show ?thesis by (auto simp: get_removed_files_def) (metis rmap_simps(1))
qed

lemma apply_compactions_wf:
  assumes "wf_checkpoint tm" "set cs \<subseteq> fmdom' lookup"
  obtains tm' where "apply_compactions cs lookup tm = Inr tm'" "wf_checkpoint tm'"
    "speedboat_paths tm' = [p \<leftarrow> speedboat_paths tm. p \<notin> set (removed_speedboat cs lookup)]"
    "delete_paths tm' = [p \<leftarrow> delete_paths tm. p \<notin> set (removed_deletes cs lookup)]"
    "iceberg_metadata tm' = iceberg_metadata tm" "tm_schema tm' = tm_schema tm"
    "tm_table_name tm' = tm_table_name tm" "tm_checkpoint_id tm' = tm_checkpoint_id tm"
    "extension_metadata tm' =
       fmmap (hm_retain (\<lambda>key _. key \<notin> set (removed_speedboat cs lookup))) (extension_metadata tm)"
proof -
  from assms(1) obtain t where t: "remove_speedboat_files (removed_speedboat cs lookup) tm = Inr t"
    "wf_checkpoint t"
    "speedboat_paths t = [p \<leftarrow> speedboat_paths tm. p \<notin> set (removed_speedboat cs lookup)]"
    "t = tm\<lparr>speedboat_metadata := speedboat_metadata t\<rparr>"
    by (rule remove_speedboat_files_wf)
  let ?t = "remove_extension_keys (removed_speedboat cs lookup)
              (remove_delete_files (removed_deletes cs lookup) t)"
  have frame: "iceberg_metadata t = iceberg_metadata tm" "deletes_metadata t = deletes_metadata tm"
    "extension_metadata t = extension_metadata tm" "tm_schema t = tm_schema tm"
    "tm_table_name t = tm_table_name tm" "tm_checkpoint_id t = tm_checkpoint_id tm"
    by (subst t(4), simp)+
  show thesis
  proof (rule that [of ?t])
    show "apply_compactions cs lookup tm = Inr ?t"
      by (simp add: apply_compactions_def get_removed_files_known [OF assms(2)] t(1))
    show "wf_checkpoint ?t" using t(2) by (simp add: wf_checkpoint_def)
    show "speedboat_paths ?t = [p \<leftarrow> speedboat_paths tm. p \<notin> set (removed_speedboat cs lookup)]"
      using t(3) by (simp add: speedboat_paths_def)
    have del: "delete_paths t = delete_paths tm" using frame(2) by (simp add: delete_paths_def)
    have "delete_paths ?t = delete_paths (remove_delete_files (removed_deletes cs lookup) t)"
      by (simp add: delete_paths_def)
    also have "\<dots> = [p \<leftarrow> delete_paths tm. p \<notin> set (removed_deletes cs lookup)]"
      by (simp add: del)
    finally show "delete_paths ?t = \<dots>" .
    show "extension_metadata ?t =
       fmmap (hm_retain (\<lambda>key _. key \<notin> set (removed_speedboat cs lookup))) (extension_metadata tm)"
      by (simp add: remove_extension_keys_def frame)
  qed (simp_all add: frame)
qed

lemma apply_compactions_known:
  assumes "apply_compactions cs lookup tm = Inr tm'"
  shows "set cs \<subseteq> fmdom' lookup"
proof (rule ccontr)
  assume "\<not> ?thesis"
  then obtain msg where "get_removed_files cs lookup = Inl (Panic msg)"
    using get_removed_files_unknown by blast
  with assms show False by (simp add: apply_compactions_def)
qed

lemma apply_compactions_extensions_current:
  assumes "apply_compactions cs lookup tm = Inr tm'" "wf_checkpoint tm" "extensions_current tm"
  shows "extensions_current tm'"
proof (rule extensions_currentI)
  from assms(2) apply_compactions_known [OF assms(1)] obtain t where t:
    "apply_compactions cs lookup tm = Inr t"
    "speedboat_paths t = [p \<leftarrow> speedboat_paths tm. p \<notin> set (removed_speedboat cs lookup)]"
    "iceberg_metadata t = iceberg_metadata tm" "tm_checkpoint_id t = tm_checkpoint_id tm"
    "extension_metadata t =
       fmmap (hm_retain (\<lambda>key _. key \<notin> set (removed_speedboat cs lookup))) (extension_metadata tm)"
    by (rule apply_compactions_wf)
  fix ext m p v
  assume look: "fmlookup (extension_metadata tm') ext = Some m" "fmlookup m p = Some v"
  from t(1) assms(1) have [simp]: "tm' = t" by simp
  from look t(5) obtain m0 where m0: "fmlookup (extension_metadata tm) ext = Some m0"
    "fmlookup m0 p = Some v" "p \<notin> set (removed_speedboat cs lookup)"
    by (auto split: option.splits if_splits)
  from extensions_currentD [OF assms(3) m0(1,2)] m0(3) show "p \<in> coverable tm'"
    using t(2,4) paths_eqI(1) [OF t(3)] by (auto simp: coverable_def)
qed

lemma extend_deletes_frame [simp]:
  "tm_table_name (extend_deletes files tm) = tm_table_name tm"
  "tm_checkpoint_id (extend_deletes files tm) = tm_checkpoint_id tm"
  "iceberg_metadata (extend_deletes files tm) = iceberg_metadata tm"
  "speedboat_metadata (extend_deletes files tm) = speedboat_metadata tm"
  "extension_metadata (extend_deletes files tm) = extension_metadata tm"
  "tm_schema (extend_deletes files tm) = tm_schema tm"
  "delete_paths (extend_deletes files tm) = delete_paths tm @ files"
  by (simp_all add: extend_deletes_def delete_paths_def split: option.split)

lemma checkpoint_inv_cong:
  "iceberg_metadata a = iceberg_metadata b \<Longrightarrow> speedboat_metadata a = speedboat_metadata b \<Longrightarrow>
   extension_metadata a = extension_metadata b \<Longrightarrow> tm_table_name a = tm_table_name b \<Longrightarrow>
   tm_checkpoint_id a = tm_checkpoint_id b \<Longrightarrow>
   checkpoint_inv n i a = checkpoint_inv n i b"
  by (simp add: checkpoint_inv_def wf_checkpoint_def extensions_current_def coverable_def
      iceberg_paths_def speedboat_paths_def)

lemma merge_inplace_result:
  assumes "merge_inplace fs other = Inr fs'" "wf_files fs"
  shows "wf_files fs'" "set (file_paths fs) \<subseteq> set (file_paths fs')"
proof -
  from assms(1) obtain fds where fs': "fs' = foldl fs_add fs fds"
    by (auto simp: merge_inplace_def res_Inr)
  then show wf: "wf_files fs'" using fset.invar_adds [OF assms(2)] by simp
  show "set (file_paths fs) \<subseteq> set (file_paths fs')"
    using fset.paths_adds [OF assms(2), of fds] fs' abs_files_path_set [OF wf]
      abs_files_path_set [OF assms(2)] by auto
qed

lemma apply_speedboat_table_info_inv:
  assumes "apply_speedboat_table_info hash tm ti = Inr tm'" "checkpoint_inv n i tm"
  shows "checkpoint_inv n i tm'"
proof (cases "ti_commit_type ti = ''delete''")
  case True
  with assms show ?thesis
    by (simp add: apply_speedboat_table_info_def) (metis checkpoint_inv_cong extend_deletes_frame)
next
  case False
  with assms(1) obtain sm payload fs where run:
    "speedboat_metadata tm = Some sm" "merge_inplace (sm_files sm) payload = Inr fs"
    "iceberg_metadata tm' = iceberg_metadata tm"
    "speedboat_metadata tm' = Some (sm\<lparr>sm_files := fs\<rparr>)"
    "extension_metadata tm' = extension_metadata tm" "tm_table_name tm' = tm_table_name tm"
    "tm_checkpoint_id tm' = tm_checkpoint_id tm"
    by (auto simp: apply_speedboat_table_info_def res_Inr Let_def split: if_splits option.splits)
  from assms(2) run(1) have "wf_files (sm_files sm)"
    by (simp add: checkpoint_inv_def wf_checkpoint_def)
  note fs = merge_inplace_result [OF run(2) this]
  have "coverable tm \<subseteq> coverable tm'"
    using fs(2) run by (auto simp: coverable_def iceberg_paths_def speedboat_paths_def)
  with assms(2) fs(1) run show ?thesis
    by (auto simp: checkpoint_inv_def wf_checkpoint_def intro: extensions_current_mono)
qed

lemma apply_compactions_inv:
  assumes "apply_compactions cs lookup tm = Inr tm'" "checkpoint_inv n i tm"
  shows "checkpoint_inv n i tm'"
proof -
  from assms(2) have wf: "wf_checkpoint tm" by (simp add: checkpoint_inv_def)
  from wf apply_compactions_known [OF assms(1)] obtain t where
    "apply_compactions cs lookup tm = Inr t" "wf_checkpoint t"
    "tm_table_name t = tm_table_name tm" "tm_checkpoint_id t = tm_checkpoint_id tm"
    by (rule apply_compactions_wf)
  with assms apply_compactions_extensions_current [OF assms(1) wf] show ?thesis
    by (simp add: checkpoint_inv_def)
qed

lemma apply_speedboat_inv:
  assumes run: "apply_speedboat hash lookup tm c = Inr (tm', b)" and inv: "checkpoint_inv n i tm"
  shows "checkpoint_inv n i tm'"
proof -
  define tm1 where "tm1 = (if speedboat_metadata tm = None
                 then tm\<lparr>speedboat_metadata := Some \<lparr>sm_files = fs_new\<rparr>\<rparr> else tm)"
  define tm2 where "tm2 = (if deletes_metadata tm1 = None
                 then tm1\<lparr>deletes_metadata := Some \<lparr>dm_files = []\<rparr>\<rparr> else tm1)"
  from run obtain tm3 where tm3: "foldm (apply_speedboat_table_info hash) tm2 (sc_type_files c) = Inr tm3"
    "(case sc_compaction c of None \<Rightarrow> Inr tm3 | Some x \<Rightarrow> apply_compactions [x] lookup tm3) = Inr tm'"
    by (auto simp: apply_speedboat_def Let_def res_Inr tm1_def [symmetric] tm2_def [symmetric])
  have "coverable tm1 = coverable tm" "iceberg_metadata tm1 = iceberg_metadata tm"
    "extension_metadata tm1 = extension_metadata tm" "tm_table_name tm1 = tm_table_name tm"
    "tm_checkpoint_id tm1 = tm_checkpoint_id tm"
    by (simp_all add: tm1_def coverable_def iceberg_paths_def speedboat_paths_def fs_new_def)
  moreover have "speedboat_metadata tm1 =
      (if speedboat_metadata tm = None then Some \<lparr>sm_files = fs_new\<rparr> else speedboat_metadata tm)"
    by (simp add: tm1_def)
  ultimately have "checkpoint_inv n i tm1"
    using inv by (simp add: checkpoint_inv_def wf_checkpoint_def extensions_current_def)
  then have "checkpoint_inv n i tm2"
    unfolding tm2_def by (auto elim!: checkpoint_inv_cong [THEN iffD1, rotated -1])
  with tm3(1) have "checkpoint_inv n i tm3"
    by (rule foldm_invariant) (rule apply_speedboat_table_info_inv)
  with tm3(2) show ?thesis by (auto intro: apply_compactions_inv split: option.splits)
qed

lemma apply_iceberg_inv:
  assumes run: "apply_iceberg lookup tm c = Inr (tm', b)" and inv: "checkpoint_inv n i tm"
    and wf: "wf_files (im_files (ic_metadata c))"
  shows "checkpoint_inv n i tm'"
proof -
  from run obtain tm2 schema tm3 where t:
    "apply_compactions (ic_compactions c) lookup (tm2\<lparr>tm_schema := schema\<rparr>) = Inr tm3"
    "tm' = retain_current_extension_metadata tm3"
    "iceberg_metadata tm2 = Some (ic_metadata c)" "speedboat_metadata tm2 = speedboat_metadata tm"
    "tm_table_name tm2 = tm_table_name tm" "tm_checkpoint_id tm2 = tm_checkpoint_id tm"
    by (fastforce simp: apply_iceberg_def Let_def res_Inr split: option.splits)
  have "wf_checkpoint (tm2\<lparr>tm_schema := schema\<rparr>)"
    using inv wf t by (simp add: checkpoint_inv_def wf_checkpoint_def)
  from this apply_compactions_known [OF t(1)] obtain t' where
    "apply_compactions (ic_compactions c) lookup (tm2\<lparr>tm_schema := schema\<rparr>) = Inr t'"
    "wf_checkpoint t'" "tm_table_name t' = tm_table_name tm2"
    "tm_checkpoint_id t' = tm_checkpoint_id tm2"
    by (rule apply_compactions_wf) simp
  with t inv show ?thesis by (simp add: checkpoint_inv_def extensions_current_retain)
qed

lemma add_coverage_inv:
  assumes "checkpoint_inv n i tm"
  shows "checkpoint_inv n i (fst (add_coverage c tm))"
proof -
  have "extensions_current (fst (add_coverage c tm))"
  proof (rule extensions_currentI)
    fix ext m p v
    assume look: "fmlookup (extension_metadata (fst (add_coverage c tm))) ext = Some m"
      "fmlookup m p = Some v"
    show "p \<in> coverable (fst (add_coverage c tm))"
    proof (cases "ext = ec_extension c")
      case True
      with look add_coverage_lookup [of c tm p]
      have "ext_lookup tm ext p \<noteq> None \<or> p \<in> coverable tm"
        by (auto split: option.splits if_splits)
      with assms show ?thesis
        by (auto simp: checkpoint_inv_def hm_get_or_def split: option.splits
            dest: extensions_currentD)
    next
      case False
      with look assms show ?thesis
        by (auto simp: add_coverage_other_extension checkpoint_inv_def dest: extensions_currentD)
    qed
  qed
  with assms show ?thesis by (simp add: checkpoint_inv_def wf_checkpoint_def)
qed

text \<open>Small concrete checkpoints, for the examples that follow the theorems.\<close>

definition sample_files :: "string list \<Rightarrow> file_set_payload" where
  "sample_files ps = \<lparr>file_paths = ps, schemas = [PowdrrSchema []],
     file_schemas = map (\<lambda>_. 0) ps, sizes = map (\<lambda>_. 1) ps\<rparr>"

definition sample_iceberg :: "string list \<Rightarrow> iceberg_metadata" where
  "sample_iceberg ps =
     \<lparr>im_table_schema = PowdrrSchema [], im_snapshot_id = None, im_files = sample_files ps,
      im_partition_spec = [], im_sort_order = [], im_column_names = [], im_column_stats = [],
      im_access_artifacts = [], im_file_stats = []\<rparr>"

definition sample_checkpoint :: "string list \<Rightarrow> string list \<Rightarrow> string list \<Rightarrow> table_metadata_checkpoint" where
  "sample_checkpoint ice boat dels =
     \<lparr>tm_table_name = ''t'', tm_original_checkpoint_id = None, tm_checkpoint_id = ''c1'',
      iceberg_metadata = Some (sample_iceberg ice),
      speedboat_metadata = Some \<lparr>sm_files = sample_files boat\<rparr>,
      deletes_metadata = Some \<lparr>dm_files = dels\<rparr>, extension_metadata = fmempty,
      tm_schema = PowdrrSchema []\<rparr>"

definition sample_compaction :: "string list \<Rightarrow> string list \<Rightarrow> string \<Rightarrow> compaction_commit" where
  "sample_compaction boat dels parquet =
     \<lparr>cc_removed_speedboat_files = boat, cc_removed_delete_files = dels,
      cc_parquet_file_name = parquet, cc_compaction_id = ''k'',
      cc_checkpoint_id_to_replace = ''c1'', cc_checkpoints_to_delete = []\<rparr>"

lemmas sample_defs = sample_files_def sample_iceberg_def sample_checkpoint_def sample_compaction_def

subsection \<open>Loops over commits\<close>

lemma or_changed_Inr:
  "or_changed f (s, ch) c = Inr r \<longleftrightarrow> (\<exists>t b. f s c = Inr (t, b) \<and> r = (t, ch \<or> b))"
  by (auto simp: or_changed_def rmap_eq_Inr)

lemma foldm_or_changed_Cons:
  "foldm (or_changed f) (s, ch) (c # cs) = Inr r \<longleftrightarrow>
     (\<exists>t b. f s c = Inr (t, b) \<and> foldm (or_changed f) (t, ch \<or> b) cs = Inr r)"
  by (auto simp: rbind_eq_Inr or_changed_Inr)

lemma foldm_or_changed_mono: "foldm (or_changed f) (s, True) cs = Inr (s', ch') \<Longrightarrow> ch'"
  by (induction cs arbitrary: s) (auto simp del: foldm.simps(2) simp: foldm_or_changed_Cons)

lemma foldm_or_changed_False:
  "foldm (or_changed f) (s, ch) cs = Inr (s', False) \<Longrightarrow> \<not> ch"
  by (cases ch) (auto dest: foldm_or_changed_mono)

text \<open>
  The three loops of \<^verbatim>\<open>clone_and_apply\<close> share one contract: a step keeps an invariant, and
  reports a change or leaves everything a reader sees untouched.
\<close>

locale commit_loop =
  fixes step :: "'s \<Rightarrow> 'c \<Rightarrow> ('s \<times> bool) res"
    and inv :: "'s \<Rightarrow> bool"
    and ok :: "'c \<Rightarrow> bool"
    and view :: "'s \<Rightarrow> 'v"
  assumes step_inv: "inv s \<Longrightarrow> ok c \<Longrightarrow> step s c = Inr (s', b) \<Longrightarrow> inv s'"
    and step_unchanged: "inv s \<Longrightarrow> ok c \<Longrightarrow> step s c = Inr (s', False) \<Longrightarrow> view s' = view s"
begin

lemma loop_inv:
  "foldm (or_changed step) (s, ch) cs = Inr (s', ch') \<Longrightarrow> inv s \<Longrightarrow> list_all ok cs \<Longrightarrow> inv s'"
proof (induction cs arbitrary: s ch)
  case (Cons c cs)
  then obtain t b where "step s c = Inr (t, b)" "foldm (or_changed step) (t, ch \<or> b) cs = Inr (s', ch')"
    by (auto simp del: foldm.simps(2) simp: foldm_or_changed_Cons)
  with Cons show ?case by (auto intro: step_inv)
qed simp

lemma loop_unchanged:
  "foldm (or_changed step) (s, ch) cs = Inr (s', False) \<Longrightarrow> inv s \<Longrightarrow> list_all ok cs \<Longrightarrow>
     view s' = view s"
proof (induction cs arbitrary: s ch)
  case (Cons c cs)
  then obtain t b where t: "step s c = Inr (t, b)"
    "foldm (or_changed step) (t, ch \<or> b) cs = Inr (s', False)"
    by (auto simp del: foldm.simps(2) simp: foldm_or_changed_Cons)
  then have "\<not> b" by (auto dest: foldm_or_changed_False)
  with Cons t show ?case by (metis list.pred_inject(2) step_inv step_unchanged)
qed simp

end

text \<open>What a reader sees of a checkpoint, with the empty and the missing map identified.\<close>

definition checkpoint_view ::
    "table_metadata_checkpoint \<Rightarrow>
     iceberg_metadata option \<times> speedboat_metadata_t option \<times> string list \<times> powdrr_schema \<times>
     (string \<Rightarrow> string \<Rightarrow> extension_file list option)" where
  "checkpoint_view tm =
     (iceberg_metadata tm, speedboat_metadata tm, delete_paths tm, tm_schema tm,
      \<lambda>ext p. ext_lookup tm ext p)"

lemma add_coverage_unchanged:
  assumes "\<not> snd (add_coverage c tm)"
  shows "checkpoint_view (fst (add_coverage c tm)) = checkpoint_view tm"
proof -
  have "ext_lookup (fst (add_coverage c tm)) ext p = ext_lookup tm ext p" for ext p
  proof (cases "ext = ec_extension c")
    case True
    have "p \<in> coverable tm \<Longrightarrow> ext_lookup tm (ec_extension c) p = None \<Longrightarrow> fmlookup (ec_files c) p = None"
      using assms unfolding add_coverage_changed by blast
    with True show ?thesis by (auto simp: add_coverage_lookup split: option.split)
  next
    case False
    then show ?thesis by (simp add: hm_get_or_def add_coverage_other_extension)
  qed
  then show ?thesis by (simp add: checkpoint_view_def delete_paths_def)
qed

lemma apply_speedboat_changed: "apply_speedboat hash lookup tm c = Inr (tm', b) \<Longrightarrow> b"
  by (auto simp: apply_speedboat_def Let_def res_Inr)

lemma apply_iceberg_changed: "apply_iceberg lookup tm c = Inr (tm', b) \<Longrightarrow> b"
  by (auto simp: apply_iceberg_def Let_def res_Inr)

interpretation speedboat_loop:
  commit_loop "apply_speedboat hash lookup" "checkpoint_inv n i" "\<lambda>_. True" checkpoint_view
  for hash lookup n i
  by unfold_locales (auto intro: apply_speedboat_inv dest: apply_speedboat_changed)

interpretation iceberg_loop:
  commit_loop "apply_iceberg lookup" "checkpoint_inv n i"
    "\<lambda>c. wf_files (im_files (ic_metadata c))" checkpoint_view
  for lookup n i
  by unfold_locales (auto intro: apply_iceberg_inv dest: apply_iceberg_changed)

interpretation extension_loop:
  commit_loop "\<lambda>t c. Inr (add_coverage c t)" "checkpoint_inv n i" "\<lambda>_. True" checkpoint_view
  for n i
proof unfold_locales
  fix s c s' b
  assume "checkpoint_inv n i s" "Inr (add_coverage c s) = Inr (s', b)"
  then show "checkpoint_inv n i s'" using add_coverage_inv [of n i s c] by simp
next
  fix s c s'
  assume "Inr (add_coverage c s) = Inr (s', False)"
  then show "checkpoint_view s' = checkpoint_view s" using add_coverage_unchanged [of c s] by simp
qed

lemma retain_start_inv:
  "wf_checkpoint tm \<Longrightarrow>
     checkpoint_inv (tm_table_name tm) i (retain_current_extension_metadata (tm\<lparr>tm_checkpoint_id := i\<rparr>))"
  by (simp add: checkpoint_inv_def extensions_current_retain) (simp add: wf_checkpoint_def)

lemma clone_and_apply_runs:
  assumes "clone_and_apply hash i tm sbs ics ecs lookup = Inr (tm', changed)"
  obtains t2 b2 t3 b3 where
    "foldm (or_changed (apply_speedboat hash lookup))
       (retain_current_extension_metadata (tm\<lparr>tm_checkpoint_id := i\<rparr>), False) sbs = Inr (t2, b2)"
    "foldm (or_changed (apply_iceberg lookup)) (t2, b2) ics = Inr (t3, b3)"
    "foldm (or_changed (\<lambda>t c. Inr (add_coverage c t))) (t3, b3) ecs = Inr (tm', changed)"
  using assms by (auto simp: clone_and_apply_def Let_def res_Inr)



text \<open>
  When \<^verbatim>\<open>clone_and_apply\<close> reports no change there was no speedboat and no Iceberg commit,
  and the new checkpoint shows its readers what the old one shows once side files of files that
  are gone are dropped: the same files, deletes, schema and side files.
\<close>

lemma clone_and_apply_unchanged:
  assumes run: "clone_and_apply hash i tm sbs ics ecs lookup = Inr (tm', False)"
    and wf: "wf_checkpoint tm"
  shows "sbs = [] \<and> ics = [] \<and>
    checkpoint_view tm' =
      checkpoint_view (retain_current_extension_metadata (tm\<lparr>tm_checkpoint_id := i\<rparr>))"
proof -
  from run obtain t2 b2 t3 b3 where loops:
    "foldm (or_changed (apply_speedboat hash lookup))
       (retain_current_extension_metadata (tm\<lparr>tm_checkpoint_id := i\<rparr>), False) sbs = Inr (t2, b2)"
    "foldm (or_changed (apply_iceberg lookup)) (t2, b2) ics = Inr (t3, b3)"
    "foldm (or_changed (\<lambda>t c. Inr (add_coverage c t))) (t3, b3) ecs = Inr (tm', False)"
    by (rule clone_and_apply_runs)
  have b3: "\<not> b3" by (rule foldm_or_changed_False [OF loops(3)])
  with loops(2) have b2: "\<not> b2" by (auto dest: foldm_or_changed_False)
  have ics: "ics = []"
    using loops(2) b3 by (cases ics) (auto simp del: foldm.simps(2)
        simp: foldm_or_changed_Cons dest!: apply_iceberg_changed foldm_or_changed_False)
  have sbs: "sbs = []"
    using loops(1) b2 by (cases sbs) (auto simp del: foldm.simps(2)
        simp: foldm_or_changed_Cons dest!: apply_speedboat_changed foldm_or_changed_False)
  have "checkpoint_view tm' = checkpoint_view t3"
    using extension_loop.loop_unchanged [OF loops(3), of "tm_table_name tm" i] loops(1,2) sbs ics
      retain_start_inv [OF wf, of i] by (simp add: list_all_iff)
  with sbs ics loops show ?thesis by simp
qed

lemma clone_and_apply_unchanged_witness:
  "\<exists>tm'. clone_and_apply (\<lambda>_. 0) ''c2'' (sample_checkpoint [''a''] [''b''] []) [] []
      [\<lparr>ec_id = ''e'', ec_extension = ''es'', ec_files = fmupd ''z'' [] fmempty\<rparr>] fmempty =
      Inr (tm', False) \<and>
    checkpoint_view tm' = checkpoint_view (retain_current_extension_metadata
      (sample_checkpoint [''a''] [''b''] []\<lparr>tm_checkpoint_id := ''c2''\<rparr>))"
  (is "\<exists>tm'. ?run = Inr (tm', False) \<and> _")
proof -
  have "\<exists>tm'. ?run = Inr (tm', False)"
    by (simp add: clone_and_apply_def or_changed_def add_coverage_def cover_path_def Let_def
        sample_defs iceberg_paths_def speedboat_paths_def checkpoint_extension_metadata_key_def
        checkpoint_extension_metadata_prefix_def)
  then obtain tm' where run: "?run = Inr (tm', False)" by blast
  from clone_and_apply_unchanged [OF run] run show ?thesis
    by (simp add: wf_checkpoint_def wf_files_def sample_defs)
qed

subsection \<open>Compaction\<close>

text \<open>
  C11. The coverage test never trips its own assertion: on every checkpoint it returns whether
  each current file has side files of the extension.
\<close>

theorem fully_covered_for_extension_correct:
  "fully_covered_for_extension ext tm =
     Inr (fset (current_file_paths tm) \<subseteq> fmdom' (hm_get_or fmempty (extension_metadata tm) ext))"
  by (rule fully_covered_eq)

text \<open>
  C12. \<^verbatim>\<open>add_coverage\<close> keeps every side file already known, adds the commit's side files for
  the files the checkpoint names (and for the checkpoint itself) and no others, leaves the other
  extensions alone, and reports a change exactly when it added something.
\<close>

theorem add_coverage_correct:
  "(\<forall>p. ext_lookup (fst (add_coverage c tm)) (ec_extension c) p =
      (case ext_lookup tm (ec_extension c) p of
         Some v \<Rightarrow> Some v
       | None \<Rightarrow> if p \<in> coverable tm then fmlookup (ec_files c) p else None)) \<and>
   fmdrop (ec_extension c) (extension_metadata (fst (add_coverage c tm))) =
     fmdrop (ec_extension c) (extension_metadata tm) \<and>
   current_file_paths (fst (add_coverage c tm)) = current_file_paths tm \<and>
   snd (add_coverage c tm) =
     (coverable tm \<inter> fmdom' (ec_files c) -
        fmdom' (hm_get_or fmempty (extension_metadata tm) (ec_extension c)) \<noteq> {})"
  by (intro conjI allI add_coverage_lookup)
    (auto simp: add_coverage_changed fmlookup_dom'_iff add_coverage_other_extension
      intro!: fmap_ext)

text \<open>
  C5. A compaction closes the cycle it was made for: from a work item built at one checkpoint,
  a compaction commit that removes the item's files, applied to a later checkpoint that only
  appended files, leaves exactly the appended speedboat and delete files, the Iceberg metadata
  and the schema as they were, and side files of removed files nowhere.
\<close>

theorem compaction_cycle:
  assumes item: "from_checkpoint next_id tm0 dels = Inr w"
    and commit: "fmlookup lookup k = Some cc"
      "cc_removed_speedboat_files cc = file_paths (cw_speedboat_files w)"
      "cc_removed_delete_files cc = cw_delete_files w"
    and later: "wf_checkpoint tm" "speedboat_paths tm = speedboat_paths tm0 @ newer"
      "delete_paths tm = delete_paths tm0 @ newer_deletes"
      "set newer_deletes \<inter> set (delete_paths tm0) = {}"
  shows "\<exists>tm'. apply_compactions [k] lookup tm = Inr tm' \<and>
    speedboat_paths tm' = newer \<and> delete_paths tm' = newer_deletes \<and>
    iceberg_metadata tm' = iceberg_metadata tm \<and> tm_schema tm' = tm_schema tm \<and>
    (\<forall>ext. \<forall>p \<in> set (speedboat_paths tm0). ext_lookup tm' ext p = None)"
proof -
  from commit(1) have known: "set [k] \<subseteq> fmdom' lookup" by (auto intro: fmdom'I)
  from item have w: "file_paths (cw_speedboat_files w) = speedboat_paths tm0"
    "cw_delete_files w = delete_paths tm0"
    by (auto simp: from_checkpoint_def res_Inr speedboat_paths_def)
  with commit have rm: "removed_speedboat [k] lookup = speedboat_paths tm0"
    "removed_deletes [k] lookup = delete_paths tm0"
    by (simp_all add: removed_speedboat_def removed_deletes_def)
  have "distinct (speedboat_paths tm)"
    using later(1) by (auto simp: wf_checkpoint_def speedboat_paths_def wf_files_def split: option.splits)
  with later(2) have disj: "set newer \<inter> set (speedboat_paths tm0) = {}" by auto
  from later(1) known obtain tm' where tm': "apply_compactions [k] lookup tm = Inr tm'"
    "speedboat_paths tm' = [p \<leftarrow> speedboat_paths tm. p \<notin> set (removed_speedboat [k] lookup)]"
    "delete_paths tm' = [p \<leftarrow> delete_paths tm. p \<notin> set (removed_deletes [k] lookup)]"
    "iceberg_metadata tm' = iceberg_metadata tm" "tm_schema tm' = tm_schema tm"
    "extension_metadata tm' =
       fmmap (hm_retain (\<lambda>key _. key \<notin> set (removed_speedboat [k] lookup))) (extension_metadata tm)"
    by (rule apply_compactions_wf)
  have split: "[p \<leftarrow> xs @ ys. p \<notin> set xs] = ys" if "set ys \<inter> set xs = {}" for xs ys :: "string list"
    using that by (auto simp: filter_id_conv)
  have "ext_lookup tm' ext p = None" if "p \<in> set (speedboat_paths tm0)" for ext p
    using that tm'(6) rm by (auto simp: hm_get_or_def split: option.split)
  with tm' rm later split [OF disj] split [OF later(4)] show ?thesis by simp
qed

lemma compaction_cycle_witness:
  "\<exists>tm'. apply_compactions [''k''] (fmupd ''k'' (sample_compaction [''b''] [''x''] ''k'') fmempty)
      (sample_checkpoint [''a''] [''b'', ''c''] [''x'', ''y'']) = Inr tm' \<and>
    speedboat_paths tm' = [''c''] \<and> delete_paths tm' = [''y'']"
proof -
  obtain w where w: "from_checkpoint ''k'' (sample_checkpoint [''a''] [''b''] [''x'']) [] = Inr w"
    "file_paths (cw_speedboat_files w) = [''b'']" "cw_delete_files w = [''x'']"
    by (simp add: from_checkpoint_def sample_defs delete_paths_def)
  have "fmlookup (fmupd ''k'' (sample_compaction [''b''] [''x''] ''k'') fmempty) ''k'' =
      Some (sample_compaction [''b''] [''x''] ''k'')" by simp
  note compaction_cycle [OF w(1) this, of "sample_checkpoint [''a''] [''b'', ''c''] [''x'', ''y'']"
      "[''c'']" "[''y'']"]
  then show ?thesis
    by (simp add: w sample_defs speedboat_paths_def delete_paths_def wf_checkpoint_def wf_files_def) blast
qed

lemma fs_single_paths [simp]: "file_paths (fs_single p z s) = [p]"
  by (simp add: fs_single_def)

text \<open>
  C10. Replacing the checkpoint a compaction was planned on (the path taken when the Iceberg
  commit of the compaction arrives) loses no file: the new current files are the old ones
  without the compacted speedboat files and with the one Iceberg file of that name.
\<close>

theorem replacement_files:
  assumes wf: "wf_checkpoint tm" "wf_files (im_files im)"
    and sb: "speedboat_metadata tm \<noteq> None"
    and name: "\<exists>p \<in> set (file_paths (im_files im)). sublist (cc_parquet_file_name cc) p"
  shows "\<exists>tm' p. apply_compaction_for_replacement cc im tm = Inr tm' \<and>
    p \<in> set (file_paths (im_files im)) \<and> sublist (cc_parquet_file_name cc) p \<and>
    fset (current_file_paths tm') = insert p (set (iceberg_paths tm)) \<union>
       (set (speedboat_paths tm) - set (cc_removed_speedboat_files cc)) \<and>
    checkpoint_inv (tm_table_name tm) (tm_checkpoint_id tm) tm'"
proof -
  from wf(1) obtain t where t:
    "remove_speedboat_files (cc_removed_speedboat_files cc) tm = Inr t" "wf_checkpoint t"
    "speedboat_paths t = [p \<leftarrow> speedboat_paths tm. p \<notin> set (cc_removed_speedboat_files cc)]"
    "t = tm\<lparr>speedboat_metadata := speedboat_metadata t\<rparr>"
    by (rule remove_speedboat_files_wf)
  have frame: "iceberg_metadata t = iceberg_metadata tm" "tm_table_name t = tm_table_name tm"
    "tm_checkpoint_id t = tm_checkpoint_id tm"
    by (subst t(4), simp)+
  from wf(2) name obtain fd where fd:
    "fs_select (cc_parquet_file_name cc) (im_files im) =
       Inr (fs_single (fd_path fd) (fd_size fd) (fd_schema fd))"
    "fd \<in> set (abs_files (im_files im))" "sublist (cc_parquet_file_name cc) (fd_path fd)"
    by (rule fs_select_wf)
  let ?p = "fd_path fd"
  have p: "?p \<in> set (file_paths (im_files im))"
    using fd(2) abs_files_path_set [OF wf(2)] by auto
  let ?t2 = "remove_delete_files (cc_removed_delete_files cc) t"
  have "\<exists>im'. apply_compaction_for_replacement cc im tm =
       Inr (retain_current_extension_metadata (?t2\<lparr>iceberg_metadata := Some im'\<rparr>)) \<and>
      wf_files (im_files im') \<and> set (file_paths (im_files im')) = insert ?p (set (iceberg_paths tm))"
  proof (cases "iceberg_metadata tm")
    case None
    with sb t(1) fd(1) frame show ?thesis
      by (simp add: apply_compaction_for_replacement_def Let_def iceberg_paths_def)
        (rule exI, rule conjI, rule refl, simp)
  next
    case (Some md)
    with wf(1) have "wf_files (im_files md)" by (simp add: wf_checkpoint_def)
    from merge_inplace_wf [OF this wf_fs_single [of ?p "fd_size fd" "fd_schema fd"]]
    obtain fs where "merge_inplace (im_files md) (fs_single ?p (fd_size fd) (fd_schema fd)) = Inr fs"
      "wf_files fs" "set (file_paths fs) = insert ?p (set (file_paths (im_files md)))" by auto
    with Some sb t(1) fd(1) frame show ?thesis
      unfolding apply_compaction_for_replacement_def Let_def
      by (simp add: iceberg_paths_def split del: if_split)
        (rule exI, rule conjI, rule refl, simp split del: if_split)
  qed
  then obtain im' where im': "apply_compaction_for_replacement cc im tm =
       Inr (retain_current_extension_metadata (?t2\<lparr>iceberg_metadata := Some im'\<rparr>))"
    "wf_files (im_files im')" "set (file_paths (im_files im')) = insert ?p (set (iceberg_paths tm))"
    by blast
  have "checkpoint_inv (tm_table_name tm) (tm_checkpoint_id tm)
      (retain_current_extension_metadata (?t2\<lparr>iceberg_metadata := Some im'\<rparr>))"
    using t(2) im'(2) frame
    by (simp add: checkpoint_inv_def extensions_current_retain) (simp add: wf_checkpoint_def)
  with im'(1,3) p fd(3) t(3) show ?thesis
    by (intro exI [of _ ?p] exI conjI) (auto simp: iceberg_paths_def speedboat_paths_def)
qed

lemma replacement_files_witness:
  "\<exists>tm' p. apply_compaction_for_replacement (sample_compaction [''b''] [] ''new'')
      (sample_iceberg [''a'', ''s3/new'']) (sample_checkpoint [''a''] [''b'', ''c''] []) = Inr tm' \<and>
    sublist ''new'' p \<and> fset (current_file_paths tm') = {p, ''a'', ''c''}"
proof -
  have wf: "wf_checkpoint (sample_checkpoint [''a''] [''b'', ''c''] [])"
    "wf_files (im_files (sample_iceberg [''a'', ''s3/new'']))"
    "speedboat_metadata (sample_checkpoint [''a''] [''b'', ''c''] []) \<noteq> None"
    by (simp_all add: sample_defs wf_checkpoint_def wf_files_def)
  have "sublist ''new'' ''s3/new''" by (simp add: sublist_code)
  then have name: "\<exists>p \<in> set (file_paths (im_files (sample_iceberg [''a'', ''s3/new'']))).
      sublist (cc_parquet_file_name (sample_compaction [''b''] [] ''new'')) p"
    by (simp add: sample_defs)
  from replacement_files [OF wf name] obtain tm' p where r:
    "apply_compaction_for_replacement (sample_compaction [''b''] [] ''new'')
      (sample_iceberg [''a'', ''s3/new'']) (sample_checkpoint [''a''] [''b'', ''c''] []) = Inr tm'"
    "sublist (cc_parquet_file_name (sample_compaction [''b''] [] ''new'')) p"
    "fset (current_file_paths tm') =
       insert p (set (iceberg_paths (sample_checkpoint [''a''] [''b'', ''c''] []))) \<union>
       (set (speedboat_paths (sample_checkpoint [''a''] [''b'', ''c''] [])) -
        set (cc_removed_speedboat_files (sample_compaction [''b''] [] ''new'')))"
    by blast
  have "sublist ''new'' p" using r(2) by (simp add: sample_defs)
  moreover have "fset (current_file_paths tm') = {p, ''a'', ''c''}"
    unfolding r(3) by (auto simp: sample_defs iceberg_paths_def speedboat_paths_def)
  ultimately show ?thesis using r(1) by blast
qed

subsection \<open>Round trips\<close>

text \<open>
  C19. A checkpoint descriptor survives being printed as a full name and read back, as long as
  its parts hold no colon; the parts are otherwise arbitrary.
\<close>

theorem descriptor_round_trip:
  assumes "CHR '':'' \<notin> set (cd_table_name d)" "CHR '':'' \<notin> set (cd_checkpoint_id d)"
    and "\<And>orig. cd_original_checkpoint_id d = Some orig \<Longrightarrow> CHR '':'' \<notin> set orig"
  shows "from_full_name (full_name d) = Inr d"
  using assms
  by (cases d; cases "cd_original_checkpoint_id d")
    (auto simp: full_name_def from_full_name_def split_char_append split_char_absent)

lemma descriptor_round_trip_witness:
  "from_full_name (full_name \<lparr>cd_table_name = ''logs'', cd_checkpoint_id = ''12'',
       cd_original_checkpoint_id = Some ''7''\<rparr>) =
     Inr \<lparr>cd_table_name = ''logs'', cd_checkpoint_id = ''12'', cd_original_checkpoint_id = Some ''7''\<rparr>"
  by (rule descriptor_round_trip) simp_all

text \<open>
  C20. The table info built from segments gives those segments back, and its file set is well
  formed, with one file per segment, when the segments have distinct paths.
\<close>

theorem segment_round_trip:
  assumes "distinct (map seg_file_path segs)"
  shows "segment_files hash (from_segments ty tbl segs sch) = segs \<and>
    (case as_file_set_payload hash (from_segments ty tbl segs (Some s)) of
       Inl _ \<Rightarrow> False
     | Inr fs \<Rightarrow> wf_files fs \<and>
         abs_files fs = map (\<lambda>g. \<lparr>fd_path = seg_file_path g, fd_schema = s, fd_size = seg_size g\<rparr>) segs)"
proof -
  have seg: "segment_files hash (from_segments ty tbl segs x) = segs" for x
    by (simp add: segment_files_def from_segments_def)
  have rows: "abs_files \<lparr>file_paths = map seg_file_path gs, schemas = [s],
        file_schemas = map (\<lambda>_. 0) gs, sizes = map seg_size gs\<rparr> =
      map (\<lambda>g. \<lparr>fd_path = seg_file_path g, fd_schema = s, fd_size = seg_size g\<rparr>) gs" for gs
    by (induction gs) (simp_all add: abs_files_def)
  have "ti_schema (from_segments ty tbl segs (Some s)) = Some s" by (simp add: from_segments_def)
  with assms rows show ?thesis
    by (simp add: as_file_set_payload_def Let_def seg wf_files_def)
qed

lemma segment_round_trip_witness:
  "segment_files (\<lambda>_. 0) (from_segments ''commit'' ''t''
      [\<lparr>seg_id = ''s'', seg_file_path = ''d'', seg_size = 7\<rparr>] None) =
     [\<lparr>seg_id = ''s'', seg_file_path = ''d'', seg_size = 7\<rparr>]"
  using segment_round_trip [of "[\<lparr>seg_id = ''s'', seg_file_path = ''d'', seg_size = 7\<rparr>]"] by simp

end
