(* ===== verification/Catalog.thy ===== *)
theory Catalog
  imports Checkpoint
begin

section \<open>The catalog: tables, templates, pipelines, policies, modes\<close>

text \<open>
  The descriptions the metadata service stores beside the checkpoints: table descriptions with
  their serving and protocol configuration, index templates
  (\<^verbatim>\<open>control_plane/src/data_contract.rs\<close>), ingest pipelines (\<^verbatim>\<open>pipeline.rs\<close>), lifetime
  policies (\<^verbatim>\<open>ilm_policy.rs\<close>) and the processing modes (\<^verbatim>\<open>test_api.rs\<close>). Running a pipeline
  evaluates templates with the \<^verbatim>\<open>minijinja\<close> engine, a parameter \<open>eval\<close> here: the rendered
  text of a template on a document, or a panic.
\<close>

subsection \<open>Table configuration\<close>

record serving_aggregate_measure =
  am_function :: string
  am_field :: "string option"
  am_alias :: "string option"

record serving_aggregate_spec =
  as_group_by :: "string list"
  as_measures :: "serving_aggregate_measure list"

record serving_pattern =
  sp_name :: string
  sp_eq_fields :: "string list"
  sp_range_field :: "string option"
  sp_order_field :: "string option"
  sp_descending :: bool
  sp_max_limit :: "u64 option"
  sp_projection :: "string list option"
  sp_aggregate :: "serving_aggregate_spec option"

record serving_table_config =
  stc_patterns :: "serving_pattern list"

record support_key_schema_config =
  ks_primary_key :: string
  ks_range_key :: "string option"

datatype support_elastic_search_table_config = SupportElasticSearchTableConfig

record dynamo_db_global_secondary_index_config =
  gsi_name :: string
  gsi_partition_key :: string
  gsi_sort_key :: "string option"

record dynamo_db_local_secondary_index_config =
  lsi_name :: string
  lsi_sort_key :: string

record support_dynamo_db_table_config =
  sdd_local_secondary_indexes :: "dynamo_db_local_secondary_index_config list"
  sdd_global_secondary_indexes :: "dynamo_db_global_secondary_index_config list"

record support_redis_table_config =
  srt_database :: u32
  srt_value_field :: string

record support_table_config =
  stg_key_schema :: support_key_schema_config
  stg_elasticsearch :: "support_elastic_search_table_config option"
  stg_dynamodb :: "support_dynamo_db_table_config option"
  stg_redis :: "support_redis_table_config option"

record dynamo_db_table_config =
  ddb_partition_key :: string
  ddb_sort_key :: "string option"
  ddb_local_secondary_indexes :: "dynamo_db_local_secondary_index_config list"
  ddb_global_secondary_indexes :: "dynamo_db_global_secondary_index_config list"

record mongo_db_id_config =
  mid_field :: string

record mongo_db_table_config =
  mdb_enabled :: bool
  mdb_database :: string
  mdb_collection :: string
  mdb_id :: mongo_db_id_config

record redis_table_config =
  rtc_enabled :: bool
  rtc_database :: u32
  rtc_key_field :: string
  rtc_value_field :: "string option"

record create_table_t =
  crt_name :: string
  crt_tags :: "(string, string) hash_map"
  crt_serving :: "serving_table_config option"
  crt_support :: "support_table_config option"
  crt_dynamodb :: "dynamo_db_table_config option"
  crt_mongodb :: "mongo_db_table_config option"
  crt_redis :: "redis_table_config option"

record table_description =
  td_name :: string
  td_tags :: "(string, string) hash_map"
  td_serving :: "serving_table_config option"
  td_support :: "support_table_config option"
  td_dynamodb :: "dynamo_db_table_config option"
  td_mongodb :: "mongo_db_table_config option"
  td_redis :: "redis_table_config option"

definition from_create_table :: "create_table_t \<Rightarrow> table_description" where
  "from_create_table ct =
     \<lparr>td_name = crt_name ct, td_tags = crt_tags ct, td_serving = crt_serving ct,
      td_support = crt_support ct, td_dynamodb = crt_dynamodb ct, td_mongodb = crt_mongodb ct,
      td_redis = crt_redis ct\<rparr>"

subsection \<open>Index templates\<close>

record alias_info =
  ali_is_hidden :: bool

datatype string_or_bool = SB_Bool bool | SB_String string

record meta_info =
  migration_mapping_property_hashes :: "(string, string) hash_map"

datatype property_info = PropertyInfo
  (pi_type_name: "string option")
  (pi_enabled: bool)
  (pi_dynamic: "string_or_bool option")
  (pi_properties: "(string, property_info) fmap option")
  (pi_fields: "(string, property_info) fmap option")
  (pi_ignore_above: u32)
  (pi_scaling_factor: "u32 option")

record mappings_t =
  mp_dynamic :: "string_or_bool option"
  mp_meta :: "meta_info option"
  mp_properties :: "(string, property_info) hash_map"

record index_mapping_field_settings =
  imf_limit :: "u32 option"

record index_mapping_settings =
  ims_total_fields :: index_mapping_field_settings

record index_settings =
  is_number_of_shards :: "u32 option"
  is_number_of_replicas :: "u32 option"
  is_auto_expand_replicas :: "string option"
  is_refresh_interval :: "string option"
  is_priority :: "u32 option"
  is_mapping :: "index_mapping_settings option"

record create_index_settings =
  cis_index :: index_settings

datatype create_index_settings_option =
    CIS_Indirect create_index_settings
  | CIS_Direct index_settings

record create_index_body =
  cib_aliases :: "(string, alias_info) hash_map option"
  cib_mappings :: "mappings_t option"
  cib_settings :: "create_index_settings_option option"

text \<open>\<^verbatim>\<open>parse\<close>: an empty request body is the body with nothing set; otherwise
  \<^verbatim>\<open>serde_json\<close> decides, the parameter \<open>from_str\<close>.\<close>

definition cib_parse :: "(string \<Rightarrow> create_index_body res) \<Rightarrow> string \<Rightarrow> create_index_body res" where
  "cib_parse from_str content =
     (if length content = 0
      then Inr \<lparr>cib_aliases = None, cib_mappings = None, cib_settings = None\<rparr>
      else from_str content)"

record create_index_template_body =
  citb_index_patterns :: "string list"
  citb_priority :: "u32 option"
  citb_version :: "u32 option"
  citb_template :: create_index_body

subsection \<open>Lifetime policies\<close>

datatype ilm_policy_delete_action = ILMPolicyDeleteAction

record ilm_policy_rollover_action =
  ra_max_size :: "string option"
  ra_max_age :: "string option"

record ilm_policy_actions =
  pa_rollover :: "ilm_policy_rollover_action option"
  pa_delete :: "ilm_policy_delete_action option"

record ilm_policy_delete =
  pd_min_age :: string
  pd_actions :: ilm_policy_actions

record ilm_policy_hot =
  ph_actions :: ilm_policy_actions

record ilm_policy_phases =
  pp_hot :: "ilm_policy_hot option"
  pp_delete :: "ilm_policy_delete option"

record ilm_policy_meta =
  pm_managed :: bool
  pm_index_patterns :: "string list option"
  pm_version :: "int option"
  pm_created_by :: "string option"
  pm_updated_by :: "string option"
  pm_description :: "string option"
  pm_generation :: "int option"

record ilm_policy_policy =
  ppo_meta :: "ilm_policy_meta option"
  ppo_phases :: ilm_policy_phases

record ilm_policy_definition =
  ipd_policy :: ilm_policy_policy

subsection \<open>Ingest pipelines\<close>

record set_processor_body =
  spb_description :: "string option"
  spb_if :: "string option"
  spb_field :: string
  spb_value_formula :: string
  spb_ignore_empty_value :: bool
  spb_metadata :: "(string, string) hash_map"

record append_processor_body =
  apb_description :: "string option"
  apb_if :: "string option"
  apb_field :: string
  apb_value_formula :: string
  apb_ignore_empty_value :: bool
  apb_metadata :: "(string, string) hash_map"

record remove_processor_body =
  rpb_description :: "string option"
  rpb_if :: "string option"
  rpb_field :: string
  rpb_metadata :: "(string, string) hash_map"

record pipeline_processor_body =
  ppb_description :: "string option"
  ppb_if :: "string option"
  ppb_name :: string
  ppb_metadata :: "(string, string) hash_map"

record rename_processor_body =
  rnb_description :: "string option"
  rnb_if :: "string option"
  rnb_field :: string
  rnb_target_field :: string
  rnb_metadata :: "(string, string) hash_map"

datatype processor_bodies =
    PB_Set set_processor_body
  | PB_Remove remove_processor_body
  | PB_Pipeline pipeline_processor_body
  | PB_Rename rename_processor_body
  | PB_Append append_processor_body

record pipeline_definition =
  pl_description :: "string option"
  pl_processors :: "processor_bodies list"
  pl_on_failure :: "processor_bodies list"

text \<open>
  A processor yields the changed document, \<open>None\<close> for a \<^verbatim>\<open>PipelineError\<close> (the document is
  then as before), or panics; four of the five processors are \<^verbatim>\<open>todo!()\<close>.
\<close>

definition set_source_field :: "string \<Rightarrow> string \<Rightarrow> json \<Rightarrow> json option" where
  "set_source_field field result doc =
     (case doc of
        JObject inner \<Rightarrow>
          (case jm_get inner ''_source'' of
             Some (JObject source) \<Rightarrow>
               Some (JObject (jm_insert ''_source'' (JObject (jm_insert field (JString result) source)) inner))
           | _ \<Rightarrow> None)
      | _ \<Rightarrow> None)"

definition set_apply ::
    "(string \<Rightarrow> json \<Rightarrow> string res) \<Rightarrow> set_processor_body \<Rightarrow> json \<Rightarrow> json option res" where
  "set_apply eval body doc =
     rbind (case spb_if body of
              None \<Rightarrow> Inr True
            | Some if_val \<Rightarrow> rmap (\<lambda>r. r = ''true'') (eval if_val doc)) (\<lambda>go.
     if \<not> go then Inr (Some doc)
     else rmap (\<lambda>r. set_source_field (spb_field body) r doc) (eval (spb_value_formula body) doc))"

fun apply_processor ::
    "(string \<Rightarrow> json \<Rightarrow> string res) \<Rightarrow> processor_bodies \<Rightarrow> json \<Rightarrow> json option res" where
  "apply_processor eval (PB_Set body) doc = set_apply eval body doc"
| "apply_processor eval _ doc = Inl (Panic ''not yet implemented'')"

text \<open>Runs processors until one reports an error: the document and whether there was one.\<close>

fun run_processors ::
    "(string \<Rightarrow> json \<Rightarrow> string res) \<Rightarrow> processor_bodies list \<Rightarrow> json \<Rightarrow> (json \<times> bool) res" where
  "run_processors eval [] doc = Inr (doc, False)"
| "run_processors eval (p # ps) doc =
     rbind (apply_processor eval p doc) (\<lambda>r. case r of
         Some doc' \<Rightarrow> run_processors eval ps doc'
       | None \<Rightarrow> Inr (doc, True))"

definition apply_definition ::
    "(string \<Rightarrow> json \<Rightarrow> string res) \<Rightarrow> pipeline_definition \<Rightarrow> json \<Rightarrow> json res" where
  "apply_definition eval pipeline doc =
     rbind (run_processors eval (pl_processors pipeline) doc) (\<lambda>(doc1, has_error).
     if has_error then rmap fst (run_processors eval (pl_on_failure pipeline) doc1)
     else Inr doc1)"

subsection \<open>Processing modes\<close>

datatype state_mode =
    SM_Testing | SM_Ephemeral | SM_TestingDynamoDb "string option" | SM_Leaderless string

fun is_testing :: "state_mode \<Rightarrow> bool" where
  "is_testing SM_Testing = True"
| "is_testing (SM_TestingDynamoDb _) = True"
| "is_testing _ = False"

datatype storage_mode = SM_S3 "string option" "string option"

definition storage_default :: storage_mode where
  "storage_default = SM_S3 None None"

datatype cache_mode = CM_Redis "string option" | CM_Native

datatype api_mode = AM_ReadWrite | AM_ReadOnly

datatype peer_mode = PM_SelfOnly | PM_Remote "string list"

datatype indexing_mode = IM_Sync | IM_Async | IM_Disabled

datatype compaction_mode = CM_Async "u64 option" | CM_External string | CM_Disabled

definition default_num_files_threshold :: u64 where
  "default_num_files_threshold = 100"

fun threshold :: "compaction_mode \<Rightarrow> u64" where
  "threshold (CM_Async (Some t)) = t"
| "threshold _ = default_num_files_threshold"

datatype prefetch_mode = PF_Enabled | PF_Disabled

record test_processing_mode =
  tpm_state_mode :: state_mode
  tpm_storage_mode :: storage_mode
  tpm_cache_mode :: cache_mode
  tpm_api_mode :: api_mode
  tpm_peer_mode :: peer_mode
  tpm_indexing_mode :: indexing_mode
  tpm_compaction_mode :: compaction_mode
  tpm_prefetch_mode :: prefetch_mode

definition dynamo_testing :: "string option \<Rightarrow> test_processing_mode" where
  "dynamo_testing address =
     \<lparr>tpm_state_mode = SM_TestingDynamoDb address, tpm_storage_mode = storage_default,
      tpm_cache_mode = CM_Native, tpm_api_mode = AM_ReadWrite, tpm_peer_mode = PM_SelfOnly,
      tpm_indexing_mode = IM_Sync, tpm_compaction_mode = CM_Async None,
      tpm_prefetch_mode = PF_Disabled\<rparr>"

definition testing_dynamodb_default :: test_processing_mode where
  "testing_dynamodb_default =
     \<lparr>tpm_state_mode = SM_TestingDynamoDb None, tpm_storage_mode = storage_default,
      tpm_cache_mode = CM_Native, tpm_api_mode = AM_ReadWrite, tpm_peer_mode = PM_SelfOnly,
      tpm_indexing_mode = IM_Sync, tpm_compaction_mode = CM_Async None,
      tpm_prefetch_mode = PF_Disabled\<rparr>"

definition ephemeral_default :: test_processing_mode where
  "ephemeral_default =
     \<lparr>tpm_state_mode = SM_Ephemeral, tpm_storage_mode = storage_default,
      tpm_cache_mode = CM_Native, tpm_api_mode = AM_ReadWrite, tpm_peer_mode = PM_SelfOnly,
      tpm_indexing_mode = IM_Sync, tpm_compaction_mode = CM_Async None,
      tpm_prefetch_mode = PF_Disabled\<rparr>"

definition is_read_only :: "test_processing_mode \<Rightarrow> bool" where
  "is_read_only m = (tpm_api_mode m = AM_ReadOnly)"

datatype service_impl_type =
    ST_Ephemeral | ST_DynamoDb "string option" | ST_TestingDynamoDb "string option"

record service_mode =
  svm_impl_type :: service_impl_type

definition service_mode_test :: service_mode where
  "service_mode_test = \<lparr>svm_impl_type = ST_TestingDynamoDb None\<rparr>"

definition as_testing_mode :: "service_mode \<Rightarrow> test_processing_mode" where
  "as_testing_mode m =
     (case svm_impl_type m of
        ST_TestingDynamoDb address \<Rightarrow> dynamo_testing address
      | _ \<Rightarrow> ephemeral_default)"

definition default_metadata_namespace :: string where
  "default_metadata_namespace = ''__powdrr__''"

subsection \<open>Running a pipeline\<close>

lemma run_processors_append:
  "run_processors eval (ps @ qs) doc =
     rbind (run_processors eval ps doc) (\<lambda>(d, err). if err then Inr (d, True) else run_processors eval qs d)"
proof (induction ps arbitrary: doc)
  case (Cons p ps)
  show ?case by (cases "apply_processor eval p doc") (auto simp: Cons.IH split: option.split)
qed simp

text \<open>What a reader finds under a top-level key of a document.\<close>

definition top_level :: "json \<Rightarrow> string \<Rightarrow> json option" where
  "top_level doc k = (case doc of JObject m \<Rightarrow> jm_get m k | _ \<Rightarrow> None)"

fun is_set_processor :: "processor_bodies \<Rightarrow> bool" where
  "is_set_processor (PB_Set _) = True"
| "is_set_processor _ = False"

lemma set_source_field_top_level:
  "set_source_field f r doc = Some doc' \<Longrightarrow> k \<noteq> ''_source'' \<Longrightarrow> top_level doc' k = top_level doc k"
  by (auto simp: set_source_field_def top_level_def split: json.splits option.splits)

lemma apply_set_total:
  assumes "\<And>t d. eval t d = Inr (out t d)" "is_set_processor p"
  shows "\<exists>r. apply_processor eval p doc = Inr r \<and>
    (case r of None \<Rightarrow> True | Some doc' \<Rightarrow> \<forall>k. k \<noteq> ''_source'' \<longrightarrow> top_level doc' k = top_level doc k)"
proof (cases p)
  case (PB_Set body)
  then show ?thesis
    by (auto simp: set_apply_def assms(1) set_source_field_top_level split: option.split)
qed (use assms(2) in simp_all)

lemma run_set_processors_total:
  assumes "\<And>t d. eval t d = Inr (out t d)" "list_all is_set_processor ps"
  shows "\<exists>doc' err. run_processors eval ps doc = Inr (doc', err) \<and>
    (\<forall>k. k \<noteq> ''_source'' \<longrightarrow> top_level doc' k = top_level doc k)"
  using assms(2)
proof (induction ps arbitrary: doc)
  case (Cons p ps)
  then obtain r where r: "apply_processor eval p doc = Inr r"
    "case r of None \<Rightarrow> True | Some doc' \<Rightarrow> \<forall>k. k \<noteq> ''_source'' \<longrightarrow> top_level doc' k = top_level doc k"
    using apply_set_total [of eval out p doc] assms(1) by auto
  show ?case
  proof (cases r)
    case (Some doc1)
    from Cons.prems have "list_all is_set_processor ps" by simp
    from Cons.IH [OF this, of doc1] Some r show ?thesis by auto
  qed (use r in \<open>simp add: ex_bool_eq\<close>)
qed (simp add: ex_bool_eq)



end
