(* ===== verification/Coordination.thy ===== *)
theory Coordination
  imports Catalog
begin

section \<open>The metadata store interface and read-only coordination\<close>

text \<open>
  The vocabulary of checkpoint publication (\<^verbatim>\<open>service_lib/src/metadata_store.rs\<close>): selectors,
  records, epochs, leases, acknowledgements, requests; the default methods of the
  \<^verbatim>\<open>MetadataStore\<close> trait, each a function of the methods it calls; and the coordination
  state a read-only node sees (\<^verbatim>\<open>read_only_coordination.rs\<close>). A method is an operation on the
  store's state that can fail: \<open>'s \<Rightarrow> ('s \<times> 'r) res\<close>.
\<close>

subsection \<open>Operations on a state\<close>

type_synonym ('s, 'r) op = "'s \<Rightarrow> ('s \<times> 'r) res"

definition oret :: "'r \<Rightarrow> ('s, 'r) op" where
  "oret x s = Inr (s, x)"

definition obind :: "('s, 'a) op \<Rightarrow> ('a \<Rightarrow> ('s, 'b) op) \<Rightarrow> ('s, 'b) op" where
  "obind m f s = rbind (m s) (\<lambda>(s', x). f x s')"

lemma obind_simps [simp, res_simps]:
  "m s = Inr (s', x) \<Longrightarrow> obind m f s = f x s'"
  "m s = Inl e \<Longrightarrow> obind m f s = Inl e"
  by (simp_all add: obind_def)

lemma oret_apply [simp, res_simps]: "oret x s = Inr (s, x)"
  by (simp add: oret_def)

lemma obind_eq_Inr:
  "obind m f s = Inr r \<longleftrightarrow> (\<exists>s' x. m s = Inr (s', x) \<and> f x s' = Inr r)"
  by (auto simp: obind_def rbind_eq_Inr)

subsection \<open>Types of the interface\<close>

datatype published_checkpoint_role = Active | Target

record published_checkpoint_selector =
  sel_table_name :: string
  sel_extension :: "string option"
  sel_role :: published_checkpoint_role

definition selector_active :: "string \<Rightarrow> string option \<Rightarrow> published_checkpoint_selector" where
  "selector_active table_name extension =
     \<lparr>sel_table_name = table_name, sel_extension = extension, sel_role = Active\<rparr>"

definition selector_target :: "string \<Rightarrow> string option \<Rightarrow> published_checkpoint_selector" where
  "selector_target table_name extension =
     \<lparr>sel_table_name = table_name, sel_extension = extension, sel_role = Target\<rparr>"

definition selector_new :: "string \<Rightarrow> string option \<Rightarrow> published_checkpoint_selector" where
  "selector_new = selector_active"

record published_checkpoint_record =
  pcr_selector :: published_checkpoint_selector
  pcr_checkpoint_id :: string

type_synonym cutover_epoch = u64

record checkpoint_cutover_state =
  ccs_selector :: published_checkpoint_selector
  ccs_epoch :: cutover_epoch
  ccs_active_checkpoint_id :: "string option"
  ccs_target_checkpoint_id :: "string option"

record serving_node_lease =
  snl_node_id :: string
  snl_membership_epoch :: cutover_epoch
  snl_observed_at_ms :: millis

record serving_node_activation_ack =
  sna_selector :: published_checkpoint_selector
  sna_node_id :: string
  sna_epoch :: cutover_epoch
  sna_checkpoint_id :: string
  sna_activated_at_ms :: millis

record cutover_membership_view =
  cmv_selector :: published_checkpoint_selector
  cmv_epoch :: cutover_epoch
  cmv_target_checkpoint_id :: string
  cmv_required_node_ids :: "string list"

record checkpoint_cutover_request =
  ccr_selector :: published_checkpoint_selector
  ccr_target_checkpoint_id :: string

definition cutover_request_new ::
    "string \<Rightarrow> string option \<Rightarrow> string \<Rightarrow> checkpoint_cutover_request" where
  "cutover_request_new table_name extension target_checkpoint_id =
     \<lparr>ccr_selector = selector_target table_name extension,
      ccr_target_checkpoint_id = target_checkpoint_id\<rparr>"

record checkpoint_update_request =
  cur_table_name :: string

definition update_request_new :: "string \<Rightarrow> checkpoint_update_request" where
  "update_request_new table_name = \<lparr>cur_table_name = table_name\<rparr>"

datatype metadata_claim_kind = Leased | ProcessLocal

record claimed_extension_work_item =
  cew_claim :: metadata_claim_kind
  cew_work_item :: extension_work_item

record claimed_compaction_work_item =
  ccw_claim :: metadata_claim_kind
  ccw_table_name :: string
  ccw_work_item :: compaction_work_item

record claimed_cleanup_work_item =
  clw_claim :: metadata_claim_kind
  clw_work_item :: cleanup_work_item

subsection \<open>Default methods of the trait\<close>

definition default_plan_checkpoint_cutover ::
    "(checkpoint_update_request \<Rightarrow> ('s, unit) op) \<Rightarrow> checkpoint_cutover_request \<Rightarrow> ('s, unit) op" where
  "default_plan_checkpoint_cutover queue request =
     queue (update_request_new (sel_table_name (ccr_selector request)))"

definition default_get_published_active_checkpoint ::
    "(published_checkpoint_selector \<Rightarrow> ('s, published_checkpoint_record option) op) \<Rightarrow>
     string \<Rightarrow> string option \<Rightarrow> ('s, string option) op" where
  "default_get_published_active_checkpoint get_record table_name extension =
     obind (get_record (selector_active table_name extension))
       (\<lambda>r. oret (map_option pcr_checkpoint_id r))"

definition default_get_latest_committed_checkpoint ::
    "(published_checkpoint_selector \<Rightarrow> ('s, published_checkpoint_record option) op) \<Rightarrow>
     string \<Rightarrow> string option \<Rightarrow> ('s, string option) op" where
  "default_get_latest_committed_checkpoint get_record table_name extension =
     obind (get_record (selector_target table_name extension))
       (\<lambda>r. oret (map_option pcr_checkpoint_id r))"

definition default_get_latest_target_checkpoint ::
    "(published_checkpoint_selector \<Rightarrow> ('s, published_checkpoint_record option) op) \<Rightarrow>
     (string \<Rightarrow> string option \<Rightarrow> ('s, string option) op) \<Rightarrow>
     string \<Rightarrow> string option \<Rightarrow> ('s, string option) op" where
  "default_get_latest_target_checkpoint get_record get_latest_committed table_name extension =
     obind (get_record (selector_target table_name extension)) (\<lambda>r. case r of
         Some record \<Rightarrow> oret (Some (pcr_checkpoint_id record))
       | None \<Rightarrow> get_latest_committed table_name extension)"

definition default_get_checkpoint_cutover_state ::
    "(published_checkpoint_selector \<Rightarrow> ('s, published_checkpoint_record option) op) \<Rightarrow>
     (string \<Rightarrow> string option \<Rightarrow> ('s, string option) op) \<Rightarrow>
     string \<Rightarrow> string option \<Rightarrow> ('s, checkpoint_cutover_state) op" where
  "default_get_checkpoint_cutover_state get_record get_latest_target table_name extension =
     obind (get_record (selector_active table_name extension)) (\<lambda>r.
     let active = map_option pcr_checkpoint_id r in
     obind (get_latest_target table_name extension) (\<lambda>latest.
     oret \<lparr>ccs_selector = selector_target table_name extension, ccs_epoch = 0,
           ccs_active_checkpoint_id = active,
           ccs_target_checkpoint_id = (case latest of Some t \<Rightarrow> Some t | None \<Rightarrow> active)\<rparr>))"

definition default_get_extension_work_items ::
    "(string \<Rightarrow> ('s, claimed_extension_work_item list) op) \<Rightarrow> string \<Rightarrow>
     ('s, extension_work_item list) op" where
  "default_get_extension_work_items claim extension_type =
     obind (claim extension_type) (\<lambda>ws. oret (map cew_work_item ws))"

definition default_get_compaction_work_items ::
    "('s, claimed_compaction_work_item list) op \<Rightarrow> ('s, (string \<times> compaction_work_item) list) op" where
  "default_get_compaction_work_items claim =
     obind claim (\<lambda>ws. oret (map (\<lambda>w. (ccw_table_name w, ccw_work_item w)) ws))"

definition default_get_cleanup_work_items ::
    "('s, claimed_cleanup_work_item list) op \<Rightarrow> ('s, cleanup_work_item list) op" where
  "default_get_cleanup_work_items claim = obind claim (\<lambda>ws. oret (map clw_work_item ws))"

subsection \<open>Read-only coordination\<close>

datatype read_only_target_phase = AwaitingReadiness | AwaitingActivation | PhaseActive

datatype artifact_class =
    SnapshotLookupMmap
  | SnapshotExactLookupMmap
  | SearchProjection
  | StatsManifest
  | Custom string

record artifact_readiness_ack =
  ara_selector :: published_checkpoint_selector
  ara_checkpoint_id :: string
  ara_epoch :: cutover_epoch
  ara_artifact_class :: artifact_class
  ara_producer_id :: string
  ara_ready_at_ms :: millis

record read_only_coordination_state =
  ros_selector :: published_checkpoint_selector
  ros_epoch :: cutover_epoch
  ros_active_checkpoint_id :: "string option"
  ros_target_checkpoint_id :: "string option"
  ros_phase :: read_only_target_phase
  ros_readiness_acks :: "artifact_readiness_ack list"

definition required_artifact_classes :: "string option \<Rightarrow> artifact_class list" where
  "required_artifact_classes extension =
     (case extension of
        None \<Rightarrow> [SnapshotLookupMmap, SnapshotExactLookupMmap]
      | Some ext \<Rightarrow> if ext = ''es'' then [SearchProjection] else [Custom ext])"

definition readiness_satisfies_target ::
    "artifact_readiness_ack list \<Rightarrow> string option \<Rightarrow> string option \<Rightarrow> bool" where
  "readiness_satisfies_target readiness_acks target extension =
     (case target of
        None \<Rightarrow> False
      | Some target_checkpoint_id \<Rightarrow>
          (let required = required_artifact_classes extension;
               ready = ara_artifact_class `
                 set [ack \<leftarrow> readiness_acks. ara_checkpoint_id ack = target_checkpoint_id] in
           required = [] \<or> list_all (\<lambda>c. c \<in> ready) required))"

text \<open>The methods every \<^verbatim>\<open>MetadataStore\<close> gets as a \<^verbatim>\<open>ReadOnlyCoordinationStore\<close>.\<close>

definition ro_get_checkpoint_cutover_state ::
    "(string \<Rightarrow> string option \<Rightarrow> ('s, checkpoint_cutover_state) op) \<Rightarrow>
     (string \<Rightarrow> string option \<Rightarrow> ('s, string option) op) \<Rightarrow>
     string \<Rightarrow> string option \<Rightarrow> ('s, checkpoint_cutover_state) op" where
  "ro_get_checkpoint_cutover_state get_cutover get_latest_committed table_name extension =
     obind (get_cutover table_name extension) (\<lambda>st.
     obind (get_latest_committed table_name (sel_extension (ccs_selector st))) (\<lambda>latest.
     oret (st\<lparr>ccs_target_checkpoint_id := latest\<rparr>)))"

definition target_phase ::
    "checkpoint_cutover_state \<Rightarrow> artifact_readiness_ack list \<Rightarrow> read_only_target_phase" where
  "target_phase st acks =
     (if ccs_active_checkpoint_id st \<noteq> None \<and>
         ccs_active_checkpoint_id st = ccs_target_checkpoint_id st then PhaseActive
      else if readiness_satisfies_target acks (ccs_target_checkpoint_id st)
                (sel_extension (ccs_selector st)) then AwaitingActivation
      else AwaitingReadiness)"

definition get_read_only_coordination_state ::
    "(string \<Rightarrow> string option \<Rightarrow> ('s, checkpoint_cutover_state) op) \<Rightarrow>
     (string \<Rightarrow> string option \<Rightarrow> ('s, artifact_readiness_ack list) op) \<Rightarrow>
     string \<Rightarrow> string option \<Rightarrow> ('s, read_only_coordination_state) op" where
  "get_read_only_coordination_state get_cutover list_readiness table_name extension =
     obind (get_cutover table_name extension) (\<lambda>st.
     obind (list_readiness table_name extension) (\<lambda>acks.
     oret \<lparr>ros_selector = ccs_selector st, ros_epoch = ccs_epoch st,
           ros_active_checkpoint_id = ccs_active_checkpoint_id st,
           ros_target_checkpoint_id = ccs_target_checkpoint_id st,
           ros_phase = target_phase st acks, ros_readiness_acks = acks\<rparr>))"

subsection \<open>The contract a store owes its read-only clients\<close>

lemma readiness_satisfies_target_iff:
  "readiness_satisfies_target acks (Some t) ext \<longleftrightarrow>
     (\<forall>c \<in> set (required_artifact_classes ext).
        \<exists>ack \<in> set acks. ara_checkpoint_id ack = t \<and> ara_artifact_class ack = c)"
  by (auto simp: readiness_satisfies_target_def Let_def list_all_iff image_iff)

lemma required_artifact_classes_nonempty [simp]: "required_artifact_classes ext \<noteq> []"
  by (simp add: required_artifact_classes_def split: option.split)

text \<open>
  \<open>latest\<close> and \<open>acked\<close> describe the store abstractly: the latest committed checkpoint of a
  table and extension, and the artifact classes acknowledged for a checkpoint. Reads leave both
  alone, the cutover read included, which may otherwise reconfigure the membership.
\<close>

locale read_only_provider =
  fixes cutover :: "string \<Rightarrow> string option \<Rightarrow> ('s, checkpoint_cutover_state) op"
    and latest_committed :: "string \<Rightarrow> string option \<Rightarrow> ('s, string option) op"
    and list_readiness :: "string \<Rightarrow> string option \<Rightarrow> ('s, artifact_readiness_ack list) op"
    and latest :: "'s \<Rightarrow> string \<Rightarrow> string option \<Rightarrow> string option"
    and active :: "'s \<Rightarrow> string \<Rightarrow> string option \<Rightarrow> string option"
    and acked :: "'s \<Rightarrow> string \<Rightarrow> string option \<Rightarrow> string \<Rightarrow> artifact_class set"
    and valid :: "'s \<Rightarrow> bool"
  assumes cutover_read: "valid s \<Longrightarrow> \<exists>s' st. cutover t e s = Inr (s', st) \<and> valid s' \<and>
      ccs_selector st = selector_target t e \<and> ccs_active_checkpoint_id st = active s t e \<and>
      latest s' t e = latest s t e \<and> active s' t e = active s t e \<and> acked s' t e = acked s t e"
    and latest_read: "valid s \<Longrightarrow> latest_committed t e s = Inr (s, latest s t e)"
    and readiness_read: "valid s \<Longrightarrow> \<exists>acks. list_readiness t e s = Inr (s, acks) \<and>
      (\<forall>c. acked s t e c = ara_artifact_class ` {ack \<in> set acks. ara_checkpoint_id ack = c})"
begin

lemma coordination_state:
  assumes "valid s"
  shows "\<exists>s' st. get_read_only_coordination_state
      (ro_get_checkpoint_cutover_state cutover latest_committed) list_readiness t e s = Inr (s', st) \<and>
    ros_active_checkpoint_id st = active s t e \<and> ros_target_checkpoint_id st = latest s t e \<and>
    (ros_phase st = PhaseActive \<longleftrightarrow> active s t e \<noteq> None \<and> active s t e = latest s t e) \<and>
    (ros_phase st = AwaitingActivation \<longleftrightarrow> active s t e \<noteq> latest s t e \<and>
       (\<exists>c. latest s t e = Some c \<and> set (required_artifact_classes e) \<subseteq> acked s t e c))"
proof -
  from cutover_read [OF assms, of t e] obtain s' st where st:
    "cutover t e s = Inr (s', st)" "valid s'" "ccs_selector st = selector_target t e"
    "ccs_active_checkpoint_id st = active s t e" "latest s' t e = latest s t e"
    "active s' t e = active s t e" "acked s' t e = acked s t e" by blast
  from readiness_read [OF st(2), of t e] obtain acks where acks:
    "list_readiness t e s' = Inr (s', acks)"
    "\<forall>c. acked s' t e c = ara_artifact_class ` {ack \<in> set acks. ara_checkpoint_id ack = c}" by blast
  have sel: "sel_extension (ccs_selector st) = e" using st(3) by (simp add: selector_target_def)
  have ro: "ro_get_checkpoint_cutover_state cutover latest_committed t e s =
      Inr (s', st\<lparr>ccs_target_checkpoint_id := latest s t e\<rparr>)"
    using st sel latest_read [OF st(2)] by (simp add: ro_get_checkpoint_cutover_state_def)
  have ready: "readiness_satisfies_target acks (Some c) e \<longleftrightarrow>
      set (required_artifact_classes e) \<subseteq> acked s t e c" for c
    using acks(2) st(7) by (auto simp: readiness_satisfies_target_iff)
  have none: "\<not> readiness_satisfies_target acks None e"
    by (simp add: readiness_satisfies_target_def)
  from ro acks(1) show ?thesis
    by (cases "latest s t e")
      (auto simp: get_read_only_coordination_state_def target_phase_def sel st(4) ready none)
qed

end

end
