(* ===== verification/Service_State.thy ===== *)
theory Service_State
  imports Coordination
begin

section \<open>The state of the metadata service\<close>

text \<open>
  \<^verbatim>\<open>EphemeralServiceImpl\<close> (\<^verbatim>\<open>service_lib/src/ephemeral_service_impl.rs\<close>): its fields, the
  snapshot it is saved as and restored from, the string keys its maps use, and the helpers that
  read and write one field. Two things the code takes from outside are explicit: the clock, an
  argument \<open>now\<close> (one reading per operation), and the id generator of the \<^verbatim>\<open>idgenerator\<close>
  crate, an argument \<open>gen\<close> that gives the text of the \<open>n\<close>-th id of the process, with the
  count of ids drawn so far in the field \<open>id_seq\<close>. A panic is an error value; the state it
  leaves behind is not observed again.
\<close>

definition lease_length_ms :: millis where
  "lease_length_ms = 60 * 1000"

definition work_claim_lease_length_ms :: millis where
  "work_claim_lease_length_ms = 60 * 1000"

record extension_work_item_tracker =
  ewt_work_item :: extension_work_item
  ewt_lease_expires_at_ms :: "millis option"

record compaction_tracker =
  cwt_work_item :: compaction_work_item
  cwt_lease_expires_at_ms :: "millis option"

record cleanup_work_item_tracker =
  clt_work_item :: cleanup_work_item
  clt_lease_expires_at_ms :: "millis option"

type_synonym committed_checkpoints = "(string, string) hash_map"

record service_snapshot =
  sn_tables :: "(string, table_description) hash_map"
  sn_table_aliases :: "(string, string) hash_map"
  sn_table_templates :: "(string, create_index_template_body) hash_map"
  sn_pipelines :: "(string, pipeline_definition) hash_map"
  sn_lifetime_policies :: "(string, ilm_policy_definition) hash_map"
  sn_latest_committed_checkpoint_id :: "(string, committed_checkpoints) hash_map"
  sn_published_checkpoint_id :: "(string, string) hash_map"
  sn_checkpoint_publication_requests :: "(string, checkpoint_update_request) hash_map"
  sn_checkpoint_cutover_epochs :: "(string, cutover_epoch) hash_map"
  sn_cutover_membership_views :: "(string, cutover_membership_view) hash_map"
  sn_serving_node_leases :: "(string, serving_node_lease) hash_map"
  sn_serving_node_activations :: "(string, (string, serving_node_activation_ack) hash_map) hash_map"
  sn_artifact_readiness_acks :: "(string, (artifact_class, artifact_readiness_ack) hash_map) hash_map"
  sn_compaction_work_items :: "(string, compaction_tracker) hash_map"
  sn_not_compacted_checkpoint_ids :: "(string, string list) hash_map"
  sn_extension_work_items :: "(string, (string, extension_work_item_tracker) hash_map) hash_map"
  sn_cleanup_work_items :: "cleanup_work_item_tracker list"
  sn_compactions :: "(string, string \<times> compaction_commit) hash_map"
  sn_checkpoints :: "(string, table_metadata_checkpoint) hash_map"
  sn_checkpoints_needing_extension_work :: "(string, string list) hash_map"
  sn_recent_file_extension_metadata :: "(string, extension_file list) hash_map"

record service =
  mode :: test_processing_mode
  tables :: "(string, table_description) hash_map"
  table_aliases :: "(string, string) hash_map"
  table_templates :: "(string, create_index_template_body) hash_map"
  pipelines :: "(string, pipeline_definition) hash_map"
  lifetime_policies :: "(string, ilm_policy_definition) hash_map"
  latest_committed_checkpoint_id :: "(string option, committed_checkpoints) hash_map"
  published_checkpoint_id :: "(string, string) hash_map"
  checkpoint_publication_requests :: "(string, checkpoint_update_request) hash_map"
  checkpoint_cutover_epochs :: "(string, cutover_epoch) hash_map"
  cutover_membership_views :: "(string, cutover_membership_view) hash_map"
  serving_node_leases :: "(string, serving_node_lease) hash_map"
  serving_node_activations :: "(string, (string, serving_node_activation_ack) hash_map) hash_map"
  artifact_readiness_acks :: "(string, (artifact_class, artifact_readiness_ack) hash_map) hash_map"
  compaction_work_items :: "(string, compaction_tracker) hash_map"
  not_compacted_checkpoint_ids :: "(string, string list) hash_map"
  extension_work_items :: "(string, (string, extension_work_item_tracker) hash_map) hash_map"
  cleanup_work_items :: "cleanup_work_item_tracker list"
  compactions :: "(string, string \<times> compaction_commit) hash_map"
  checkpoints :: "(string, table_metadata_checkpoint) hash_map"
  checkpoints_needing_extension_work :: "(string, string list) hash_map"
  recent_file_extension_metadata :: "(string, extension_file list) hash_map"
  id_seq :: nat

subsection \<open>Keys\<close>

fun role_key :: "published_checkpoint_role \<Rightarrow> string" where
  "role_key Active = ''active''"
| "role_key Target = ''target''"

definition extension_storage_key :: "string option \<Rightarrow> string" where
  "extension_storage_key extension = (case extension of None \<Rightarrow> [] | Some e \<Rightarrow> e)"

definition extension_from_storage_key :: "string \<Rightarrow> string option" where
  "extension_from_storage_key key = (if key = [] then None else Some key)"

definition selector_storage_key ::
    "published_checkpoint_role \<Rightarrow> string \<Rightarrow> string option \<Rightarrow> string" where
  "selector_storage_key role table_name extension =
     role_key role @ ''|'' @ extension_storage_key extension @ ''|'' @ table_name"

definition selector_group_key :: "string \<Rightarrow> string option \<Rightarrow> string" where
  "selector_group_key table_name extension =
     extension_storage_key extension @ ''|'' @ table_name"

definition checkpoint_publication_request_key :: "string \<Rightarrow> string \<Rightarrow> string" where
  "checkpoint_publication_request_key org_id table_name = org_id @ ''|'' @ table_name"

definition checkpoint_key :: "string \<Rightarrow> string \<Rightarrow> string" where
  "checkpoint_key table_name checkpoint_id = table_name @ ''_'' @ checkpoint_id"

definition extension_work_key :: "string \<Rightarrow> string \<Rightarrow> string" where
  "extension_work_key table_name extension = table_name @ ''_'' @ extension"

definition recent_file_key :: "string \<Rightarrow> string \<Rightarrow> string \<Rightarrow> string" where
  "recent_file_key table_name extension file_name =
     table_name @ ''_'' @ extension @ ''_'' @ file_name"

subsection \<open>Snapshots\<close>

text \<open>
  The committed checkpoints are stored under text keys in a snapshot; the empty text stands for
  no extension. Collecting into a \<^verbatim>\<open>HashMap\<close> visits the entries in the map's own order.
\<close>

definition rekey :: "('a \<Rightarrow> 'b) \<Rightarrow> 'a list \<Rightarrow> ('a, 'v) hash_map \<Rightarrow> ('b, 'v) hash_map" where
  "rekey f order m =
     fold (\<lambda>k acc. case fmlookup m k of None \<Rightarrow> acc | Some v \<Rightarrow> fmupd (f k) v acc) order fmempty"

definition deserialize_latest_committed_checkpoint_id ::
    "string list \<Rightarrow> (string, committed_checkpoints) hash_map \<Rightarrow>
     (string option, committed_checkpoints) hash_map" where
  "deserialize_latest_committed_checkpoint_id = rekey extension_from_storage_key"

definition serialize_latest_committed_checkpoint_id ::
    "string option list \<Rightarrow> (string option, committed_checkpoints) hash_map \<Rightarrow>
     (string, committed_checkpoints) hash_map" where
  "serialize_latest_committed_checkpoint_id = rekey extension_storage_key"

definition snapshot_default :: service_snapshot where
  "snapshot_default =
     \<lparr>sn_tables = fmempty, sn_table_aliases = fmempty, sn_table_templates = fmempty,
      sn_pipelines = fmempty, sn_lifetime_policies = fmempty,
      sn_latest_committed_checkpoint_id = fmempty, sn_published_checkpoint_id = fmempty,
      sn_checkpoint_publication_requests = fmempty, sn_checkpoint_cutover_epochs = fmempty,
      sn_cutover_membership_views = fmempty, sn_serving_node_leases = fmempty,
      sn_serving_node_activations = fmempty, sn_artifact_readiness_acks = fmempty,
      sn_compaction_work_items = fmempty, sn_not_compacted_checkpoint_ids = fmempty,
      sn_extension_work_items = fmempty, sn_cleanup_work_items = [], sn_compactions = fmempty,
      sn_checkpoints = fmempty, sn_checkpoints_needing_extension_work = fmempty,
      sn_recent_file_extension_metadata = fmempty\<rparr>"

definition from_snapshot ::
    "string list \<Rightarrow> nat \<Rightarrow> test_processing_mode \<Rightarrow> service_snapshot \<Rightarrow> service" where
  "from_snapshot order seq md snapshot =
     \<lparr>mode = md, tables = sn_tables snapshot, table_aliases = sn_table_aliases snapshot,
      table_templates = sn_table_templates snapshot, pipelines = sn_pipelines snapshot,
      lifetime_policies = sn_lifetime_policies snapshot,
      latest_committed_checkpoint_id = deserialize_latest_committed_checkpoint_id order
        (sn_latest_committed_checkpoint_id snapshot),
      published_checkpoint_id = sn_published_checkpoint_id snapshot,
      checkpoint_publication_requests = sn_checkpoint_publication_requests snapshot,
      checkpoint_cutover_epochs = sn_checkpoint_cutover_epochs snapshot,
      cutover_membership_views = sn_cutover_membership_views snapshot,
      serving_node_leases = sn_serving_node_leases snapshot,
      serving_node_activations = sn_serving_node_activations snapshot,
      artifact_readiness_acks = sn_artifact_readiness_acks snapshot,
      compaction_work_items = sn_compaction_work_items snapshot,
      not_compacted_checkpoint_ids = sn_not_compacted_checkpoint_ids snapshot,
      extension_work_items =
        (if sn_extension_work_items snapshot = fmempty then fmupd ''es'' fmempty fmempty
         else sn_extension_work_items snapshot),
      cleanup_work_items = sn_cleanup_work_items snapshot,
      compactions = sn_compactions snapshot, checkpoints = sn_checkpoints snapshot,
      checkpoints_needing_extension_work = sn_checkpoints_needing_extension_work snapshot,
      recent_file_extension_metadata = sn_recent_file_extension_metadata snapshot,
      id_seq = seq\<rparr>"

definition service_new :: "nat \<Rightarrow> test_processing_mode \<Rightarrow> service" where
  "service_new seq md = from_snapshot [] seq md snapshot_default"

definition snapshot_state :: "string option list \<Rightarrow> service \<Rightarrow> service_snapshot" where
  "snapshot_state order s =
     \<lparr>sn_tables = tables s, sn_table_aliases = table_aliases s,
      sn_table_templates = table_templates s, sn_pipelines = pipelines s,
      sn_lifetime_policies = lifetime_policies s,
      sn_latest_committed_checkpoint_id = serialize_latest_committed_checkpoint_id order
        (latest_committed_checkpoint_id s),
      sn_published_checkpoint_id = published_checkpoint_id s,
      sn_checkpoint_publication_requests = checkpoint_publication_requests s,
      sn_checkpoint_cutover_epochs = checkpoint_cutover_epochs s,
      sn_cutover_membership_views = cutover_membership_views s,
      sn_serving_node_leases = serving_node_leases s,
      sn_serving_node_activations = serving_node_activations s,
      sn_artifact_readiness_acks = artifact_readiness_acks s,
      sn_compaction_work_items = compaction_work_items s,
      sn_not_compacted_checkpoint_ids = not_compacted_checkpoint_ids s,
      sn_extension_work_items = extension_work_items s,
      sn_cleanup_work_items = cleanup_work_items s, sn_compactions = compactions s,
      sn_checkpoints = checkpoints s,
      sn_checkpoints_needing_extension_work = checkpoints_needing_extension_work s,
      sn_recent_file_extension_metadata = recent_file_extension_metadata s\<rparr>"

subsection \<open>Clock, leases, ids\<close>

definition claim_lease_expires_at_ms :: "millis \<Rightarrow> millis" where
  "claim_lease_expires_at_ms now = now + work_claim_lease_length_ms"

definition lease_is_available :: "millis \<Rightarrow> millis option \<Rightarrow> bool" where
  "lease_is_available now lease_expires_at_ms =
     (case lease_expires_at_ms of None \<Rightarrow> True | Some expires_at_ms \<Rightarrow> expires_at_ms \<le> now)"

definition draw_id :: "service \<Rightarrow> service" where
  "draw_id s = s\<lparr>id_seq := Suc (id_seq s)\<rparr>"

subsection \<open>Reading one field\<close>

definition real_table_name :: "service \<Rightarrow> string \<Rightarrow> string" where
  "real_table_name s table_name = hm_get_or table_name (table_aliases s) table_name"

definition get_latest_materialized_checkpoint_sync ::
    "service \<Rightarrow> string \<Rightarrow> string option \<Rightarrow> string option" where
  "get_latest_materialized_checkpoint_sync s table_name extensions =
     (case fmlookup (latest_committed_checkpoint_id s) extensions of
        None \<Rightarrow> None
      | Some c \<Rightarrow> fmlookup c (real_table_name s table_name))"

definition get_published_checkpoint_sync ::
    "service \<Rightarrow> published_checkpoint_role \<Rightarrow> string \<Rightarrow> string option \<Rightarrow> string option" where
  "get_published_checkpoint_sync s role table_name extension =
     fmlookup (published_checkpoint_id s) (selector_storage_key role table_name extension)"

definition set_published_checkpoint ::
    "published_checkpoint_role \<Rightarrow> string \<Rightarrow> string option \<Rightarrow> string \<Rightarrow> service \<Rightarrow> service" where
  "set_published_checkpoint role table_name extension checkpoint_id s =
     s\<lparr>published_checkpoint_id := fmupd (selector_storage_key role table_name extension)
         checkpoint_id (published_checkpoint_id s)\<rparr>"

definition get_checkpoint_sync :: "service \<Rightarrow> string \<Rightarrow> string \<Rightarrow> table_metadata_checkpoint option" where
  "get_checkpoint_sync s table_name checkpoint_id =
     fmlookup (checkpoints s) (checkpoint_key table_name checkpoint_id)"

definition checkpoints_needing_extension_work_for ::
    "service \<Rightarrow> string \<Rightarrow> string \<Rightarrow> string list option" where
  "checkpoints_needing_extension_work_for s table_name extension_name =
     fmlookup (checkpoints_needing_extension_work s) (extension_work_key table_name extension_name)"

definition recent_file_extension_metadata_for ::
    "service \<Rightarrow> string \<Rightarrow> string \<Rightarrow> string \<Rightarrow> extension_file list option" where
  "recent_file_extension_metadata_for s table_name extension_name file_name =
     fmlookup (recent_file_extension_metadata s) (recent_file_key table_name extension_name file_name)"

definition set_latest_committed_checkpoint_id ::
    "string option \<Rightarrow> string \<Rightarrow> string \<Rightarrow> service \<Rightarrow> service" where
  "set_latest_committed_checkpoint_id extension table_name checkpoint_id s =
     s\<lparr>latest_committed_checkpoint_id :=
         fmupd extension
           (fmupd table_name checkpoint_id
              (hm_get_or fmempty (latest_committed_checkpoint_id s) extension))
           (latest_committed_checkpoint_id s)\<rparr>"

definition set_latest_committed_checkpoint ::
    "string \<Rightarrow> string option \<Rightarrow> string \<Rightarrow> service \<Rightarrow> service" where
  "set_latest_committed_checkpoint table_name extensions checkpoint_id s =
     s\<lparr>latest_committed_checkpoint_id :=
         fmupd extensions
           (fmupd (real_table_name s table_name) checkpoint_id
              (hm_get_or fmempty (latest_committed_checkpoint_id s) extensions))
           (latest_committed_checkpoint_id s)\<rparr>"

definition queue_publication_request :: "string \<Rightarrow> string \<Rightarrow> service \<Rightarrow> service" where
  "queue_publication_request org_id table_name s =
     s\<lparr>checkpoint_publication_requests :=
         fmupd (checkpoint_publication_request_key org_id table_name)
           (update_request_new table_name) (checkpoint_publication_requests s)\<rparr>"

subsection \<open>Keys do not collide\<close>

lemma sep_prefix_inj:
  "c \<notin> set a \<Longrightarrow> c \<notin> set b \<Longrightarrow> a @ c # x = b @ c # y \<longleftrightarrow> a = b \<and> x = y"
proof (induction a arbitrary: b)
  case Nil
  then show ?case by (cases b) auto
next
  case (Cons z a)
  then show ?case by (cases b) auto
qed

lemma sep_suffix_inj:
  assumes "c \<notin> set a" "c \<notin> set b"
  shows "x @ c # a = y @ c # b \<longleftrightarrow> x = y \<and> a = b"
proof -
  have "x @ c # a = y @ c # b \<longleftrightarrow> rev (x @ c # a) = rev (y @ c # b)"
    by (simp only: rev_is_rev_conv)
  also have "\<dots> \<longleftrightarrow> rev a @ c # rev x = rev b @ c # rev y" by simp
  also have "\<dots> \<longleftrightarrow> rev a = rev b \<and> rev x = rev y"
    using assms by (intro sep_prefix_inj) auto
  finally show ?thesis by auto
qed

text \<open>An extension name a key can carry: not empty and without the separator.\<close>

definition proper_extension :: "string option \<Rightarrow> bool" where
  "proper_extension e = (case e of None \<Rightarrow> True | Some x \<Rightarrow> x \<noteq> [] \<and> CHR ''|'' \<notin> set x)"

lemma extension_storage_key_inj:
  "proper_extension e \<Longrightarrow> proper_extension e' \<Longrightarrow>
     extension_storage_key e = extension_storage_key e' \<longleftrightarrow> e = e'"
  by (auto simp: extension_storage_key_def proper_extension_def split: option.splits)

lemma extension_storage_key_sep: "proper_extension e \<Longrightarrow> CHR ''|'' \<notin> set (extension_storage_key e)"
  by (auto simp: extension_storage_key_def proper_extension_def split: option.splits)

lemma selector_group_key_inj:
  assumes "proper_extension e" "proper_extension e'"
  shows "selector_group_key t e = selector_group_key t' e' \<longleftrightarrow> t = t' \<and> e = e'"
  using sep_prefix_inj [OF extension_storage_key_sep [OF assms(1)] extension_storage_key_sep [OF assms(2)]]
  by (auto simp: selector_group_key_def extension_storage_key_inj [OF assms])

lemma role_key_append: "role_key r @ x = role_key r' @ y \<longleftrightarrow> r = r' \<and> x = y"
  by (cases r; cases r') auto

lemma selector_storage_key_inj:
  assumes "proper_extension e" "proper_extension e'"
  shows "selector_storage_key r t e = selector_storage_key r' t' e' \<longleftrightarrow> r = r' \<and> t = t' \<and> e = e'"
  using selector_group_key_inj [OF assms]
  by (auto simp: selector_storage_key_def selector_group_key_def role_key_append)

lemma checkpoint_key_inj:
  "CHR ''_'' \<notin> set c \<Longrightarrow> CHR ''_'' \<notin> set c' \<Longrightarrow>
     checkpoint_key t c = checkpoint_key t' c' \<longleftrightarrow> t = t' \<and> c = c'"
  by (simp add: checkpoint_key_def sep_suffix_inj)

subsection \<open>Saving and restoring\<close>

lemma rekey_fold_other:
  "(\<And>k. k \<in> set order \<Longrightarrow> fmlookup m k \<noteq> None \<Longrightarrow> f k \<noteq> y) \<Longrightarrow>
     fmlookup (fold (\<lambda>k acc. case fmlookup m k of None \<Rightarrow> acc | Some v \<Rightarrow> fmupd (f k) v acc) order acc) y =
     fmlookup acc y"
  by (induction order arbitrary: acc) (auto split: option.splits)

lemma rekey_fold_hit:
  "k \<in> set order \<Longrightarrow> inj_on f (set order) \<Longrightarrow> distinct order \<Longrightarrow> fmlookup m k = Some v \<Longrightarrow>
     fmlookup (fold (\<lambda>k acc. case fmlookup m k of None \<Rightarrow> acc | Some v \<Rightarrow> fmupd (f k) v acc) order acc) (f k) =
     Some v"
proof (induction order arbitrary: acc)
  case (Cons x order)
  show ?case
  proof (cases "k = x")
    case True
    with Cons.prems have "f j \<noteq> f k" if "j \<in> set order" for j
      using that by (auto simp: inj_on_def)
    with True Cons.prems show ?thesis by (simp add: rekey_fold_other)
  next
    case False
    with Cons show ?thesis by (auto simp: inj_on_insert)
  qed
qed simp

lemma rekey_lookup:
  assumes "iter_order order m" "inj_on f (fmdom' m)"
  shows "k \<in> fmdom' m \<Longrightarrow> fmlookup (rekey f order m) (f k) = fmlookup m k"
    and "y \<notin> f ` fmdom' m \<Longrightarrow> fmlookup (rekey f order m) y = None"
proof -
  assume "k \<in> fmdom' m"
  then obtain v where "fmlookup m k = Some v" by (auto simp: fmlookup_dom'_iff)
  with assms \<open>k \<in> fmdom' m\<close> show "fmlookup (rekey f order m) (f k) = fmlookup m k"
    unfolding rekey_def by (subst rekey_fold_hit) (auto simp: iter_order_def)
next
  assume "y \<notin> f ` fmdom' m"
  with assms show "fmlookup (rekey f order m) y = None"
    unfolding rekey_def by (subst rekey_fold_other) (auto simp: iter_order_def)
qed

lemma rekey_dom:
  assumes "iter_order order m" "inj_on f (fmdom' m)"
  shows "fmdom' (rekey f order m) = f ` fmdom' m"
proof (intro set_eqI iffI)
  fix y assume "y \<in> fmdom' (rekey f order m)"
  then show "y \<in> f ` fmdom' m" using rekey_lookup(2) [OF assms] by (force simp: fmlookup_dom'_iff)
next
  fix y assume "y \<in> f ` fmdom' m"
  then show "y \<in> fmdom' (rekey f order m)"
    using rekey_lookup(1) [OF assms] by (force simp: fmlookup_dom'_iff)
qed

lemma rekey_inverse:
  assumes ord: "iter_order order m" "iter_order order' (rekey f order m)"
    and inv: "\<And>k. k \<in> fmdom' m \<Longrightarrow> g (f k) = k"
  shows "rekey g order' (rekey f order m) = m"
proof (rule fmap_ext)
  fix k
  from inv have inj: "inj_on f (fmdom' m)" by (metis inj_onI)
  note dom = rekey_dom [OF ord(1) inj]
  have inj': "inj_on g (fmdom' (rekey f order m))" unfolding dom using inv by (auto simp: inj_on_def)
  show "fmlookup (rekey g order' (rekey f order m)) k = fmlookup m k"
  proof (cases "k \<in> fmdom' m")
    case True
    with rekey_lookup(1) [OF ord(2) inj', of "f k"] rekey_lookup(1) [OF ord(1) inj] inv dom
    show ?thesis by auto
  next
    case False
    then have "k \<notin> g ` fmdom' (rekey f order m)" unfolding dom using inv by auto
    with rekey_lookup(2) [OF ord(2) inj'] False show ?thesis by (simp add: fmdom'_notD)
  qed
qed

lemma snapshot_restores:
  assumes "iter_order order (latest_committed_checkpoint_id s)"
    and "iter_order order' (sn_latest_committed_checkpoint_id (snapshot_state order s))"
    and "Some [] \<notin> fmdom' (latest_committed_checkpoint_id s)"
    and "extension_work_items s \<noteq> fmempty"
  shows "from_snapshot order' (id_seq s) (mode s) (snapshot_state order s) = s"
proof -
  have "rekey extension_from_storage_key order'
      (rekey extension_storage_key order (latest_committed_checkpoint_id s)) =
      latest_committed_checkpoint_id s"
  proof (rule rekey_inverse)
    show "extension_from_storage_key (extension_storage_key k) = k"
      if "k \<in> fmdom' (latest_committed_checkpoint_id s)" for k
      using that assms(3)
      by (auto simp: extension_from_storage_key_def extension_storage_key_def split: option.split)
  qed (use assms(1,2) in \<open>simp_all add: snapshot_state_def serialize_latest_committed_checkpoint_id_def\<close>)
  with assms(4) show ?thesis
    by (simp add: from_snapshot_def snapshot_state_def deserialize_latest_committed_checkpoint_id_def
        serialize_latest_committed_checkpoint_id_def)
qed

text \<open>
  C15. Saving the service and restoring it gives the service back, in whatever order the maps
  are visited, as long as no extension has the empty name (its key would be the key of \<^verbatim>\<open>None\<close>)
  and the work-item map, which \<^verbatim>\<open>new\<close> fills with \<^verbatim>\<open>es\<close>, is not empty.
\<close>

theorem snapshot_round_trip:
  assumes "iter_order order (latest_committed_checkpoint_id s)"
    and "iter_order order' (sn_latest_committed_checkpoint_id (snapshot_state order s))"
    and "Some [] \<notin> fmdom' (latest_committed_checkpoint_id s)"
    and "extension_work_items s \<noteq> fmempty"
  shows "from_snapshot order' (id_seq s) (mode s) (snapshot_state order s) = s"
  by (rule snapshot_restores [OF assms])

lemma snapshot_round_trip_witness:
  "from_snapshot [''es''] 7 ephemeral_default
     (snapshot_state [Some ''es'']
       (set_latest_committed_checkpoint_id (Some ''es'') ''t'' ''c'' (service_new 7 ephemeral_default))) =
   set_latest_committed_checkpoint_id (Some ''es'') ''t'' ''c'' (service_new 7 ephemeral_default)"
  (is "from_snapshot _ _ _ (snapshot_state _ ?s) = ?s")
proof -
  have latest: "latest_committed_checkpoint_id ?s = fmupd (Some ''es'') (fmupd ''t'' ''c'' fmempty) fmempty"
    and simple: "id_seq ?s = 7" "mode ?s = ephemeral_default" "extension_work_items ?s \<noteq> fmempty"
    by (simp_all add: set_latest_committed_checkpoint_id_def service_new_def from_snapshot_def
        snapshot_default_def deserialize_latest_committed_checkpoint_id_def rekey_def)
  have "sn_latest_committed_checkpoint_id (snapshot_state [Some ''es''] ?s) =
      fmupd ''es'' (fmupd ''t'' ''c'' fmempty) fmempty"
    by (simp add: snapshot_state_def latest serialize_latest_committed_checkpoint_id_def rekey_def
        extension_storage_key_def)
  with snapshot_round_trip [of "[Some ''es'']" ?s "[''es'']"] show ?thesis
    by (simp add: latest simple iter_order_def)
qed

end
