(* ===== verification/Service_Cutover.thy ===== *)
theory Service_Cutover
  imports Service_State
begin

section \<open>Publication: epochs, membership, activation, promotion\<close>

text \<open>
  How a committed checkpoint becomes the one that is served
  (\<^verbatim>\<open>ephemeral_service_impl.rs\<close>): a target is announced to the nodes that are alive (a
  membership view under a fresh epoch), producers acknowledge the artifacts they built for it,
  nodes acknowledge that they activated it under that epoch, and only then the target is
  promoted to active. Each function is the method of the same name; the ones that return a
  value return it beside the new state.
\<close>

subsection \<open>Epochs and membership views\<close>

definition bump_cutover_epoch :: "string \<Rightarrow> string option \<Rightarrow> service \<Rightarrow> service \<times> cutover_epoch" where
  "bump_cutover_epoch table_name extension s =
     (let key = selector_group_key table_name extension;
          epoch = hm_get_or 0 (checkpoint_cutover_epochs s) key + 1 in
      (s\<lparr>checkpoint_cutover_epochs := fmupd key epoch (checkpoint_cutover_epochs s)\<rparr>, epoch))"

definition clear_serving_node_activations :: "string \<Rightarrow> string option \<Rightarrow> service \<Rightarrow> service" where
  "clear_serving_node_activations table_name extension s =
     s\<lparr>serving_node_activations :=
         fmdrop (selector_group_key table_name extension) (serving_node_activations s)\<rparr>"

definition clear_artifact_readiness :: "string \<Rightarrow> string option \<Rightarrow> service \<Rightarrow> service" where
  "clear_artifact_readiness table_name extension s =
     s\<lparr>artifact_readiness_acks :=
         fmdrop (selector_group_key table_name extension) (artifact_readiness_acks s)\<rparr>"

definition get_cutover_membership_view ::
    "service \<Rightarrow> string \<Rightarrow> string option \<Rightarrow> cutover_membership_view option" where
  "get_cutover_membership_view s table_name extension =
     fmlookup (cutover_membership_views s) (selector_group_key table_name extension)"

definition store_cutover_membership_view ::
    "string \<Rightarrow> string option \<Rightarrow> cutover_epoch \<Rightarrow> string \<Rightarrow> string list \<Rightarrow> service \<Rightarrow> service" where
  "store_cutover_membership_view table_name extension epoch target required_node_ids s =
     s\<lparr>cutover_membership_views :=
         fmupd (selector_group_key table_name extension)
           \<lparr>cmv_selector = selector_target table_name extension, cmv_epoch = epoch,
            cmv_target_checkpoint_id = target, cmv_required_node_ids = required_node_ids\<rparr>
           (cutover_membership_views s)\<rparr>"

definition prune_expired_serving_node_leases :: "millis \<Rightarrow> service \<Rightarrow> service" where
  "prune_expired_serving_node_leases now s =
     (let earliest_live_ms = now - lease_length_ms in
      s\<lparr>serving_node_leases :=
          hm_retain (\<lambda>_ lease. snl_observed_at_ms lease \<ge> earliest_live_ms) (serving_node_leases s)\<rparr>)"

definition live_serving_node_ids :: "millis \<Rightarrow> service \<Rightarrow> service \<times> string fset" where
  "live_serving_node_ids now s =
     (let s' = prune_expired_serving_node_leases now s in (s', fmdom (serving_node_leases s')))"

definition maybe_reconfigure_cutover_membership_for_target ::
    "millis \<Rightarrow> string \<Rightarrow> string option \<Rightarrow> string \<Rightarrow> service \<Rightarrow> service" where
  "maybe_reconfigure_cutover_membership_for_target now table_name extension target s =
     (case get_cutover_membership_view s table_name extension of
        None \<Rightarrow> s
      | Some existing_view \<Rightarrow>
          if cmv_target_checkpoint_id existing_view \<noteq> target then s
          else
            (let (s1, live) = live_serving_node_ids now s in
             if live = {||} then s1
             else if list_all (\<lambda>node_id. node_id |\<in>| live) (cmv_required_node_ids existing_view) then s1
             else
               (let required_node_ids = sorted_list_of_fset live;
                    (s2, epoch) = bump_cutover_epoch table_name extension s1;
                    s3 = store_cutover_membership_view table_name extension epoch target
                           required_node_ids s2 in
                clear_serving_node_activations table_name extension s3)))"

definition capture_cutover_membership_for_target ::
    "millis \<Rightarrow> string \<Rightarrow> string option \<Rightarrow> string \<Rightarrow> service \<Rightarrow> service" where
  "capture_cutover_membership_for_target now table_name extension target s =
     (if (case get_cutover_membership_view s table_name extension of
            None \<Rightarrow> False
          | Some view \<Rightarrow> cmv_target_checkpoint_id view = target) then s
      else
        (let (s1, live) = live_serving_node_ids now s;
             required_node_ids = sorted_list_of_fset live;
             (s2, epoch) = bump_cutover_epoch table_name extension s1;
             s3 = store_cutover_membership_view table_name extension epoch target
                    required_node_ids s2 in
         clear_serving_node_activations table_name extension s3))"

definition backfill_cutover_membership_for_target ::
    "millis \<Rightarrow> string \<Rightarrow> string option \<Rightarrow> string \<Rightarrow> service \<Rightarrow> service" where
  "backfill_cutover_membership_for_target now table_name extension target s =
     (case get_cutover_membership_view s table_name extension of
        None \<Rightarrow> s
      | Some existing_view \<Rightarrow>
          if cmv_target_checkpoint_id existing_view \<noteq> target \<or>
             cmv_required_node_ids existing_view \<noteq> [] then s
          else
            (let (s1, live) = live_serving_node_ids now s;
                 required_node_ids = sorted_list_of_fset live in
             if required_node_ids = [] then s1
             else store_cutover_membership_view table_name extension (cmv_epoch existing_view)
                    target required_node_ids s1))"

subsection \<open>Publication requests and promotion\<close>

definition published_checkpoint_needs_activation :: "service \<Rightarrow> string \<Rightarrow> string option \<Rightarrow> bool" where
  "published_checkpoint_needs_activation s table_name extension =
     (case get_latest_materialized_checkpoint_sync s table_name extension of
        Some target \<Rightarrow> get_published_checkpoint_sync s Active table_name extension \<noteq> Some target
      | None \<Rightarrow> False)"

definition checkpoint_publication_still_pending :: "service \<Rightarrow> string \<Rightarrow> bool" where
  "checkpoint_publication_still_pending s table_name =
     ((case fmlookup (extension_work_items s) ''es'' of
         None \<Rightarrow> False
       | Some items \<Rightarrow>
           (case fmlookup items table_name of
              None \<Rightarrow> False
            | Some item \<Rightarrow> has_work (ewt_work_item item))) \<or>
      hm_contains (checkpoints_needing_extension_work s) (extension_work_key table_name ''es'') \<or>
      published_checkpoint_needs_activation s table_name None \<or>
      published_checkpoint_needs_activation s table_name (Some ''es''))"

definition advance_target_checkpoint ::
    "millis \<Rightarrow> string \<Rightarrow> string option \<Rightarrow> service \<Rightarrow> service \<times> bool" where
  "advance_target_checkpoint now table_name extension s =
     (case get_latest_materialized_checkpoint_sync s table_name extension of
        None \<Rightarrow> (s, False)
      | Some checkpoint_id \<Rightarrow>
          (let previous_target =
                 map_option cmv_target_checkpoint_id (get_cutover_membership_view s table_name extension);
               s1 = (if previous_target \<noteq> Some checkpoint_id
                     then clear_artifact_readiness table_name extension s else s);
               s2 = capture_cutover_membership_for_target now table_name extension checkpoint_id s1 in
           (s2, previous_target \<noteq> Some checkpoint_id)))"

definition activation_matches_target ::
    "millis \<Rightarrow> string \<Rightarrow> string option \<Rightarrow> string \<Rightarrow> service \<Rightarrow> service \<times> bool" where
  "activation_matches_target now table_name extension target s =
     (let s1 = backfill_cutover_membership_for_target now table_name extension target s;
          s2 = maybe_reconfigure_cutover_membership_for_target now table_name extension target s1 in
      case get_cutover_membership_view s2 table_name extension of
        None \<Rightarrow> (s2, False)
      | Some view \<Rightarrow>
          if cmv_target_checkpoint_id view \<noteq> target \<or> cmv_required_node_ids view = [] then (s2, False)
          else
            (case fmlookup (serving_node_activations s2) (selector_group_key table_name extension) of
               None \<Rightarrow> (s2, False)
             | Some acks \<Rightarrow>
                 (s2, list_all (\<lambda>node_id. case fmlookup acks node_id of
                        None \<Rightarrow> False
                      | Some ack \<Rightarrow> sna_checkpoint_id ack = target \<and> sna_epoch ack = cmv_epoch view)
                    (cmv_required_node_ids view))))"

definition readiness_matches_target :: "service \<Rightarrow> string \<Rightarrow> string option \<Rightarrow> string \<Rightarrow> bool" where
  "readiness_matches_target s table_name extension target =
     (case fmlookup (artifact_readiness_acks s) (selector_group_key table_name extension) of
        None \<Rightarrow> False
      | Some acks \<Rightarrow>
          list_all (\<lambda>c. case fmlookup acks c of
              None \<Rightarrow> False
            | Some ack \<Rightarrow> ara_checkpoint_id ack = target) (required_artifact_classes extension))"

definition promote_active_checkpoint_if_ready ::
    "millis \<Rightarrow> string \<Rightarrow> string option \<Rightarrow> service \<Rightarrow> service \<times> bool" where
  "promote_active_checkpoint_if_ready now table_name extension s =
     (case get_latest_materialized_checkpoint_sync s table_name extension of
        None \<Rightarrow> (s, False)
      | Some target \<Rightarrow>
          if get_published_checkpoint_sync s Active table_name extension = Some target then (s, False)
          else if \<not> readiness_matches_target s table_name extension target then (s, False)
          else
            (let (s1, activated) = activation_matches_target now table_name extension target s in
             if \<not> activated then (s1, False)
             else (set_published_checkpoint Active table_name extension target s1, True)))"

definition publish_request :: "millis \<Rightarrow> service \<times> bool \<Rightarrow> checkpoint_update_request \<Rightarrow> service \<times> bool" where
  "publish_request now acc request =
     (let t = cur_table_name request;
          (s, work_done) = acc;
          (s1, b1) = advance_target_checkpoint now t None s;
          (s2, b2) = promote_active_checkpoint_if_ready now t None s1;
          (s3, b3) = advance_target_checkpoint now t (Some ''es'') s2;
          (s4, b4) = promote_active_checkpoint_if_ready now t (Some ''es'') s3;
          s5 = (if \<not> checkpoint_publication_still_pending s4 t then
                  s4\<lparr>checkpoint_publication_requests :=
                       fmdrop (checkpoint_publication_request_key default_metadata_namespace t)
                         (checkpoint_publication_requests s4)\<rparr>
                else s4) in
      (s5, work_done \<or> b1 \<or> b2 \<or> b3 \<or> b4))"

text \<open>The requests are collected before the loop, in the map's order.\<close>

definition update_all_checkpoints :: "millis \<Rightarrow> string list \<Rightarrow> service \<Rightarrow> service \<times> bool" where
  "update_all_checkpoints now order s =
     foldl (publish_request now) (s, False)
       (List.map_filter (fmlookup (checkpoint_publication_requests s)) order)"

subsection \<open>Methods of the store interface\<close>

definition queue_checkpoint_publication :: "checkpoint_update_request \<Rightarrow> (service, unit) op" where
  "queue_checkpoint_publication request s =
     Inr (queue_publication_request default_metadata_namespace (cur_table_name request) s, ())"

definition get_latest_committed_checkpoint :: "string \<Rightarrow> string option \<Rightarrow> (service, string option) op" where
  "get_latest_committed_checkpoint table_name extension s =
     Inr (s, get_latest_materialized_checkpoint_sync s table_name extension)"

definition get_published_active_checkpoint :: "string \<Rightarrow> string option \<Rightarrow> (service, string option) op" where
  "get_published_active_checkpoint table_name extension s =
     Inr (s, get_published_checkpoint_sync s Active table_name extension)"

definition get_published_checkpoint_record ::
    "published_checkpoint_selector \<Rightarrow> (service, published_checkpoint_record option) op" where
  "get_published_checkpoint_record selector s =
     Inr (s, map_option (\<lambda>c. \<lparr>pcr_selector = selector, pcr_checkpoint_id = c\<rparr>)
       (get_published_checkpoint_sync s (sel_role selector) (sel_table_name selector)
         (sel_extension selector)))"

definition plan_checkpoint_cutover :: "millis \<Rightarrow> checkpoint_cutover_request \<Rightarrow> (service, unit) op" where
  "plan_checkpoint_cutover now request s =
     (let t = sel_table_name (ccr_selector request);
          e = sel_extension (ccr_selector request);
          target = ccr_target_checkpoint_id request in
      Inr (if get_published_checkpoint_sync s Target t e \<noteq> Some target
           then capture_cutover_membership_for_target now t e target
                  (set_published_checkpoint Target t e target s)
           else s, ()))"

definition get_checkpoint_cutover_state ::
    "millis \<Rightarrow> string \<Rightarrow> string option \<Rightarrow> (service, checkpoint_cutover_state) op" where
  "get_checkpoint_cutover_state now table_name extension s =
     (let target = get_latest_materialized_checkpoint_sync s table_name extension;
          s1 = (case target of
                  None \<Rightarrow> s
                | Some t \<Rightarrow> backfill_cutover_membership_for_target now table_name extension t
                    (capture_cutover_membership_for_target now table_name extension t s));
          key = selector_group_key table_name extension;
          current = (case get_cutover_membership_view s1 table_name extension of
                       None \<Rightarrow> None
                     | Some view \<Rightarrow>
                         if Some (cmv_target_checkpoint_id view) = target then Some (cmv_epoch view)
                         else None) in
      Inr (s1, \<lparr>ccs_selector = selector_target table_name extension,
                ccs_epoch = (case current of
                   Some epoch \<Rightarrow> epoch
                 | None \<Rightarrow> hm_get_or 0 (checkpoint_cutover_epochs s1) key),
                ccs_active_checkpoint_id = get_published_checkpoint_sync s1 Active table_name extension,
                ccs_target_checkpoint_id = target\<rparr>))"

definition heartbeat_serving_node :: "millis \<Rightarrow> serving_node_lease \<Rightarrow> (service, unit) op" where
  "heartbeat_serving_node now lease s =
     (let s1 = prune_expired_serving_node_leases now s in
      Inr (s1\<lparr>serving_node_leases := fmupd (snl_node_id lease) lease (serving_node_leases s1)\<rparr>, ()))"

definition record_serving_node_activation :: "serving_node_activation_ack \<Rightarrow> (service, unit) op" where
  "record_serving_node_activation ack s =
     (let key = selector_group_key (sel_table_name (sna_selector ack)) (sel_extension (sna_selector ack)) in
      Inr (s\<lparr>serving_node_activations :=
               fmupd key (fmupd (sna_node_id ack) ack (hm_get_or fmempty (serving_node_activations s) key))
                 (serving_node_activations s)\<rparr>, ()))"

definition list_serving_node_activations ::
    "string list \<Rightarrow> string \<Rightarrow> string option \<Rightarrow> (service, serving_node_activation_ack list) op" where
  "list_serving_node_activations order table_name extension s =
     Inr (s, case fmlookup (serving_node_activations s) (selector_group_key table_name extension) of
               None \<Rightarrow> []
             | Some acks \<Rightarrow> List.map_filter (fmlookup acks) order)"

definition record_artifact_readiness :: "artifact_readiness_ack \<Rightarrow> (service, unit) op" where
  "record_artifact_readiness ack s =
     (let key = selector_group_key (sel_table_name (ara_selector ack)) (sel_extension (ara_selector ack)) in
      Inr (s\<lparr>artifact_readiness_acks :=
               fmupd key (fmupd (ara_artifact_class ack) ack
                   (hm_get_or fmempty (artifact_readiness_acks s) key))
                 (artifact_readiness_acks s)\<rparr>, ()))"

text \<open>
  The acknowledgements are listed in the map's own order, here any function from the map to an
  enumeration of its keys.
\<close>

definition list_artifact_readiness ::
    "((artifact_class, artifact_readiness_ack) hash_map \<Rightarrow> artifact_class list) \<Rightarrow>
     string \<Rightarrow> string option \<Rightarrow> (service, artifact_readiness_ack list) op" where
  "list_artifact_readiness order table_name extension s =
     Inr (s, case fmlookup (artifact_readiness_acks s) (selector_group_key table_name extension) of
               None \<Rightarrow> []
             | Some acks \<Rightarrow> List.map_filter (fmlookup acks) (order acks))"

definition get_checkpoint :: "checkpoint_descriptor \<Rightarrow> (service, table_metadata_checkpoint option) op" where
  "get_checkpoint d s = Inr (s, get_checkpoint_sync s (cd_table_name d) (cd_checkpoint_id d))"

definition get_checkpoint_metadata ::
    "checkpoint_descriptor \<Rightarrow> (service, table_metadata_checkpoint option) op" where
  "get_checkpoint_metadata = get_checkpoint"

definition advance_published_checkpoints :: "millis \<Rightarrow> string list \<Rightarrow> (service, bool) op" where
  "advance_published_checkpoints now order s = Inr (update_all_checkpoints now order s)"

subsection \<open>What the membership functions touch\<close>

text \<open>
  \<open>rest\<close> forgets the four fields the membership functions write; they keep everything else.
\<close>

definition rest :: "service \<Rightarrow> service" where
  "rest s = s\<lparr>serving_node_leases := fmempty, checkpoint_cutover_epochs := fmempty,
     cutover_membership_views := fmempty, serving_node_activations := fmempty\<rparr>"

lemma restD:
  assumes "rest s' = rest s"
  shows "published_checkpoint_id s' = published_checkpoint_id s"
    "latest_committed_checkpoint_id s' = latest_committed_checkpoint_id s"
    "table_aliases s' = table_aliases s" "artifact_readiness_acks s' = artifact_readiness_acks s"
    "checkpoint_publication_requests s' = checkpoint_publication_requests s"
    "extension_work_items s' = extension_work_items s" "checkpoints s' = checkpoints s"
    "checkpoints_needing_extension_work s' = checkpoints_needing_extension_work s"
    "compaction_work_items s' = compaction_work_items s" "cleanup_work_items s' = cleanup_work_items s"
    "compactions s' = compactions s" "id_seq s' = id_seq s" "mode s' = mode s" "tables s' = tables s"
    "not_compacted_checkpoint_ids s' = not_compacted_checkpoint_ids s"
    "recent_file_extension_metadata s' = recent_file_extension_metadata s"
    "table_templates s' = table_templates s" "pipelines s' = pipelines s"
    "lifetime_policies s' = lifetime_policies s"
  using assms
  by (cases s, cases s', simp add: rest_def)+

lemma reads_rest:
  assumes "rest s' = rest s"
  shows "get_latest_materialized_checkpoint_sync s' = get_latest_materialized_checkpoint_sync s"
    "get_published_checkpoint_sync s' = get_published_checkpoint_sync s"
    "get_checkpoint_sync s' = get_checkpoint_sync s"
  using restD [OF assms]
  by (simp_all add: fun_eq_iff get_latest_materialized_checkpoint_sync_def real_table_name_def
      get_published_checkpoint_sync_def get_checkpoint_sync_def split: option.split)

lemmas membership_defs = live_serving_node_ids_def prune_expired_serving_node_leases_def
  bump_cutover_epoch_def store_cutover_membership_view_def clear_serving_node_activations_def
  get_cutover_membership_view_def

lemma rest_prune [simp]: "rest (prune_expired_serving_node_leases now s) = rest s"
  by (simp add: rest_def prune_expired_serving_node_leases_def Let_def)

lemma rest_capture [simp]: "rest (capture_cutover_membership_for_target now t e c s) = rest s"
  by (simp add: capture_cutover_membership_for_target_def membership_defs Let_def rest_def)

lemma rest_backfill [simp]: "rest (backfill_cutover_membership_for_target now t e c s) = rest s"
  by (simp add: backfill_cutover_membership_for_target_def membership_defs Let_def rest_def
      split: option.split)

lemma rest_reconfigure [simp]:
  "rest (maybe_reconfigure_cutover_membership_for_target now t e c s) = rest s"
  by (simp add: maybe_reconfigure_cutover_membership_for_target_def membership_defs Let_def rest_def
      split: option.split)

lemma rest_activation [simp]: "rest (fst (activation_matches_target now t e c s)) = rest s"
  by (simp add: activation_matches_target_def Let_def split: option.split)

text \<open>The nodes whose lease is alive.\<close>

definition live_nodes :: "millis \<Rightarrow> service \<Rightarrow> string set" where
  "live_nodes now s =
     {n. \<exists>l. fmlookup (serving_node_leases s) n = Some l \<and> snl_observed_at_ms l \<ge> now - lease_length_ms}"

lemma live_dom [simp]:
  "fset (fmdom (serving_node_leases (prune_expired_serving_node_leases now s))) = live_nodes now s"
  by (auto simp: prune_expired_serving_node_leases_def Let_def live_nodes_def fmlookup_dom_iff
      split: option.splits if_splits)

lemma live_dom_member [simp]:
  "n |\<in>| fmdom (serving_node_leases (prune_expired_serving_node_leases now s)) \<longleftrightarrow> n \<in> live_nodes now s"
  by (simp flip: live_dom)

lemma live_dom_empty [simp]:
  "fmdom (serving_node_leases (prune_expired_serving_node_leases now s)) = {||} \<longleftrightarrow> live_nodes now s = {}"
  by (metis bot_fset.rep_eq fset_inject live_dom)

lemma finite_live_nodes [simp]: "finite (live_nodes now s)"
  by (simp flip: live_dom)

lemma live_nodes_prune [simp]:
  "live_nodes now (prune_expired_serving_node_leases now s) = live_nodes now s"
  by (auto simp: live_nodes_def prune_expired_serving_node_leases_def Let_def split: option.splits if_splits)

lemma prune_keeps [simp]:
  "get_cutover_membership_view (prune_expired_serving_node_leases now s) t e =
     get_cutover_membership_view s t e"
  "serving_node_activations (prune_expired_serving_node_leases now s) = serving_node_activations s"
  "checkpoint_cutover_epochs (prune_expired_serving_node_leases now s) = checkpoint_cutover_epochs s"
  "cutover_membership_views (prune_expired_serving_node_leases now s) = cutover_membership_views s"
  by (simp_all add: prune_expired_serving_node_leases_def get_cutover_membership_view_def Let_def)

subsection \<open>Promotion\<close>

text \<open>What makes a target servable, read off the state after the membership was refreshed.\<close>

definition activated_by_required_nodes :: "service \<Rightarrow> string \<Rightarrow> string option \<Rightarrow> string \<Rightarrow> bool" where
  "activated_by_required_nodes s t e c \<longleftrightarrow>
     (\<exists>view acks. get_cutover_membership_view s t e = Some view \<and>
        cmv_target_checkpoint_id view = c \<and> cmv_required_node_ids view \<noteq> [] \<and>
        fmlookup (serving_node_activations s) (selector_group_key t e) = Some acks \<and>
        (\<forall>n \<in> set (cmv_required_node_ids view). \<exists>ack. fmlookup acks n = Some ack \<and>
           sna_checkpoint_id ack = c \<and> sna_epoch ack = cmv_epoch view))"

lemma activation_matches_target_iff:
  "snd (activation_matches_target now t e c s) \<longleftrightarrow>
     activated_by_required_nodes (fst (activation_matches_target now t e c s)) t e c"
  by (auto simp: activation_matches_target_def Let_def activated_by_required_nodes_def list_all_iff
      split: option.splits if_splits)

lemma live_nodes_backfill [simp]:
  "live_nodes now (backfill_cutover_membership_for_target now t e c s) = live_nodes now s"
proof -
  have "live_nodes now (store_cutover_membership_view t e ep c ns s') = live_nodes now s'" for ep ns s'
    by (simp add: live_nodes_def store_cutover_membership_view_def)
  then show ?thesis
    by (simp add: backfill_cutover_membership_for_target_def live_serving_node_ids_def Let_def
        split: option.split)
qed

text \<open>After a refresh the required nodes are alive, or nobody is, or nothing was acknowledged yet.\<close>

lemma reconfigure_required_live:
  assumes "get_cutover_membership_view (maybe_reconfigure_cutover_membership_for_target now t e c s) t e =
      Some view" "cmv_target_checkpoint_id view = c"
    and "fmlookup (serving_node_activations
      (maybe_reconfigure_cutover_membership_for_target now t e c s)) (selector_group_key t e) \<noteq> None"
    and "live_nodes now s \<noteq> {}"
  shows "set (cmv_required_node_ids view) \<subseteq> live_nodes now s"
proof (cases "get_cutover_membership_view s t e")
  case None
  with assms(1) show ?thesis by (simp add: maybe_reconfigure_cutover_membership_for_target_def)
next
  case (Some v)
  note def = maybe_reconfigure_cutover_membership_for_target_def live_serving_node_ids_def Let_def
  show ?thesis
  proof (cases "cmv_target_checkpoint_id v = c")
    case False
    with Some assms(1,2) show ?thesis by (simp add: def)
  next
    case target: True
    show ?thesis
    proof (cases "list_all (\<lambda>n. n \<in> live_nodes now s) (cmv_required_node_ids v)")
      case True
      with Some target assms(1,4) have "view = v" by (simp add: def)
      with True show ?thesis by (auto simp: list_all_iff)
    next
      case False
      with Some target assms(3,4) have False
        by (simp add: def clear_serving_node_activations_def bump_cutover_epoch_def
            store_cutover_membership_view_def)
      then show ?thesis ..
    qed
  qed
qed

lemma activation_matches_target_live:
  assumes "activation_matches_target now t e c s = (s', True)" "live_nodes now s \<noteq> {}"
  shows "\<exists>view. get_cutover_membership_view s' t e = Some view \<and>
    set (cmv_required_node_ids view) \<subseteq> live_nodes now s"
proof -
  let ?s1 = "backfill_cutover_membership_for_target now t e c s"
  let ?s2 = "maybe_reconfigure_cutover_membership_for_target now t e c ?s1"
  from assms(1) have s': "s' = ?s2"
    by (auto simp: activation_matches_target_def Let_def split: option.splits if_splits)
  have "activated_by_required_nodes s' t e c"
    using assms(1) activation_matches_target_iff [of now t e c s] by simp
  then obtain view acks where v: "get_cutover_membership_view s' t e = Some view"
    "cmv_target_checkpoint_id view = c"
    "fmlookup (serving_node_activations s') (selector_group_key t e) = Some acks"
    unfolding activated_by_required_nodes_def by blast
  then show ?thesis using reconfigure_required_live [of now t e c ?s1 view] assms(2) unfolding s' by auto
qed

lemma promote_cases:
  obtains (skip) "promote_active_checkpoint_if_ready now t e s = (s, False)"
  | (refresh) c where "promote_active_checkpoint_if_ready now t e s =
        (fst (activation_matches_target now t e c s), False)"
  | (promoted) c where "promote_active_checkpoint_if_ready now t e s =
        (set_published_checkpoint Active t e c (fst (activation_matches_target now t e c s)), True)"
      "get_latest_materialized_checkpoint_sync s t e = Some c"
      "get_published_checkpoint_sync s Active t e \<noteq> Some c" "readiness_matches_target s t e c"
      "snd (activation_matches_target now t e c s)"
proof (cases "get_latest_materialized_checkpoint_sync s t e")
  case None
  then show thesis by (intro skip) (simp add: promote_active_checkpoint_if_ready_def)
next
  case (Some c)
  note def = promote_active_checkpoint_if_ready_def Some option.case split_beta Let_def
  show thesis
  proof (cases "get_published_checkpoint_sync s Active t e = Some c \<or> \<not> readiness_matches_target s t e c")
    case True
    then show thesis by (intro skip) (auto simp: def)
  next
    case False
    show thesis
    proof (cases "snd (activation_matches_target now t e c s)")
      case True
      with False Some show thesis by (intro promoted [of c]) (auto simp: def)
    next
      case act: False
      with False show thesis by (intro refresh [of c]) (auto simp: def)
    qed
  qed
qed

lemma set_published_reads [simp]:
  "get_cutover_membership_view (set_published_checkpoint r t e c s) = get_cutover_membership_view s"
  "serving_node_activations (set_published_checkpoint r t e c s) = serving_node_activations s"
  "checkpoint_cutover_epochs (set_published_checkpoint r t e c s) = checkpoint_cutover_epochs s"
  "cutover_membership_views (set_published_checkpoint r t e c s) = cutover_membership_views s"
  "artifact_readiness_acks (set_published_checkpoint r t e c s) = artifact_readiness_acks s"
  "latest_committed_checkpoint_id (set_published_checkpoint r t e c s) = latest_committed_checkpoint_id s"
  "table_aliases (set_published_checkpoint r t e c s) = table_aliases s"
  "get_published_checkpoint_sync (set_published_checkpoint r t e c s) r t e = Some c"
  "published_checkpoint_id (set_published_checkpoint r t e c s) =
     fmupd (selector_storage_key r t e) c (published_checkpoint_id s)"
  by (simp_all add: set_published_checkpoint_def get_cutover_membership_view_def fun_eq_iff
      get_published_checkpoint_sync_def)

text \<open>
  C1. A checkpoint becomes active only when it is the latest committed one of its table and
  extension, every artifact class the extension needs was acknowledged for exactly this
  checkpoint, and every node of a non-empty membership view for this checkpoint acknowledged its
  activation under the view's own epoch (an acknowledgement of an older epoch or of another
  checkpoint does not count). If any node is alive, all nodes of that view are.
\<close>

theorem promotion_safe:
  assumes "promote_active_checkpoint_if_ready now t e s = (s', True)"
  shows "\<exists>c. get_latest_materialized_checkpoint_sync s t e = Some c \<and>
    get_published_checkpoint_sync s' Active t e = Some c \<and>
    readiness_matches_target s t e c \<and> activated_by_required_nodes s' t e c \<and>
    (live_nodes now s = {} \<or>
      (\<exists>view. get_cutover_membership_view s' t e = Some view \<and>
         set (cmv_required_node_ids view) \<subseteq> live_nodes now s))"
proof (cases rule: promote_cases [of now t e s])
  case (promoted c)
  let ?s1 = "fst (activation_matches_target now t e c s)"
  from promoted(5) have act: "activation_matches_target now t e c s = (?s1, True)"
    by (metis prod.collapse)
  from assms promoted(1) have s': "s' = set_published_checkpoint Active t e c ?s1" by simp
  have "activated_by_required_nodes ?s1 t e c"
    using promoted(5) by (simp add: activation_matches_target_iff)
  then have "activated_by_required_nodes s' t e c"
    by (simp add: s' activated_by_required_nodes_def)
  moreover have "live_nodes now s = {} \<or> (\<exists>view. get_cutover_membership_view s' t e = Some view \<and>
      set (cmv_required_node_ids view) \<subseteq> live_nodes now s)"
    using activation_matches_target_live [OF act] by (auto simp: s')
  ultimately show ?thesis using promoted s' by auto
qed (use assms in auto)

text \<open>A service with one table whose checkpoint is ready and activated by the one live node.\<close>

definition sample_ack :: "artifact_class \<Rightarrow> artifact_readiness_ack" where
  "sample_ack c =
     \<lparr>ara_selector = selector_target ''t'' None, ara_checkpoint_id = ''c'', ara_epoch = 1,
      ara_artifact_class = c, ara_producer_id = ''p'', ara_ready_at_ms = 0\<rparr>"

definition sample_ready :: service where
  "sample_ready = (service_new 0 ephemeral_default)
     \<lparr>latest_committed_checkpoint_id := fmupd None (fmupd ''t'' ''c'' fmempty) fmempty,
      serving_node_leases := fmupd ''n''
        \<lparr>snl_node_id = ''n'', snl_membership_epoch = 1, snl_observed_at_ms = 0\<rparr> fmempty,
      checkpoint_cutover_epochs := fmupd ''|t'' 1 fmempty,
      cutover_membership_views := fmupd ''|t''
        \<lparr>cmv_selector = selector_target ''t'' None, cmv_epoch = 1,
         cmv_target_checkpoint_id = ''c'', cmv_required_node_ids = [''n'']\<rparr> fmempty,
      serving_node_activations := fmupd ''|t'' (fmupd ''n''
        \<lparr>sna_selector = selector_target ''t'' None, sna_node_id = ''n'', sna_epoch = 1,
         sna_checkpoint_id = ''c'', sna_activated_at_ms = 0\<rparr> fmempty) fmempty,
      artifact_readiness_acks := fmupd ''|t''
        (fmupd SnapshotLookupMmap (sample_ack SnapshotLookupMmap)
          (fmupd SnapshotExactLookupMmap (sample_ack SnapshotExactLookupMmap) fmempty)) fmempty\<rparr>"

lemmas sample_service_defs = sample_ready_def sample_ack_def service_new_def from_snapshot_def
  snapshot_default_def deserialize_latest_committed_checkpoint_id_def rekey_def

lemma sample_ready_facts:
  "readiness_matches_target sample_ready ''t'' None ''c''"
  "get_latest_materialized_checkpoint_sync sample_ready ''t'' None = Some ''c''"
  "get_published_checkpoint_sync sample_ready Active ''t'' None = None"
  by (simp_all add: readiness_matches_target_def sample_service_defs selector_group_key_def
      extension_storage_key_def required_artifact_classes_def real_table_name_def
      get_latest_materialized_checkpoint_sync_def get_published_checkpoint_sync_def)

lemma sample_ready_promotes:
  "\<exists>s'. promote_active_checkpoint_if_ready 1000 ''t'' None sample_ready = (s', True)"
proof -
  have "snd (activation_matches_target 1000 ''t'' None ''c'' sample_ready)"
    by (simp add: activation_matches_target_def backfill_cutover_membership_for_target_def
        maybe_reconfigure_cutover_membership_for_target_def membership_defs Let_def
        sample_service_defs selector_group_key_def extension_storage_key_def hm_retain_def
        lease_length_ms_def)
  with sample_ready_facts show ?thesis
    by (simp add: promote_active_checkpoint_if_ready_def split_beta Let_def)
qed

lemma promotion_safe_witness:
  "\<exists>s'. promote_active_checkpoint_if_ready 1000 ''t'' None sample_ready = (s', True) \<and>
     get_published_checkpoint_sync s' Active ''t'' None \<noteq> None"
proof -
  obtain s' where "promote_active_checkpoint_if_ready 1000 ''t'' None sample_ready = (s', True)"
    using sample_ready_promotes by blast
  with promotion_safe [OF this] show ?thesis by auto
qed

text \<open>
  C2. Promotion is complete as well: it happens whenever the latest checkpoint is not yet active,
  its artifacts are ready and, with the membership refreshed, the required nodes have activated
  it; otherwise nothing that is published changes. In both cases no other entry is touched.
\<close>

theorem promotion_exact:
  "snd (promote_active_checkpoint_if_ready now t e s) =
     (case get_latest_materialized_checkpoint_sync s t e of
        None \<Rightarrow> False
      | Some c \<Rightarrow> get_published_checkpoint_sync s Active t e \<noteq> Some c \<and>
          readiness_matches_target s t e c \<and>
          activated_by_required_nodes (fst (activation_matches_target now t e c s)) t e c) \<and>
   published_checkpoint_id (fst (promote_active_checkpoint_if_ready now t e s)) =
     (if snd (promote_active_checkpoint_if_ready now t e s)
      then fmupd (selector_storage_key Active t e)
        (the (get_latest_materialized_checkpoint_sync s t e)) (published_checkpoint_id s)
      else published_checkpoint_id s)"
proof -
  have pub: "published_checkpoint_id (fst (activation_matches_target now t e c s)) =
      published_checkpoint_id s" for c
    by (rule restD(1)) simp
  show ?thesis
    by (cases "get_latest_materialized_checkpoint_sync s t e")
      (auto simp: promote_active_checkpoint_if_ready_def split_beta Let_def pub
        activation_matches_target_iff)
qed

subsection \<open>Epochs\<close>

text \<open>The epoch of a membership view is the current epoch of its key.\<close>

definition views_current :: "service \<Rightarrow> bool" where
  "views_current s \<longleftrightarrow>
     fmpred (\<lambda>k v. fmlookup (checkpoint_cutover_epochs s) k = Some (cmv_epoch v))
       (cutover_membership_views s)"

lemma views_current_iff:
  "views_current s \<longleftrightarrow>
     (\<forall>k v. fmlookup (cutover_membership_views s) k = Some v \<longrightarrow>
        fmlookup (checkpoint_cutover_epochs s) k = Some (cmv_epoch v))"
  by (simp add: views_current_def fmpred_iff)

text \<open>
  One step of the protocol leaves the epoch and the target of a key alone, or draws the next
  epoch.
\<close>

definition target_of :: "service \<Rightarrow> string \<Rightarrow> string option" where
  "target_of s k = map_option cmv_target_checkpoint_id (fmlookup (cutover_membership_views s) k)"

definition epoch_of :: "service \<Rightarrow> string \<Rightarrow> cutover_epoch" where
  "epoch_of s k = hm_get_or 0 (checkpoint_cutover_epochs s) k"

definition epoch_step :: "service \<Rightarrow> service \<Rightarrow> bool" where
  "epoch_step s s' \<longleftrightarrow> (views_current s \<longrightarrow> views_current s') \<and>
     (\<forall>k. (epoch_of s' k = epoch_of s k \<and> target_of s' k = target_of s k) \<or>
          epoch_of s' k = epoch_of s k + 1)"

lemma epoch_step_refl:
  "checkpoint_cutover_epochs s' = checkpoint_cutover_epochs s \<Longrightarrow>
   cutover_membership_views s' = cutover_membership_views s \<Longrightarrow> epoch_step s s'"
  by (simp add: epoch_step_def views_current_iff target_of_def epoch_of_def)

lemma epoch_step_same_left:
  assumes "epoch_step s s1" "epoch_step s1 s2" "epoch_of s1 = epoch_of s" "target_of s1 = target_of s"
  shows "epoch_step s s2"
proof -
  from assms(1,2) have "views_current s \<longrightarrow> views_current s2" by (simp add: epoch_step_def)
  with assms(2) show ?thesis unfolding epoch_step_def assms(3,4) by blast
qed

lemma epoch_step_same_right:
  assumes "epoch_step s s1" "checkpoint_cutover_epochs s2 = checkpoint_cutover_epochs s1"
    "cutover_membership_views s2 = cutover_membership_views s1"
  shows "epoch_step s s2"
proof -
  from assms(2,3) have "epoch_of s2 = epoch_of s1" "target_of s2 = target_of s1"
    "views_current s2 = views_current s1"
    by (simp_all add: fun_eq_iff epoch_of_def target_of_def views_current_iff)
  with assms(1) show ?thesis by (simp add: epoch_step_def)
qed

lemma epoch_stepI_update:
  assumes "checkpoint_cutover_epochs s' = fmupd key (epoch_of s key + 1) (checkpoint_cutover_epochs s)"
    and "cutover_membership_views s' = fmupd key v (cutover_membership_views s)"
    and "cmv_epoch v = epoch_of s key + 1"
  shows "epoch_step s s'"
proof -
  have "views_current s'" if "views_current s"
    using that assms(3) by (auto simp: views_current_iff assms(1,2) split: if_splits)
  moreover have "(epoch_of s' k = epoch_of s k \<and> target_of s' k = target_of s k) \<or>
      epoch_of s' k = epoch_of s k + 1" for k
  proof (cases "k = key")
    case True
    have "epoch_of s' key = epoch_of s key + 1" by (simp add: epoch_of_def assms(1) hm_get_or_def)
    with True show ?thesis by blast
  next
    case False
    then have "epoch_of s' k = epoch_of s k" "target_of s' k = target_of s k"
      by (simp_all add: epoch_of_def target_of_def assms(1,2) hm_get_or_def)
    then show ?thesis by blast
  qed
  ultimately show ?thesis by (simp add: epoch_step_def)
qed

lemma epoch_step_bump:
  "epoch_step s (clear_serving_node_activations t e
     (store_cutover_membership_view t e (snd (bump_cutover_epoch t e s)) c ns
       (fst (bump_cutover_epoch t e s))))"
  by (rule epoch_stepI_update [where key = "selector_group_key t e" and
        v = "\<lparr>cmv_selector = selector_target t e, cmv_epoch = epoch_of s (selector_group_key t e) + 1,
             cmv_target_checkpoint_id = c, cmv_required_node_ids = ns\<rparr>"])
    (simp_all add: epoch_of_def clear_serving_node_activations_def store_cutover_membership_view_def
      bump_cutover_epoch_def Let_def)

lemma epoch_step_prune_bump:
  "epoch_step s (clear_serving_node_activations t e
     (store_cutover_membership_view t e
       (snd (bump_cutover_epoch t e (prune_expired_serving_node_leases now s))) c ns
       (fst (bump_cutover_epoch t e (prune_expired_serving_node_leases now s)))))"
  by (rule epoch_step_same_left [OF epoch_step_refl epoch_step_bump])
    (simp_all add: fun_eq_iff epoch_of_def target_of_def)

lemma epoch_step_same [simp]: "epoch_step s s"
  by (rule epoch_step_refl) simp_all

lemma epoch_step_prune [simp]: "epoch_step s (prune_expired_serving_node_leases now s)"
  by (rule epoch_step_refl) simp_all

lemma epoch_step_capture: "epoch_step s (capture_cutover_membership_for_target now t e c s)"
  by (simp add: capture_cutover_membership_for_target_def live_serving_node_ids_def Let_def split_beta
      epoch_step_prune_bump)

lemma backfill_epochs:
  "checkpoint_cutover_epochs (backfill_cutover_membership_for_target now t e c s) =
     checkpoint_cutover_epochs s"
  by (simp add: backfill_cutover_membership_for_target_def membership_defs Let_def split: option.split)

lemma backfill_target: "target_of (backfill_cutover_membership_for_target now t e c s) = target_of s"
  by (auto simp: fun_eq_iff target_of_def backfill_cutover_membership_for_target_def membership_defs Let_def
      split: option.split)

lemma views_current_store:
  assumes "views_current s" "fmlookup (checkpoint_cutover_epochs s) (selector_group_key t e) = Some ep"
  shows "views_current (store_cutover_membership_view t e ep c ns s)"
  using assms unfolding views_current_iff store_cutover_membership_view_def by simp

lemma views_current_prune [simp]:
  "views_current (prune_expired_serving_node_leases now s) = views_current s"
  by (simp add: views_current_iff)

lemma backfill_views_current:
  assumes "views_current s"
  shows "views_current (backfill_cutover_membership_for_target now t e c s)"
proof (cases "get_cutover_membership_view s t e")
  case None
  with assms show ?thesis by (simp add: backfill_cutover_membership_for_target_def)
next
  case (Some v)
  with assms have "fmlookup (checkpoint_cutover_epochs s) (selector_group_key t e) = Some (cmv_epoch v)"
    by (simp add: views_current_iff get_cutover_membership_view_def)
  with assms Some show ?thesis
    by (simp add: backfill_cutover_membership_for_target_def live_serving_node_ids_def Let_def
        views_current_store)
qed

lemma epoch_step_backfill: "epoch_step s (backfill_cutover_membership_for_target now t e c s)"
  by (simp add: epoch_step_def backfill_views_current backfill_target epoch_of_def backfill_epochs)

lemma epoch_step_reconfigure:
  "epoch_step s (maybe_reconfigure_cutover_membership_for_target now t e c s)"
  by (simp add: maybe_reconfigure_cutover_membership_for_target_def live_serving_node_ids_def Let_def
      split_beta epoch_step_prune_bump split: option.split)

lemma epoch_step_activation: "epoch_step s (fst (activation_matches_target now t e c s))"
proof -
  let ?s1 = "backfill_cutover_membership_for_target now t e c s"
  have "epoch_step s (maybe_reconfigure_cutover_membership_for_target now t e c ?s1)"
    by (rule epoch_step_same_left [OF epoch_step_backfill epoch_step_reconfigure])
      (simp_all add: fun_eq_iff backfill_target epoch_of_def backfill_epochs)
  then show ?thesis by (simp add: activation_matches_target_def Let_def split: option.split)
qed

lemma epoch_step_promote: "epoch_step s (fst (promote_active_checkpoint_if_ready now t e s))"
proof (cases rule: promote_cases [of now t e s])
  case skip
  then show ?thesis by simp
next
  case (refresh c)
  then show ?thesis by (simp add: epoch_step_activation)
next
  case (promoted c)
  then show ?thesis by (auto intro: epoch_step_same_right [OF epoch_step_activation])
qed

lemma epoch_step_advance: "epoch_step s (fst (advance_target_checkpoint now t e s))"
proof -
  have "epoch_step s (capture_cutover_membership_for_target now t e c (clear_artifact_readiness t e s))" for c
    by (rule epoch_step_same_left [OF epoch_step_refl epoch_step_capture])
      (simp_all add: fun_eq_iff clear_artifact_readiness_def epoch_of_def target_of_def)
  then show ?thesis
    by (simp add: advance_target_checkpoint_def Let_def epoch_step_capture
        split: option.split)
qed

lemma epoch_step_cutover_state:
  "get_checkpoint_cutover_state now t e s = Inr (s', st) \<Longrightarrow>
     \<exists>s1. epoch_step s s1 \<and> epoch_step s1 s'"
  by (auto simp: get_checkpoint_cutover_state_def Let_def
      intro: epoch_step_same epoch_step_capture epoch_step_backfill split: option.splits)

lemma epoch_step_plan: "plan_checkpoint_cutover now r s = Inr (s', u) \<Longrightarrow> epoch_step s s'"
proof -
  have "epoch_step s (capture_cutover_membership_for_target now t e c (set_published_checkpoint Target t e c s))"
    for t e c
    by (rule epoch_step_same_left [OF epoch_step_refl epoch_step_capture])
      (simp_all add: fun_eq_iff epoch_of_def target_of_def)
  then show "plan_checkpoint_cutover now r s = Inr (s', u) \<Longrightarrow> epoch_step s s'"
    by (auto simp: plan_checkpoint_cutover_def Let_def split: if_splits)
qed

text \<open>Along at most \<open>n\<close> steps the epoch grows by some \<open>m \<le> n\<close>; it stands still only with its target.\<close>

lemma epoch_steps:
  "(epoch_step ^^ n) s s' \<Longrightarrow>
     \<exists>m \<le> n. epoch_of s' k = epoch_of s k + of_nat m \<and> (m = 0 \<longrightarrow> target_of s' k = target_of s k)"
proof (induction n arbitrary: s')
  case 0
  then show ?case by simp
next
  case (Suc n)
  then obtain s1 where s1: "(epoch_step ^^ n) s s1" "epoch_step s1 s'" by auto
  from Suc.IH [OF s1(1)] obtain m where m: "m \<le> n" "epoch_of s1 k = epoch_of s k + of_nat m"
    "m = 0 \<longrightarrow> target_of s1 k = target_of s k" by blast
  from s1(2) consider "epoch_of s' k = epoch_of s1 k" "target_of s' k = target_of s1 k"
    | "epoch_of s' k = epoch_of s1 k + 1"
    unfolding epoch_step_def by blast
  then show ?case
  proof cases
    case 1
    with m show ?thesis by (intro exI [of _ m]) simp
  next
    case 2
    with m show ?thesis by (intro exI [of _ "Suc m"]) (simp add: add.commute add.left_commute)
  qed
qed

lemma epoch_steps_target:
  assumes "(epoch_step ^^ n) s s'" "n < 2 ^ 64" "epoch_of s' k = epoch_of s k"
  shows "target_of s' k = target_of s k"
proof -
  from epoch_steps [OF assms(1), of k] obtain m where m: "m \<le> n"
    "epoch_of s' k = epoch_of s k + of_nat m" "m = 0 \<longrightarrow> target_of s' k = target_of s k" by blast
  from m(2) assms(3) have "(of_nat m :: u64) = 0" by simp
  then have "m mod 2 ^ 64 = 0" by (simp add: word_of_nat_eq_0_iff dvd_eq_mod_eq_0)
  with m(1) assms(2) have "m = 0" by simp
  with m(3) show ?thesis by simp
qed

subsection \<open>One pass over the publication requests\<close>

lemma epoch_steps_publish:
  "(epoch_step ^^ 4) (fst acc) (fst (publish_request now acc r))"
proof -
  obtain s w where acc: "acc = (s, w)" by fastforce
  define t where "t = cur_table_name r"
  define s1 where "s1 = fst (advance_target_checkpoint now t None s)"
  define s2 where "s2 = fst (promote_active_checkpoint_if_ready now t None s1)"
  define s3 where "s3 = fst (advance_target_checkpoint now t (Some ''es'') s2)"
  define s4 where "s4 = fst (promote_active_checkpoint_if_ready now t (Some ''es'') s3)"
  define s5 where "s5 = fst (publish_request now acc r)"
  have "checkpoint_cutover_epochs s5 = checkpoint_cutover_epochs s4"
    "cutover_membership_views s5 = cutover_membership_views s4"
    by (simp_all add: s5_def acc publish_request_def Let_def split_beta t_def [symmetric]
        s1_def [symmetric] s2_def [symmetric] s3_def [symmetric] s4_def [symmetric])
  then have "epoch_step s3 s5"
    unfolding s4_def by (rule epoch_step_same_right [OF epoch_step_promote])
  moreover have "epoch_step s s1" "epoch_step s1 s2" "epoch_step s2 s3"
    by (simp_all add: s1_def s2_def s3_def epoch_step_advance epoch_step_promote)
  ultimately have "(epoch_step ^^ Suc (Suc (Suc (Suc 0)))) s s5" by auto
  then show ?thesis by (simp add: acc s5_def numeral_eq_Suc)
qed

lemma epoch_steps_update_all:
  "\<exists>n \<le> 4 * length order. (epoch_step ^^ n) s (fst (update_all_checkpoints now order s))"
proof -
  have "(epoch_step ^^ (4 * length rs)) (fst acc) (fst (foldl (publish_request now) acc rs))" for rs acc
  proof (induction rs arbitrary: acc)
    case (Cons r rs)
    from epoch_steps_publish [of acc now r] Cons.IH [of "publish_request now acc r"]
    have "(epoch_step ^^ (4 + 4 * length rs)) (fst acc) (fst (foldl (publish_request now) acc (r # rs)))"
      by (auto simp: relpowp_add)
    then show ?case by simp
  qed simp
  moreover have "length (List.map_filter f xs) \<le> length xs" for f :: "string \<Rightarrow> checkpoint_update_request option" and xs
    by (induction xs) (auto simp: List.map_filter_simps split: option.split)
  ultimately show ?thesis
    unfolding update_all_checkpoints_def
    by (metis fst_conv mult_le_mono2)
qed

subsection \<open>What a read-only node sees\<close>

definition acked_classes :: "service \<Rightarrow> string \<Rightarrow> string option \<Rightarrow> string \<Rightarrow> artifact_class set" where
  "acked_classes s t e c =
     (case fmlookup (artifact_readiness_acks s) (selector_group_key t e) of
        None \<Rightarrow> {}
      | Some acks \<Rightarrow> {k. \<exists>ack. fmlookup acks k = Some ack \<and> ara_checkpoint_id ack = c})"

text \<open>Acknowledgements are filed under their own class, and \<open>order\<close> enumerates each map.\<close>

definition readiness_wf ::
    "((artifact_class, artifact_readiness_ack) hash_map \<Rightarrow> artifact_class list) \<Rightarrow> service \<Rightarrow> bool" where
  "readiness_wf order s \<longleftrightarrow>
     fmpred (\<lambda>_ acks. iter_order (order acks) acks \<and> fmpred (\<lambda>k ack. ara_artifact_class ack = k) acks)
       (artifact_readiness_acks s)"

lemma readiness_matches_acked:
  "readiness_matches_target s t e c \<longleftrightarrow> set (required_artifact_classes e) \<subseteq> acked_classes s t e c"
  by (cases "fmlookup (artifact_readiness_acks s) (selector_group_key t e)")
    (auto simp: readiness_matches_target_def acked_classes_def list_all_iff split: option.splits)

lemma cutover_state_frame:
  assumes "get_checkpoint_cutover_state now t e s = Inr (s', st)"
  shows "rest s' = rest s"
  using assms by (auto simp: get_checkpoint_cutover_state_def Let_def split: option.splits)

lemma acked_classes_rest: "rest s' = rest s \<Longrightarrow> acked_classes s' = acked_classes s"
  using restD(4) [of s' s] by (simp add: fun_eq_iff acked_classes_def)

lemma set_map_filter: "set (List.map_filter f xs) = {y. \<exists>x \<in> set xs. f x = Some y}"
  by (force simp: List.map_filter_def)

interpretation ephemeral: read_only_provider "get_checkpoint_cutover_state now"
    get_latest_committed_checkpoint "list_artifact_readiness order"
    get_latest_materialized_checkpoint_sync "\<lambda>s. get_published_checkpoint_sync s Active"
    acked_classes "readiness_wf order"
  for now order
proof unfold_locales
  fix s t e
  assume wf: "readiness_wf order s"
  obtain s' st where run: "get_checkpoint_cutover_state now t e s = Inr (s', st)"
    "ccs_selector st = selector_target t e"
    "ccs_active_checkpoint_id st = get_published_checkpoint_sync s' Active t e"
    by (simp add: get_checkpoint_cutover_state_def Let_def)
  note frame = cutover_state_frame [OF run(1)]
  have "readiness_wf order s'" using wf restD(4) [OF frame] by (simp add: readiness_wf_def)
  with run reads_rest [OF frame] acked_classes_rest [OF frame]
  show "\<exists>s' st. get_checkpoint_cutover_state now t e s = Inr (s', st) \<and> readiness_wf order s' \<and>
      ccs_selector st = selector_target t e \<and>
      ccs_active_checkpoint_id st = get_published_checkpoint_sync s Active t e \<and>
      get_latest_materialized_checkpoint_sync s' t e = get_latest_materialized_checkpoint_sync s t e \<and>
      get_published_checkpoint_sync s' Active t e = get_published_checkpoint_sync s Active t e \<and>
      acked_classes s' t e = acked_classes s t e"
    by auto
next
  fix s :: service and t e
  show "get_latest_committed_checkpoint t e s = Inr (s, get_latest_materialized_checkpoint_sync s t e)"
    by (simp add: get_latest_committed_checkpoint_def)
next
  fix s t e
  assume wf: "readiness_wf order s"
  let ?key = "selector_group_key t e"
  show "\<exists>acks. list_artifact_readiness order t e s = Inr (s, acks) \<and>
      (\<forall>c. acked_classes s t e c = ara_artifact_class ` {ack \<in> set acks. ara_checkpoint_id ack = c})"
  proof (cases "fmlookup (artifact_readiness_acks s) ?key")
    case None
    then show ?thesis by (simp add: list_artifact_readiness_def acked_classes_def)
  next
    case (Some m)
    with wf have m: "iter_order (order m) m" "\<And>k ack. fmlookup m k = Some ack \<Longrightarrow> ara_artifact_class ack = k"
      by (auto simp: readiness_wf_def fmpred_iff)
    have "set (List.map_filter (fmlookup m) (order m)) = {ack. \<exists>k. fmlookup m k = Some ack}"
      using m(1) by (auto simp: set_map_filter iter_order_mem)
    moreover have "{k. \<exists>ack. fmlookup m k = Some ack \<and> ara_checkpoint_id ack = c} =
        ara_artifact_class ` {ack. (\<exists>k. fmlookup m k = Some ack) \<and> ara_checkpoint_id ack = c}" for c
      using m(2) by (auto simp: image_iff)
    ultimately show ?thesis using Some
      by (simp add: list_artifact_readiness_def acked_classes_def)
  qed
qed

text \<open>
  C13. The phase a read-only node is told agrees with the promotion rule: Active exactly when the
  active checkpoint is the latest one, AwaitingActivation exactly when it is not and the
  readiness test of the promotion holds for the latest one.
\<close>

theorem read_only_phase_correct:
  assumes "readiness_wf order s"
  shows "\<exists>s' st. get_read_only_coordination_state
      (ro_get_checkpoint_cutover_state (get_checkpoint_cutover_state now) get_latest_committed_checkpoint)
      (list_artifact_readiness order) t e s = Inr (s', st) \<and>
    (ros_phase st = PhaseActive) =
      (get_published_checkpoint_sync s Active t e \<noteq> None \<and>
       get_published_checkpoint_sync s Active t e = get_latest_materialized_checkpoint_sync s t e) \<and>
    (ros_phase st = AwaitingActivation) =
      (get_published_checkpoint_sync s Active t e \<noteq> get_latest_materialized_checkpoint_sync s t e \<and>
       (\<exists>c. get_latest_materialized_checkpoint_sync s t e = Some c \<and> readiness_matches_target s t e c))"
  using ephemeral.coordination_state [OF assms, of now t e] by (auto simp: readiness_matches_acked)

lemma read_only_phase_correct_witness:
  "\<exists>s' st. get_read_only_coordination_state
      (ro_get_checkpoint_cutover_state (get_checkpoint_cutover_state 1000) get_latest_committed_checkpoint)
      (list_artifact_readiness (\<lambda>_. [SnapshotLookupMmap, SnapshotExactLookupMmap]))
      ''t'' None sample_ready = Inr (s', st) \<and> ros_phase st = AwaitingActivation"
proof -
  have "readiness_wf (\<lambda>_. [SnapshotLookupMmap, SnapshotExactLookupMmap]) sample_ready"
    by (auto simp: readiness_wf_def sample_service_defs fmpred_iff iter_order_def split: if_splits)
  from read_only_phase_correct [OF this, of 1000 "''t''" None] obtain s' st where
    "get_read_only_coordination_state
      (ro_get_checkpoint_cutover_state (get_checkpoint_cutover_state 1000) get_latest_committed_checkpoint)
      (list_artifact_readiness (\<lambda>_. [SnapshotLookupMmap, SnapshotExactLookupMmap]))
      ''t'' None sample_ready = Inr (s', st)" "ros_phase st = AwaitingActivation"
    by (auto simp: sample_ready_facts)
  then show ?thesis by blast
qed

end
