(* ===== verification/Service_Work.thy ===== *)
theory Service_Work
  imports Service_Cutover
begin

section \<open>Work items and their leases\<close>

text \<open>
  Extension, compaction and cleanup work is handed out under a lease
  (\<^verbatim>\<open>ephemeral_service_impl.rs\<close>): an item that was handed out is not handed out again until a
  minute has passed, and a cleanup item only when no active checkpoint refers to its files. The
  three kinds share one contract, the locale \<open>lease_pool\<close>.
\<close>

subsection \<open>The operations\<close>

definition checkpoint_references_any_cleanup_file :: "table_metadata_checkpoint \<Rightarrow> string set \<Rightarrow> bool" where
  "checkpoint_references_any_cleanup_file checkpoint files_to_delete =
     ((case speedboat_metadata checkpoint of
         None \<Rightarrow> False
       | Some m \<Rightarrow> list_ex (\<lambda>p. p \<in> files_to_delete) (file_paths (sm_files m))) \<or>
      (case deletes_metadata checkpoint of
         None \<Rightarrow> False
       | Some m \<Rightarrow> list_ex (\<lambda>p. p \<in> files_to_delete) (dm_files m)))"

definition cleanup_work_item_is_ready :: "service \<Rightarrow> cleanup_work_item \<Rightarrow> bool" where
  "cleanup_work_item_is_ready s w =
     list_all (\<lambda>extension.
         case get_published_checkpoint_sync s Active (cl_table_name w) extension of
           None \<Rightarrow> True
         | Some checkpoint_id \<Rightarrow>
             (case get_checkpoint_sync s (cl_table_name w) checkpoint_id of
                None \<Rightarrow> True
              | Some checkpoint \<Rightarrow>
                  \<not> checkpoint_references_any_cleanup_file checkpoint (set (cl_files_to_delete w))))
       [None, Some ''es'']"

text \<open>A loop over the trackers of a map that hands out and leases the ones that qualify.\<close>

fun claim_loop ::
    "('v \<Rightarrow> bool) \<Rightarrow> ('v \<Rightarrow> 'v) \<Rightarrow> 'k list \<Rightarrow> ('k, 'v) hash_map \<Rightarrow> ('k, 'v) hash_map \<times> ('k \<times> 'v) list" where
  "claim_loop qualifies lease [] m = (m, [])"
| "claim_loop qualifies lease (k # ks) m =
     (case fmlookup m k of
        None \<Rightarrow> claim_loop qualifies lease ks m
      | Some v \<Rightarrow>
          if qualifies v then
            (let (m', claimed) = claim_loop qualifies lease ks (fmupd k (lease v) m) in
             (m', (k, v) # claimed))
          else claim_loop qualifies lease ks m)"

definition get_extension_work_items ::
    "millis \<Rightarrow> string list \<Rightarrow> string \<Rightarrow> (service, extension_work_item list) op" where
  "get_extension_work_items now order extension_type s =
     (if extension_type = ''es'' then
        (case fmlookup (extension_work_items s) extension_type of
           None \<Rightarrow> Inr (s, [])
         | Some items \<Rightarrow>
             (let (items', claimed) = claim_loop
                    (\<lambda>w. has_work (ewt_work_item w) \<and> lease_is_available now (ewt_lease_expires_at_ms w))
                    (\<lambda>w. w\<lparr>ewt_lease_expires_at_ms := Some (claim_lease_expires_at_ms now)\<rparr>)
                    order items in
              Inr (s\<lparr>extension_work_items := fmupd extension_type items' (extension_work_items s)\<rparr>,
                   map (ewt_work_item \<circ> snd) claimed)))
      else Inr (s, []))"

definition get_compaction_work_items ::
    "millis \<Rightarrow> string list \<Rightarrow> (service, (string \<times> compaction_work_item) list) op" where
  "get_compaction_work_items now order s =
     (let (items', claimed) = claim_loop
            (\<lambda>w. lease_is_available now (cwt_lease_expires_at_ms w))
            (\<lambda>w. w\<lparr>cwt_lease_expires_at_ms := Some (claim_lease_expires_at_ms now)\<rparr>)
            order (compaction_work_items s) in
      Inr (s\<lparr>compaction_work_items := items'\<rparr>, map (\<lambda>(t, w). (t, cwt_work_item w)) claimed))"

definition ready_cleanup_indexes :: "millis \<Rightarrow> service \<Rightarrow> nat list" where
  "ready_cleanup_indexes now s =
     [i \<leftarrow> [0..<length (cleanup_work_items s)].
        cleanup_work_item_is_ready s (clt_work_item (cleanup_work_items s ! i)) \<and>
        lease_is_available now (clt_lease_expires_at_ms (cleanup_work_items s ! i))]"

fun lease_cleanup_items ::
    "millis \<Rightarrow> nat list \<Rightarrow> cleanup_work_item_tracker list \<Rightarrow>
     cleanup_work_item_tracker list \<times> cleanup_work_item list" where
  "lease_cleanup_items now [] items = (items, [])"
| "lease_cleanup_items now (i # is) items =
     (let w = items ! i;
          (items', claimed) = lease_cleanup_items now is
            (items[i := w\<lparr>clt_lease_expires_at_ms := Some (claim_lease_expires_at_ms now)\<rparr>]) in
      (items', clt_work_item w # claimed))"

definition get_cleanup_work_items :: "millis \<Rightarrow> (service, cleanup_work_item list) op" where
  "get_cleanup_work_items now s =
     (let (items', claimed) =
            lease_cleanup_items now (ready_cleanup_indexes now s) (cleanup_work_items s) in
      Inr (s\<lparr>cleanup_work_items := items'\<rparr>, claimed))"

definition claim_extension_work_items ::
    "millis \<Rightarrow> string list \<Rightarrow> string \<Rightarrow> (service, claimed_extension_work_item list) op" where
  "claim_extension_work_items now order extension_type =
     obind (get_extension_work_items now order extension_type)
       (\<lambda>ws. oret (map (\<lambda>w. \<lparr>cew_claim = Leased, cew_work_item = w\<rparr>) ws))"

definition claim_compaction_work_items ::
    "millis \<Rightarrow> string list \<Rightarrow> (service, claimed_compaction_work_item list) op" where
  "claim_compaction_work_items now order =
     obind (get_compaction_work_items now order)
       (\<lambda>ws. oret (map (\<lambda>(t, w). \<lparr>ccw_claim = Leased, ccw_table_name = t, ccw_work_item = w\<rparr>) ws))"

definition claim_cleanup_work_items :: "millis \<Rightarrow> (service, claimed_cleanup_work_item list) op" where
  "claim_cleanup_work_items now =
     obind (get_cleanup_work_items now)
       (\<lambda>ws. oret (map (\<lambda>w. \<lparr>clw_claim = Leased, clw_work_item = w\<rparr>) ws))"

subsection \<open>The contract of a pool of leased items\<close>

text \<open>
  \<open>claimed now s\<close> are the keys a claim at \<open>now\<close> hands out; \<open>expiry s k\<close> is the lease of
  \<open>k\<close>; \<open>eligible s k\<close> says whether \<open>k\<close> is work at all.
\<close>

locale lease_pool =
  fixes claim :: "millis \<Rightarrow> 's \<Rightarrow> 's"
    and claimed :: "millis \<Rightarrow> 's \<Rightarrow> 'k set"
    and eligible :: "'s \<Rightarrow> 'k \<Rightarrow> bool"
    and expiry :: "'s \<Rightarrow> 'k \<Rightarrow> millis option"
    and valid :: "'s \<Rightarrow> bool"
  assumes claim_valid: "valid s \<Longrightarrow> valid (claim now s)"
    and claimed_iff: "valid s \<Longrightarrow>
      claimed now s = {k. eligible s k \<and> lease_is_available now (expiry s k)}"
    and claim_eligible: "valid s \<Longrightarrow> eligible (claim now s) k = eligible s k"
    and claim_expiry: "valid s \<Longrightarrow> expiry (claim now s) k =
      (if k \<in> claimed now s then Some (claim_lease_expires_at_ms now) else expiry s k)"
begin

lemma exclusive:
  assumes "valid s" "now' < now + work_claim_lease_length_ms"
  shows "claimed now s \<inter> claimed now' (claim now s) = {}"
  using assms claim_valid [of s now]
  by (auto simp: claimed_iff claim_expiry lease_is_available_def claim_lease_expires_at_ms_def)

lemma available_again:
  assumes "valid s" "now + work_claim_lease_length_ms \<le> now'"
  shows "claimed now s \<subseteq> claimed now' (claim now s)"
  using assms claim_valid [of s now] claimed_iff [of s now]
  by (auto simp: claimed_iff claim_expiry claim_eligible lease_is_available_def
      claim_lease_expires_at_ms_def)

lemma unclaimed_kept:
  assumes "valid s" "k \<notin> claimed now s" "now \<le> now'" "eligible s k" "lease_is_available now' (expiry s k)"
  shows "k \<in> claimed now' (claim now s)"
  using assms claim_valid [of s now] by (auto simp: claimed_iff claim_expiry claim_eligible)

end

lemma claim_loop_claimed:
  "distinct ks \<Longrightarrow> set (snd (claim_loop q l ks m)) =
     {(k, v). k \<in> set ks \<and> fmlookup m k = Some v \<and> q v}"
proof (induction ks arbitrary: m)
  case (Cons k ks)
  then have k: "k \<notin> set ks" "distinct ks" by simp_all
  show ?case
  proof (cases "\<exists>v. fmlookup m k = Some v \<and> q v")
    case True
    then obtain v where v: "fmlookup m k = Some v" "q v" by blast
    have "set (snd (claim_loop q l (k # ks) m)) =
        insert (k, v) (set (snd (claim_loop q l ks (fmupd k (l v) m))))"
      using v by (simp add: split_beta)
    also have "\<dots> = insert (k, v) {(k', w). k' \<in> set ks \<and> fmlookup (fmupd k (l v) m) k' = Some w \<and> q w}"
      by (simp only: Cons.IH [OF k(2)])
    also have "\<dots> = {(k', w). k' \<in> set (k # ks) \<and> fmlookup m k' = Some w \<and> q w}"
      using v k(1) by (auto split: if_splits)
    finally show ?thesis .
  next
    case False
    then have "claim_loop q l (k # ks) m = claim_loop q l ks m" by (auto split: option.split)
    with False show ?thesis by (auto simp: Cons.IH [OF k(2)])
  qed
qed simp

lemma claim_loop_lookup:
  "distinct ks \<Longrightarrow> fmlookup (fst (claim_loop q l ks m)) k =
     (if k \<in> set ks then map_option (\<lambda>v. if q v then l v else v) (fmlookup m k) else fmlookup m k)"
proof (induction ks arbitrary: m)
  case (Cons k' ks)
  then have k: "k' \<notin> set ks" "distinct ks" by simp_all
  show ?case
  proof (cases "\<exists>v. fmlookup m k' = Some v \<and> q v")
    case True
    then obtain v where v: "fmlookup m k' = Some v" "q v" by blast
    then have "fmlookup (fst (claim_loop q l (k' # ks) m)) k =
        fmlookup (fst (claim_loop q l ks (fmupd k' (l v) m))) k"
      by (simp add: split_beta)
    also have "\<dots> = (if k \<in> set ks then map_option (\<lambda>v. if q v then l v else v) (fmlookup (fmupd k' (l v) m) k)
        else fmlookup (fmupd k' (l v) m) k)"
      by (rule Cons.IH [OF k(2)])
    also have "\<dots> = (if k \<in> set (k' # ks) then map_option (\<lambda>v. if q v then l v else v) (fmlookup m k)
        else fmlookup m k)"
      using v k(1) by (cases "k = k'") auto
    finally show ?thesis .
  next
    case False
    then have "claim_loop q l (k' # ks) m = claim_loop q l ks m" by (auto split: option.split)
    then show ?thesis using False k(1)
      by (cases "fmlookup m k'") (auto simp: Cons.IH [OF k(2)])
  qed
qed simp

lemma claim_loop_dom: "distinct ks \<Longrightarrow> fmdom' (fst (claim_loop q l ks m)) = fmdom' m"
  by (auto simp: fmlookup_dom'_iff claim_loop_lookup split: if_splits)

lemma iter_order_claim: "iter_order ks m \<Longrightarrow> iter_order ks (fst (claim_loop q l ks m))"
  by (simp add: iter_order_def claim_loop_dom)

subsection \<open>Compaction work\<close>

abbreviation run_op :: "('s, 'r) op \<Rightarrow> 's \<Rightarrow> 's" where
  "run_op m s \<equiv> (case m s of Inl _ \<Rightarrow> s | Inr (s', _) \<Rightarrow> s')"

definition op_result :: "('s, 'r list) op \<Rightarrow> 's \<Rightarrow> 'r list" where
  "op_result m s = (case m s of Inl _ \<Rightarrow> [] | Inr (_, r) \<Rightarrow> r)"

interpretation compaction_pool: lease_pool
  "\<lambda>now. run_op (get_compaction_work_items now order)"
  "\<lambda>now s. fst ` set (op_result (get_compaction_work_items now order) s)"
  "\<lambda>s t. hm_contains (compaction_work_items s) t"
  "\<lambda>s t. case fmlookup (compaction_work_items s) t of None \<Rightarrow> None | Some w \<Rightarrow> cwt_lease_expires_at_ms w"
  "\<lambda>s. iter_order order (compaction_work_items s)"
  for order
proof -
  note def = get_compaction_work_items_def op_result_def split_beta Let_def
  have claimed: "fst ` set (op_result (get_compaction_work_items now order) s) =
      {t. \<exists>w. fmlookup (compaction_work_items s) t = Some w \<and> lease_is_available now (cwt_lease_expires_at_ms w)}"
    if "iter_order order (compaction_work_items s)" for now s
  proof -
    from that have d: "distinct order" "\<And>t. t \<in> set order \<longleftrightarrow> (\<exists>w. fmlookup (compaction_work_items s) t = Some w)"
      by (simp_all add: iter_order_def fmlookup_dom'_iff)
    then show ?thesis by (force simp: def claim_loop_claimed)
  qed
  show "lease_pool (\<lambda>now. run_op (get_compaction_work_items now order))
    (\<lambda>now s. fst ` set (op_result (get_compaction_work_items now order) s))
    (\<lambda>s t. hm_contains (compaction_work_items s) t)
    (\<lambda>s t. case fmlookup (compaction_work_items s) t of None \<Rightarrow> None | Some w \<Rightarrow> cwt_lease_expires_at_ms w)
    (\<lambda>s. iter_order order (compaction_work_items s))"
  proof
    fix s :: service and now t
    assume valid: "iter_order order (compaction_work_items s)"
    then have d: "distinct order" by (simp add: iter_order_def)
    show "iter_order order (compaction_work_items (run_op (get_compaction_work_items now order) s))"
      using valid by (simp add: def iter_order_claim)
    show "fst ` set (op_result (get_compaction_work_items now order) s) =
        {k. hm_contains (compaction_work_items s) k \<and> lease_is_available now
          (case fmlookup (compaction_work_items s) k of None \<Rightarrow> None | Some w \<Rightarrow> cwt_lease_expires_at_ms w)}"
      using claimed [OF valid] by auto
    show "hm_contains (compaction_work_items (run_op (get_compaction_work_items now order) s)) t =
        hm_contains (compaction_work_items s) t"
      using d by (simp add: def claim_loop_lookup)
    show "(case fmlookup (compaction_work_items (run_op (get_compaction_work_items now order) s)) t of
          None \<Rightarrow> None | Some w \<Rightarrow> cwt_lease_expires_at_ms w) =
        (if t \<in> fst ` set (op_result (get_compaction_work_items now order) s)
         then Some (claim_lease_expires_at_ms now)
         else case fmlookup (compaction_work_items s) t of None \<Rightarrow> None | Some w \<Rightarrow> cwt_lease_expires_at_ms w)"
      unfolding claimed [OF valid] using d iter_order_mem [OF valid, of t]
      by (auto simp: def claim_loop_lookup split: option.split)
  qed
qed

text \<open>
  C22. A compaction work item handed out at one time is not handed out again by any claim made
  before its lease of one minute is over, and is handed out again by the first claim after that
  if nobody finished it.
\<close>

theorem compaction_claims_exclusive:
  assumes "iter_order order (compaction_work_items s)"
    and "get_compaction_work_items now order s = Inr (s1, first)"
    and "get_compaction_work_items now' order s1 = Inr (s2, second)"
  shows "if now' < now + work_claim_lease_length_ms then fst ` set first \<inter> fst ` set second = {}
    else fst ` set first \<subseteq> fst ` set second"
  using assms compaction_pool.exclusive [OF assms(1), of now' now]
    compaction_pool.available_again [OF assms(1), of now now']
  by (simp add: op_result_def)

definition sample_pool :: service where
  "sample_pool = (service_new 0 ephemeral_default)\<lparr>compaction_work_items := fmupd ''t''
     \<lparr>cwt_work_item = \<lparr>cw_id = ''1'', cw_table_schema = schema_minimal, cw_speedboat_files = fs_new,
        cw_delete_files = [], cw_checkpoint_id_to_replace = ''c'', cw_checkpoints_to_delete = []\<rparr>,
      cwt_lease_expires_at_ms = None\<rparr> fmempty\<rparr>"

lemma compaction_claims_exclusive_witness:
  "\<exists>s1 first s2 second. get_compaction_work_items 0 [''t''] sample_pool = Inr (s1, first) \<and>
     get_compaction_work_items 59999 [''t''] s1 = Inr (s2, second) \<and>
     fst ` set first = {''t''} \<and> fst ` set first \<inter> fst ` set second = {}"
proof -
  obtain s1 first where first: "get_compaction_work_items 0 [''t''] sample_pool = Inr (s1, first)"
    "fst ` set first = {''t''}"
    by (simp add: get_compaction_work_items_def sample_pool_def lease_is_available_def)
  obtain s2 second where second: "get_compaction_work_items 59999 [''t''] s1 = Inr (s2, second)"
    by (simp add: get_compaction_work_items_def split_beta Let_def)
  have "iter_order [''t''] (compaction_work_items sample_pool)"
    by (simp add: iter_order_def sample_pool_def)
  from compaction_claims_exclusive [OF this first(1) second] first second show ?thesis
    by (auto simp: work_claim_lease_length_ms_def)
qed

subsection \<open>Extension work\<close>

definition es_items :: "service \<Rightarrow> (string, extension_work_item_tracker) hash_map" where
  "es_items s = hm_get_or fmempty (extension_work_items s) ''es''"

text \<open>The work items of a service are filed under their own table.\<close>

definition es_items_wf :: "string list \<Rightarrow> service \<Rightarrow> bool" where
  "es_items_wf order s \<longleftrightarrow> hm_contains (extension_work_items s) ''es'' \<and>
     iter_order order (es_items s) \<and>
     fmpred (\<lambda>t w. ew_table_name (ewt_work_item w) = t) (es_items s)"

abbreviation es_qualifies :: "millis \<Rightarrow> extension_work_item_tracker \<Rightarrow> bool" where
  "es_qualifies now w \<equiv>
     has_work (ewt_work_item w) \<and> lease_is_available now (ewt_lease_expires_at_ms w)"

abbreviation es_lease :: "millis \<Rightarrow> extension_work_item_tracker \<Rightarrow> extension_work_item_tracker" where
  "es_lease now w \<equiv> w\<lparr>ewt_lease_expires_at_ms := Some (claim_lease_expires_at_ms now)\<rparr>"

lemma get_extension_work_items_es:
  assumes "es_items_wf order s"
  shows "\<exists>s'. get_extension_work_items now order ''es'' s =
      Inr (s', map (ewt_work_item \<circ> snd)
        (snd (claim_loop (es_qualifies now) (es_lease now) order (es_items s)))) \<and>
    es_items s' = fst (claim_loop (es_qualifies now) (es_lease now) order (es_items s)) \<and>
    hm_contains (extension_work_items s') ''es''"
proof -
  from assms obtain items where items: "fmlookup (extension_work_items s) ''es'' = Some items"
    by (auto simp: es_items_wf_def)
  then have "es_items s = items" by (simp add: es_items_def)
  with items show ?thesis
    by (simp add: get_extension_work_items_def split_beta Let_def) (simp add: es_items_def hm_get_or_def)
qed

lemma es_claimed:
  assumes "es_items_wf order s" "get_extension_work_items now order ''es'' s = Inr (s', ws)"
  shows "ew_table_name ` set ws = {t. \<exists>w. fmlookup (es_items s) t = Some w \<and> es_qualifies now w}"
proof -
  from get_extension_work_items_es [OF assms(1), of now] assms(2)
  have ws: "ws = map (ewt_work_item \<circ> snd) (snd (claim_loop (es_qualifies now) (es_lease now) order (es_items s)))"
    by auto
  from assms(1) have d: "distinct order" "\<And>t. t \<in> set order \<longleftrightarrow> (\<exists>w. fmlookup (es_items s) t = Some w)"
    "\<And>t w. fmlookup (es_items s) t = Some w \<Longrightarrow> ew_table_name (ewt_work_item w) = t"
    by (simp_all add: es_items_wf_def iter_order_def fmlookup_dom'_iff fmpred_iff)
  have "set ws = {ewt_work_item w | t w. fmlookup (es_items s) t = Some w \<and> es_qualifies now w}"
    unfolding ws using d(2) by (force simp: claim_loop_claimed [OF d(1)])
  then show ?thesis using d(3) by (force simp: image_iff)
qed

lemma es_claim_keeps:
  assumes "es_items_wf order s" "get_extension_work_items now order ''es'' s = Inr (s', ws)"
  shows "es_items_wf order s'"
    and "fmlookup (es_items s') t = map_option (\<lambda>w. if es_qualifies now w then es_lease now w else w)
      (fmlookup (es_items s) t)"
proof -
  from get_extension_work_items_es [OF assms(1), of now] assms(2)
  have s': "es_items s' = fst (claim_loop (es_qualifies now) (es_lease now) order (es_items s))"
    "hm_contains (extension_work_items s') ''es''" by auto
  from assms(1) have d: "distinct order" "iter_order order (es_items s)"
    by (simp_all add: es_items_wf_def iter_order_def)
  show look: "fmlookup (es_items s') t = map_option (\<lambda>w. if es_qualifies now w then es_lease now w else w)
      (fmlookup (es_items s) t)" for t
    using iter_order_mem [OF d(2), of t] by (auto simp: s'(1) claim_loop_lookup [OF d(1)])
  show "es_items_wf order s'"
    unfolding es_items_wf_def
  proof (intro conjI)
    show "iter_order order (es_items s')" unfolding s'(1) by (rule iter_order_claim [OF d(2)])
    show "fmpred (\<lambda>t w. ew_table_name (ewt_work_item w) = t) (es_items s')"
      using assms(1) by (auto simp: es_items_wf_def fmpred_iff look)
  qed (rule s'(2))
qed

lemma get_extension_work_items_total:
  "\<exists>s' ws. get_extension_work_items now order e s = Inr (s', ws)"
  by (auto simp: get_extension_work_items_def split_beta Let_def split: option.split)

interpretation extension_pool: lease_pool
  "\<lambda>now. run_op (get_extension_work_items now order ''es'')"
  "\<lambda>now s. ew_table_name ` set (op_result (get_extension_work_items now order ''es'') s)"
  "\<lambda>s t. case fmlookup (es_items s) t of None \<Rightarrow> False | Some w \<Rightarrow> has_work (ewt_work_item w)"
  "\<lambda>s t. case fmlookup (es_items s) t of None \<Rightarrow> None | Some w \<Rightarrow> ewt_lease_expires_at_ms w"
  "es_items_wf order"
  for order
proof
  fix s :: service and now t
  assume valid: "es_items_wf order s"
  obtain s' ws where run: "get_extension_work_items now order ''es'' s = Inr (s', ws)"
    using get_extension_work_items_total by blast
  note keeps = es_claim_keeps [OF valid run] and claimed = es_claimed [OF valid run]
  from run have eq: "run_op (get_extension_work_items now order ''es'') s = s'"
    "op_result (get_extension_work_items now order ''es'') s = ws" by (simp_all add: op_result_def)
  show "es_items_wf order (run_op (get_extension_work_items now order ''es'') s)"
    unfolding eq by (rule keeps(1))
  show "ew_table_name ` set (op_result (get_extension_work_items now order ''es'') s) =
      {k. (case fmlookup (es_items s) k of None \<Rightarrow> False | Some w \<Rightarrow> has_work (ewt_work_item w)) \<and>
        lease_is_available now (case fmlookup (es_items s) k of None \<Rightarrow> None | Some w \<Rightarrow> ewt_lease_expires_at_ms w)}"
    unfolding eq claimed by (auto split: option.splits)
  show "(case fmlookup (es_items (run_op (get_extension_work_items now order ''es'') s)) t of
        None \<Rightarrow> False | Some w \<Rightarrow> has_work (ewt_work_item w)) =
      (case fmlookup (es_items s) t of None \<Rightarrow> False | Some w \<Rightarrow> has_work (ewt_work_item w))"
    unfolding eq keeps(2) by (auto split: option.split)
  show "(case fmlookup (es_items (run_op (get_extension_work_items now order ''es'') s)) t of
        None \<Rightarrow> None | Some w \<Rightarrow> ewt_lease_expires_at_ms w) =
      (if t \<in> ew_table_name ` set (op_result (get_extension_work_items now order ''es'') s)
       then Some (claim_lease_expires_at_ms now)
       else case fmlookup (es_items s) t of None \<Rightarrow> None | Some w \<Rightarrow> ewt_lease_expires_at_ms w)"
    unfolding eq keeps(2) claimed by (auto split: option.split)
qed

subsection \<open>Cleanup work\<close>

lemma lease_cleanup_items_spec:
  "distinct is \<Longrightarrow> (\<forall>i \<in> set is. i < length items) \<Longrightarrow>
     lease_cleanup_items now is items =
       (map (\<lambda>i. if i \<in> set is
                 then (items ! i)\<lparr>clt_lease_expires_at_ms := Some (claim_lease_expires_at_ms now)\<rparr>
                 else items ! i) [0..<length items],
        map (\<lambda>i. clt_work_item (items ! i)) is)"
proof (induction "is" arbitrary: items)
  case Nil
  then show ?case by (simp add: map_nth)
next
  case (Cons i "is")
  let ?items = "items[i := (items ! i)\<lparr>clt_lease_expires_at_ms := Some (claim_lease_expires_at_ms now)\<rparr>]"
  from Cons.prems have i: "i \<notin> set is" "distinct is" "\<forall>j \<in> set is. j < length ?items" "i < length items"
    by simp_all
  have "map (\<lambda>j. clt_work_item (?items ! j)) is = map (\<lambda>j. clt_work_item (items ! j)) is"
    using i(1) by (intro map_cong refl) (metis nth_list_update_neq)
  moreover have "map (\<lambda>j. if j \<in> set is
        then (?items ! j)\<lparr>clt_lease_expires_at_ms := Some (claim_lease_expires_at_ms now)\<rparr>
        else ?items ! j) [0..<length ?items] =
      map (\<lambda>j. if j \<in> set (i # is)
        then (items ! j)\<lparr>clt_lease_expires_at_ms := Some (claim_lease_expires_at_ms now)\<rparr>
        else items ! j) [0..<length items]"
    using i(1,4) by (auto simp: nth_list_update intro!: map_cong)
  ultimately show ?case by (simp only: lease_cleanup_items.simps Let_def Cons.IH [OF i(2,3)]) simp
qed

lemma ready_cleanup_indexes_props:
  "distinct (ready_cleanup_indexes now s)"
  "\<forall>i \<in> set (ready_cleanup_indexes now s). i < length (cleanup_work_items s)"
  by (simp_all add: ready_cleanup_indexes_def)

lemmas lease_ready_cleanup = lease_cleanup_items_spec [OF ready_cleanup_indexes_props]

lemma get_cleanup_work_items_eq:
  "get_cleanup_work_items now s =
     Inr (s\<lparr>cleanup_work_items :=
            map (\<lambda>i. if i \<in> set (ready_cleanup_indexes now s)
                then (cleanup_work_items s ! i)\<lparr>clt_lease_expires_at_ms := Some (claim_lease_expires_at_ms now)\<rparr>
                else cleanup_work_items s ! i) [0..<length (cleanup_work_items s)]\<rparr>,
          map (\<lambda>i. clt_work_item (cleanup_work_items s ! i)) (ready_cleanup_indexes now s))"
  by (simp only: get_cleanup_work_items_def lease_ready_cleanup Let_def prod.case)

lemma cleanup_ready_cong:
  "published_checkpoint_id s' = published_checkpoint_id s \<Longrightarrow> checkpoints s' = checkpoints s \<Longrightarrow>
     cleanup_work_item_is_ready s' w = cleanup_work_item_is_ready s w"
proof -
  assume "published_checkpoint_id s' = published_checkpoint_id s" "checkpoints s' = checkpoints s"
  then have "get_published_checkpoint_sync s' = get_published_checkpoint_sync s"
    "get_checkpoint_sync s' = get_checkpoint_sync s"
    by (simp_all add: fun_eq_iff get_published_checkpoint_sync_def get_checkpoint_sync_def)
  then show ?thesis by (simp only: cleanup_work_item_is_ready_def)
qed

interpretation cleanup_pool: lease_pool
  "\<lambda>now. run_op (get_cleanup_work_items now)"
  "\<lambda>now s. set (ready_cleanup_indexes now s)"
  "\<lambda>s i. i < length (cleanup_work_items s) \<and>
     cleanup_work_item_is_ready s (clt_work_item (cleanup_work_items s ! i))"
  "\<lambda>s i. if i < length (cleanup_work_items s) then clt_lease_expires_at_ms (cleanup_work_items s ! i) else None"
  "\<lambda>_. True"
proof
  fix s :: service and now i
  have run: "run_op (get_cleanup_work_items now) s = s\<lparr>cleanup_work_items :=
            map (\<lambda>i. if i \<in> set (ready_cleanup_indexes now s)
                then (cleanup_work_items s ! i)\<lparr>clt_lease_expires_at_ms := Some (claim_lease_expires_at_ms now)\<rparr>
                else cleanup_work_items s ! i) [0..<length (cleanup_work_items s)]\<rparr>" (is "_ = ?s'")
    by (simp add: get_cleanup_work_items_eq)
  have ready: "cleanup_work_item_is_ready ?s' w = cleanup_work_item_is_ready s w" for w
    by (rule cleanup_ready_cong) simp_all
  show "set (ready_cleanup_indexes now s) =
      {k. (k < length (cleanup_work_items s) \<and>
           cleanup_work_item_is_ready s (clt_work_item (cleanup_work_items s ! k))) \<and>
          lease_is_available now
            (if k < length (cleanup_work_items s) then clt_lease_expires_at_ms (cleanup_work_items s ! k) else None)}"
    by (auto simp: ready_cleanup_indexes_def)
  show "(i < length (cleanup_work_items (run_op (get_cleanup_work_items now) s)) \<and>
        cleanup_work_item_is_ready (run_op (get_cleanup_work_items now) s)
          (clt_work_item (cleanup_work_items (run_op (get_cleanup_work_items now) s) ! i))) =
      (i < length (cleanup_work_items s) \<and>
        cleanup_work_item_is_ready s (clt_work_item (cleanup_work_items s ! i)))"
    unfolding run ready
    by (cases "i < length (cleanup_work_items s)"; cases "i \<in> set (ready_cleanup_indexes now s)") simp_all
  show "(if i < length (cleanup_work_items (run_op (get_cleanup_work_items now) s))
        then clt_lease_expires_at_ms (cleanup_work_items (run_op (get_cleanup_work_items now) s) ! i) else None) =
      (if i \<in> set (ready_cleanup_indexes now s) then Some (claim_lease_expires_at_ms now)
       else if i < length (cleanup_work_items s) then clt_lease_expires_at_ms (cleanup_work_items s ! i) else None)"
    unfolding run using ready_cleanup_indexes_props(2) [of now s] by auto
qed simp


definition sample_cleanup :: service where
  "sample_cleanup = (service_new 0 ephemeral_default)
     \<lparr>cleanup_work_items := [\<lparr>clt_work_item =
        \<lparr>cl_id = ''1'', cl_table_name = ''t'', cl_files_to_delete = [''old'']\<rparr>,
        clt_lease_expires_at_ms = None\<rparr>],
      published_checkpoint_id := fmupd ''active||t'' ''c1'' fmempty,
      checkpoints := fmupd ''t_c1'' (sample_checkpoint [''a''] [''b''] []) fmempty\<rparr>"


text \<open>
  C23. Work for the search extension is exclusive in the same way: within the lease no table's
  work is handed out twice; and a claim hands out all the work that is free, so nothing is left
  waiting while its lease is over.
\<close>

theorem extension_claims_exclusive:
  assumes "es_items_wf order s"
    and "get_extension_work_items now order ''es'' s = Inr (s1, first)"
    and "get_extension_work_items now' order ''es'' s1 = Inr (s2, second)"
    and "now' < now + work_claim_lease_length_ms"
  shows "ew_table_name ` set first \<inter> ew_table_name ` set second = {} \<and>
    ew_table_name ` set first = {t. \<exists>w. fmlookup (es_items s) t = Some w \<and>
       has_work (ewt_work_item w) \<and> lease_is_available now (ewt_lease_expires_at_ms w)}"
  using assms extension_pool.exclusive [OF assms(1,4)] es_claimed [OF assms(1,2)]
  by (simp add: op_result_def)

definition sample_tracker :: extension_work_item_tracker where
  "sample_tracker =
     \<lparr>ewt_work_item = \<lparr>ew_id = ''1'', ew_extension_type = ''es'', ew_table_name = ''t'',
        ew_checkpoint_id = Some ''c'', ew_table_schema = schema_minimal,
        ew_speedboat_files = sample_files [''b''], ew_iceberg_files = fs_new\<rparr>,
      ewt_lease_expires_at_ms = None\<rparr>"

definition sample_es :: service where
  "sample_es = (service_new 0 ephemeral_default)\<lparr>extension_work_items :=
     fmupd ''es'' (fmupd ''t'' sample_tracker fmempty) fmempty\<rparr>"

lemma extension_claims_exclusive_witness:
  "\<exists>s1 first s2 second. get_extension_work_items 0 [''t''] ''es'' sample_es = Inr (s1, first) \<and>
     get_extension_work_items 1 [''t''] ''es'' s1 = Inr (s2, second) \<and>
     ew_table_name ` set first = {''t''} \<and> ew_table_name ` set first \<inter> ew_table_name ` set second = {}"
proof -
  obtain s1 first where first: "get_extension_work_items 0 [''t''] ''es'' sample_es = Inr (s1, first)"
    using get_extension_work_items_total by blast
  obtain s2 second where second: "get_extension_work_items 1 [''t''] ''es'' s1 = Inr (s2, second)"
    using get_extension_work_items_total by blast
  have es: "extension_work_items sample_es = fmupd ''es'' (fmupd ''t'' sample_tracker fmempty) fmempty"
    by (simp add: sample_es_def)
  then have items: "es_items sample_es = fmupd ''t'' sample_tracker fmempty"
    by (simp add: es_items_def)
  have tracker: "has_work (ewt_work_item sample_tracker)" "ewt_lease_expires_at_ms sample_tracker = None"
    "ew_table_name (ewt_work_item sample_tracker) = ''t''"
    by (simp_all add: sample_tracker_def has_work_def fs_len_def sample_files_def)
  have wf: "es_items_wf [''t''] sample_es"
    by (simp add: es_items_wf_def items es iter_order_def fmpred_upd tracker)
  have soon: "(1 :: millis) < 0 + work_claim_lease_length_ms"
    by (simp add: work_claim_lease_length_ms_def)
  note excl = extension_claims_exclusive [OF wf first second soon]
  have free: "{t. \<exists>w. fmlookup (es_items sample_es) t = Some w \<and> has_work (ewt_work_item w) \<and>
      lease_is_available 0 (ewt_lease_expires_at_ms w)} = {''t''}"
    using tracker by (auto simp: items lease_is_available_def split: if_splits)
  show ?thesis
    by (intro exI conjI) (rule first, rule second, rule excl [THEN conjunct2, unfolded free],
      rule excl [THEN conjunct1])
qed

end
