(* ===== verification/Service_Commits.thy ===== *)
theory Service_Commits
  imports Service_Work
begin

section \<open>Commits\<close>

text \<open>
  How commits make checkpoints (\<^verbatim>\<open>ephemeral_service_impl.rs\<close>): a speedboat commit adds recent
  files or deletes, an Iceberg commit replaces the Iceberg files and applies compactions, an
  extension commit covers waiting checkpoints with side files; each queues the table for
  publication. Also the catalog operations (tables, aliases, templates, pipelines, policies).
  \<open>gen\<close> is the id generator and \<open>hash\<close> the hash of the standard library.
\<close>

subsection \<open>Extension metadata of a new checkpoint\<close>

definition add_recent_extension_files ::
    "string list \<Rightarrow> string \<Rightarrow> extension_commit \<Rightarrow> service \<Rightarrow> service" where
  "add_recent_extension_files order table_name commit s =
     s\<lparr>recent_file_extension_metadata :=
         fold (\<lambda>file_name m. case fmlookup (ec_files commit) file_name of
                 None \<Rightarrow> m
               | Some files \<Rightarrow> fmupd (recent_file_key table_name (ec_extension commit) file_name) files m)
           order (recent_file_extension_metadata s)\<rparr>"

text \<open>
  The loop over the files of one kind: known side files go into the extension map, the other
  files into the set that still needs work.
\<close>

definition fill_file ::
    "(string \<Rightarrow> extension_file list option) \<Rightarrow> extension_file_metadata \<times> file_set_payload \<Rightarrow>
     file_descriptor \<Rightarrow> extension_file_metadata \<times> file_set_payload" where
  "fill_file recent acc fd =
     (case recent (fd_path fd) of
        Some files \<Rightarrow> (fmupd (fd_path fd) files (fst acc), snd acc)
      | None \<Rightarrow> (fst acc, fs_add (snd acc) fd))"

definition try_fill_checkpoint_extension_metadata ::
    "service \<Rightarrow> string \<Rightarrow> table_metadata_checkpoint \<Rightarrow>
     (table_metadata_checkpoint \<times> file_set_payload \<times> file_set_payload) res" where
  "try_fill_checkpoint_extension_metadata s extension_name metadata =
     (let tm = retain_current_extension_metadata metadata;
          m0 = hm_get_or fmempty (extension_metadata tm) extension_name;
          recent = recent_file_extension_metadata_for s (tm_table_name tm) extension_name in
      rbind (case iceberg_metadata tm of None \<Rightarrow> Inr [] | Some im \<Rightarrow> as_file_tuples (im_files im))
        (\<lambda>iceberg_files.
      rbind (case speedboat_metadata tm of None \<Rightarrow> Inr [] | Some sm \<Rightarrow> as_file_tuples (sm_files sm))
        (\<lambda>speedboat_files.
      (let (m1, iceberg_set) = foldl (fill_file recent) (m0, fs_new) iceberg_files;
           (m2, speedboat_set) = foldl (fill_file recent) (m1, fs_new) speedboat_files in
       Inr (tm\<lparr>extension_metadata := fmupd extension_name m2 (extension_metadata tm)\<rparr>,
            speedboat_set, iceberg_set)))))"

definition note_extension_work :: "string \<Rightarrow> string \<Rightarrow> string \<Rightarrow> service \<Rightarrow> service" where
  "note_extension_work table_name extension checkpoint_id s =
     (let key = extension_work_key table_name extension in
      s\<lparr>checkpoints_needing_extension_work :=
          fmupd key (hm_get_or [] (checkpoints_needing_extension_work s) key @ [checkpoint_id])
            (checkpoints_needing_extension_work s)\<rparr>)"

definition fill_extension_work_item ::
    "(nat \<Rightarrow> string) \<Rightarrow> string \<Rightarrow> string \<Rightarrow> string \<Rightarrow> powdrr_schema \<Rightarrow> file_set_payload \<Rightarrow>
     file_set_payload \<Rightarrow> service \<Rightarrow> service res" where
  "fill_extension_work_item gen table_name extension checkpoint_id schema speedboat_files iceberg_files s =
     (if fs_len speedboat_files = 0 \<and> fs_len iceberg_files = 0 then Inr s
      else
        rbind (unwrap ''called `Option::unwrap()` on a `None` value''
                (fmlookup (extension_work_items s) ''es'')) (\<lambda>es_work_items.
        rmap (note_extension_work table_name extension checkpoint_id)
          (case fmlookup es_work_items table_name of
             None \<Rightarrow>
               (let item = \<lparr>ewt_work_item =
                      \<lparr>ew_id = gen (id_seq s), ew_extension_type = extension,
                       ew_table_name = table_name, ew_checkpoint_id = Some checkpoint_id,
                       ew_table_schema = schema, ew_speedboat_files = speedboat_files,
                       ew_iceberg_files = iceberg_files\<rparr>,
                     ewt_lease_expires_at_ms = None\<rparr> in
                Inr ((draw_id s)\<lparr>extension_work_items :=
                       fmupd ''es'' (fmupd table_name item es_work_items) (extension_work_items s)\<rparr>))
           | Some tracker \<Rightarrow>
               (let w = ewt_work_item tracker in
                rbind (fs_merge (ew_speedboat_files w) speedboat_files) (\<lambda>sb.
                rbind (fs_merge (ew_iceberg_files w) iceberg_files) (\<lambda>ice.
                (let w' = w\<lparr>ew_checkpoint_id := Some checkpoint_id, ew_table_schema := schema,
                            ew_speedboat_files := sb, ew_iceberg_files := ice\<rparr> in
                 Inr (s\<lparr>extension_work_items :=
                          fmupd ''es'' (fmupd table_name (tracker\<lparr>ewt_work_item := w'\<rparr>) es_work_items)
                            (extension_work_items s)\<rparr>))))))))"

subsection \<open>Compactions of a new checkpoint\<close>

definition handle_compaction ::
    "service \<Rightarrow> string option \<Rightarrow> table_metadata_checkpoint \<Rightarrow> table_metadata_checkpoint res" where
  "handle_compaction s compaction checkpoint =
     (case compaction of
        None \<Rightarrow> Inr checkpoint
      | Some k \<Rightarrow>
          rbind (unwrap ''called `Option::unwrap()` on a `None` value'' (fmlookup (compactions s) k))
            (\<lambda>(_, cc).
          rmap (\<lambda>c. remove_extension_keys (cc_removed_speedboat_files cc)
                      (remove_delete_files (cc_removed_delete_files cc) c))
            (remove_speedboat_files (cc_removed_speedboat_files cc) checkpoint)))"

definition handle_compactions ::
    "service \<Rightarrow> string list \<Rightarrow> table_metadata_checkpoint \<Rightarrow> table_metadata_checkpoint res" where
  "handle_compactions s ks checkpoint = foldm (\<lambda>c k. handle_compaction s (Some k) c) checkpoint ks"

definition replace_and_delete_checkpoints ::
    "(nat \<Rightarrow> string) \<Rightarrow> string \<Rightarrow> service \<Rightarrow> (service \<times> cleanup_work_item) res" where
  "replace_and_delete_checkpoints gen compaction s =
     rbind (unwrap ''called `Option::unwrap()` on a `None` value'' (fmlookup (compactions s) compaction))
       (\<lambda>(table_name, cc).
     (case fmlookup (compaction_work_items s) table_name of
        None \<Rightarrow> Inl (Panic (''Compaction work item missing = '' @ table_name))
      | Some tracker \<Rightarrow>
          rbind (assert_that ''assertion `left == right` failed''
              (cw_checkpoint_id_to_replace (cwt_work_item tracker) = cc_checkpoint_id_to_replace cc)) (\<lambda>_.
          rbind (assert_that ''assertion `left == right` failed''
              (cw_id (cwt_work_item tracker) = compaction)) (\<lambda>_.
            Inr ((draw_id s)\<lparr>compaction_work_items := fmdrop table_name (compaction_work_items s)\<rparr>,
                 \<lparr>cl_id = gen (id_seq s), cl_table_name = table_name,
                  cl_files_to_delete = cc_removed_speedboat_files cc @ cc_removed_delete_files cc\<rparr>)))))"

text \<open>\<^verbatim>\<open>sum::<u64>()\<close> wraps in a release build.\<close>

definition maybe_create_compaction_work_item ::
    "(nat \<Rightarrow> string) \<Rightarrow> table_metadata_checkpoint \<Rightarrow> service \<Rightarrow> service res" where
  "maybe_create_compaction_work_item gen checkpoint s =
     (let t = tm_table_name checkpoint;
          waiting = hm_get_or [] (not_compacted_checkpoint_ids s) t;
          s1 = s\<lparr>not_compacted_checkpoint_ids := fmupd t waiting (not_compacted_checkpoint_ids s)\<rparr> in
      if hm_contains (compaction_work_items s1) t then
        Inr (s1\<lparr>not_compacted_checkpoint_ids :=
                  fmupd t (waiting @ [tm_checkpoint_id checkpoint]) (not_compacted_checkpoint_ids s1)\<rparr>)
      else
        (case speedboat_metadata checkpoint of
           None \<Rightarrow> Inr s1
         | Some sm \<Rightarrow>
             (let files = sm_files sm;
                  compact = (of_nat (length (file_paths files)) \<ge> threshold (tpm_compaction_mode (mode s1)) \<or>
                             sum_list (sizes files) > 30 * 1024 * 1024) in
              if compact then
                rmap (\<lambda>w. (draw_id s1)\<lparr>compaction_work_items :=
                          fmupd t \<lparr>cwt_work_item = w, cwt_lease_expires_at_ms = None\<rparr> (compaction_work_items s1),
                        not_compacted_checkpoint_ids := fmupd t [] (not_compacted_checkpoint_ids s1)\<rparr>)
                  (from_checkpoint (gen (id_seq s1)) checkpoint waiting)
              else Inr s1)))"

subsection \<open>Speedboat commits\<close>

definition fresh_checkpoint :: "string \<Rightarrow> powdrr_schema \<Rightarrow> table_metadata_checkpoint" where
  "fresh_checkpoint table_name schema =
     \<lparr>tm_table_name = table_name, tm_original_checkpoint_id = None, tm_checkpoint_id = [],
      iceberg_metadata = None, speedboat_metadata = None, deletes_metadata = None,
      extension_metadata = fmempty, tm_schema = schema\<rparr>"

text \<open>The latest checkpoint of a table, or the one to start from.\<close>

definition latest_checkpoint ::
    "service \<Rightarrow> string \<Rightarrow> powdrr_schema res \<Rightarrow> table_metadata_checkpoint res" where
  "latest_checkpoint s table_name start_schema =
     (case get_latest_materialized_checkpoint_sync s table_name None of
        Some checkpoint_id \<Rightarrow>
          (case fmlookup (checkpoints s) (checkpoint_key table_name checkpoint_id) of
             Some c \<Rightarrow> Inr c
           | None \<Rightarrow> Inl (Panic (''Found latest checkpoint id but checkpoint missing = '' @
                        checkpoint_key table_name checkpoint_id)))
      | None \<Rightarrow> rmap (fresh_checkpoint table_name) start_schema)"

definition insert_checkpoint :: "string \<Rightarrow> string \<Rightarrow> table_metadata_checkpoint \<Rightarrow> service \<Rightarrow> service" where
  "insert_checkpoint table_name checkpoint_id tm s =
     s\<lparr>checkpoints := fmupd (checkpoint_key table_name checkpoint_id) tm (checkpoints s)\<rparr>"

abbreviation unwrap_schema :: "speedboat_commit_table_info \<Rightarrow> powdrr_schema res" where
  "unwrap_schema ti \<equiv> unwrap ''called `Option::unwrap()` on a `None` value'' (ti_schema ti)"

definition new_speedboat_files ::
    "(string \<Rightarrow> u64) \<Rightarrow> speedboat_commit_table_info \<Rightarrow> table_metadata_checkpoint \<Rightarrow> file_set_payload res" where
  "new_speedboat_files hash ti latest =
     (case speedboat_metadata latest of
        None \<Rightarrow>
          rmap (\<lambda>schema. \<lparr>file_paths = ti_files ti, schemas = [schema],
                 file_schemas = map (\<lambda>_. 0) (ti_files ti), sizes = ti_sizes ti\<rparr>) (unwrap_schema ti)
      | Some existing \<Rightarrow>
          rbind (as_file_set_payload hash ti) (\<lambda>payload. fs_merge (sm_files existing) payload))"

definition speedboat_commit_type_commit ::
    "(nat \<Rightarrow> string) \<Rightarrow> (string \<Rightarrow> u64) \<Rightarrow> speedboat_commit_table_info \<Rightarrow> string option \<Rightarrow>
     service \<Rightarrow> service res" where
  "speedboat_commit_type_commit gen hash ti compaction s =
     (let t = ti_table_name ti in
      rbind (latest_checkpoint s t (unwrap_schema ti)) (\<lambda>latest.
      (let new_id = gen (id_seq s); s1 = draw_id s in
       rbind (new_speedboat_files hash ti latest) (\<lambda>files.
       rbind (case ti_schema ti of
                None \<Rightarrow> Inr (tm_schema latest)
              | Some schema \<Rightarrow> merge_from (tm_schema latest) schema) (\<lambda>merged_schema.
       rbind (handle_compaction s1 compaction
               \<lparr>tm_table_name = t, tm_original_checkpoint_id = None, tm_checkpoint_id = new_id,
                iceberg_metadata = iceberg_metadata latest,
                speedboat_metadata = Some \<lparr>sm_files = files\<rparr>,
                deletes_metadata = deletes_metadata latest,
                extension_metadata = extension_metadata latest, tm_schema = merged_schema\<rparr>) (\<lambda>c1.
       rbind (try_fill_checkpoint_extension_metadata s1 ''es'' c1) (\<lambda>(c2, speedboat_files, iceberg_files).
       rbind (fill_extension_work_item gen t ''es'' new_id merged_schema speedboat_files iceberg_files
               (insert_checkpoint t new_id c2 s1)) (\<lambda>s2.
       maybe_create_compaction_work_item gen c2 (set_latest_committed_checkpoint t None new_id s2)))))))))"

definition speedboat_commit_type_delete ::
    "(nat \<Rightarrow> string) \<Rightarrow> speedboat_commit_table_info \<Rightarrow> string option \<Rightarrow> service \<Rightarrow> service res" where
  "speedboat_commit_type_delete gen ti compaction s =
     (let t = ti_table_name ti in
      rbind (latest_checkpoint s t (Inr schema_minimal)) (\<lambda>latest.
      (let new_id = gen (id_seq s); s1 = draw_id s;
           files = (case deletes_metadata latest of
                      None \<Rightarrow> ti_files ti
                    | Some existing \<Rightarrow> dm_files existing @ ti_files ti) in
       rbind (handle_compaction s1 compaction
               \<lparr>tm_table_name = t, tm_original_checkpoint_id = None, tm_checkpoint_id = new_id,
                iceberg_metadata = iceberg_metadata latest,
                speedboat_metadata = speedboat_metadata latest,
                deletes_metadata = Some \<lparr>dm_files = files\<rparr>,
                extension_metadata = extension_metadata latest, tm_schema = tm_schema latest\<rparr>) (\<lambda>c1.
       rbind (try_fill_checkpoint_extension_metadata s1 ''es'' c1) (\<lambda>(c2, _, _).
       Inr (set_latest_committed_checkpoint t None new_id (insert_checkpoint t new_id c2 s1)))))))"

definition speedboat_commit_info ::
    "(nat \<Rightarrow> string) \<Rightarrow> (string \<Rightarrow> u64) \<Rightarrow> string option \<Rightarrow> service \<times> string list \<Rightarrow>
     speedboat_commit_table_info \<Rightarrow> (service \<times> string list) res" where
  "speedboat_commit_info gen hash compaction acc ti =
     (let (s, touched) = acc;
          touched' = (if ti_table_name ti \<in> set touched then touched else touched @ [ti_table_name ti]) in
      rmap (\<lambda>s'. (s', touched'))
        (if ti_commit_type ti = ''commit'' \<or> ti_commit_type ti = ''compact''
         then speedboat_commit_type_commit gen hash ti compaction s
         else if ti_commit_type ti = ''delete'' then speedboat_commit_type_delete gen ti compaction s
         else Inl (Panic ''Unknown Speedboat commit type'')))"

definition speedboat_commit_op ::
    "(nat \<Rightarrow> string) \<Rightarrow> (string \<Rightarrow> u64) \<Rightarrow> speedboat_commit \<Rightarrow> (service, bool) op" where
  "speedboat_commit_op gen hash commit s =
     rbind (assert_that ''Speedboat commits do not yet support compactions'' (sc_compaction commit = None)) (\<lambda>_.
     rbind (foldm (speedboat_commit_info gen hash (sc_compaction commit)) (s, []) (sc_type_files commit))
       (\<lambda>(s1, touched).
     Inr (fold (queue_publication_request default_metadata_namespace) touched s1, True)))"

subsection \<open>Iceberg commits\<close>

definition enqueue_cleanup ::
    "(nat \<Rightarrow> string) \<Rightarrow> service \<Rightarrow> string \<Rightarrow> service res" where
  "enqueue_cleanup gen s compaction =
     rmap (\<lambda>(s', w). s'\<lparr>cleanup_work_items := cleanup_work_items s' @
                          [\<lparr>clt_work_item = w, clt_lease_expires_at_ms = None\<rparr>]\<rparr>)
       (replace_and_delete_checkpoints gen compaction s)"

definition iceberg_commit_op :: "(nat \<Rightarrow> string) \<Rightarrow> string \<Rightarrow> iceberg_commit \<Rightarrow> (service, bool) op" where
  "iceberg_commit_op gen t commit s =
     rbind (latest_checkpoint s t (Inr (im_table_schema (ic_metadata commit)))) (\<lambda>latest.
     (let new_id = gen (id_seq s); s1 = draw_id s in
      rbind (merge_from (tm_schema latest) (im_table_schema (ic_metadata commit))) (\<lambda>merged_schema.
      rbind (handle_compactions s1 (ic_compactions commit)
              \<lparr>tm_table_name = t, tm_original_checkpoint_id = None, tm_checkpoint_id = new_id,
               iceberg_metadata = Some (ic_metadata commit),
               speedboat_metadata = speedboat_metadata latest,
               deletes_metadata = deletes_metadata latest,
               extension_metadata = extension_metadata latest, tm_schema = merged_schema\<rparr>) (\<lambda>c1.
      rbind (try_fill_checkpoint_extension_metadata s1 ''es'' c1) (\<lambda>(c2, speedboat_files, iceberg_files).
      rbind (fill_extension_work_item gen t ''es'' new_id merged_schema speedboat_files iceberg_files
              (set_latest_committed_checkpoint t None new_id (insert_checkpoint t new_id c2 s1))) (\<lambda>s2.
      rbind (foldm (enqueue_cleanup gen) s2 (ic_compactions commit)) (\<lambda>s3.
      Inr (queue_publication_request default_metadata_namespace t s3, True))))))))"

subsection \<open>Extension, compaction and cleanup commits\<close>

definition add_coverage_for ::
    "string \<Rightarrow> string \<Rightarrow> extension_commit \<Rightarrow> service \<Rightarrow> (service \<times> string option) res" where
  "add_coverage_for table_name checkpoint_id commit s =
     (let key = checkpoint_key table_name checkpoint_id in
      rbind (unwrap ''called `Option::unwrap()` on a `None` value'' (fmlookup (checkpoints s) key)) (\<lambda>checkpoint.
      (let checkpoint' = fst (add_coverage commit checkpoint);
           s1 = s\<lparr>checkpoints := fmupd key checkpoint' (checkpoints s)\<rparr> in
       rbind (fully_covered_for_extension (ec_extension commit) checkpoint') (\<lambda>covered.
       if covered then
         (let work_key = extension_work_key table_name (ec_extension commit) in
          Inr (case fmlookup (checkpoints_needing_extension_work s1) work_key of
                 None \<Rightarrow> s1
               | Some ids \<Rightarrow>
                   s1\<lparr>checkpoints_needing_extension_work :=
                        fmupd work_key [x \<leftarrow> ids. x \<noteq> checkpoint_id] (checkpoints_needing_extension_work s1)\<rparr>,
               Some checkpoint_id))
       else Inr (s1, None)))))"

definition apply_extension_commit_to_work_item ::
    "string list \<Rightarrow> string \<Rightarrow> extension_commit \<Rightarrow> service \<Rightarrow> service res" where
  "apply_extension_commit_to_work_item order table_name commit s =
     (case fmlookup (extension_work_items s) (ec_extension commit) of
        None \<Rightarrow> Inr s
      | Some items \<Rightarrow>
          (case fmlookup items table_name of
             None \<Rightarrow> Inr s
           | Some tracker \<Rightarrow>
               (let w = ewt_work_item tracker in
                rbind (fs_remove order (ew_speedboat_files w)) (\<lambda>sb.
                rbind (fs_remove order (ew_iceberg_files w)) (\<lambda>ice.
                (let tracker' = \<lparr>ewt_work_item = w\<lparr>ew_speedboat_files := sb, ew_iceberg_files := ice\<rparr>,
                                 ewt_lease_expires_at_ms = None\<rparr> in
                 Inr (s\<lparr>extension_work_items :=
                          fmupd (ec_extension commit) (fmupd table_name tracker' items)
                            (extension_work_items s)\<rparr>)))))))"

definition cover_waiting ::
    "string \<Rightarrow> extension_commit \<Rightarrow> service \<times> string list \<Rightarrow> string \<Rightarrow> (service \<times> string list) res" where
  "cover_waiting table_name commit acc checkpoint_id =
     rmap (\<lambda>(s', covered). (s', snd acc @ (case covered of None \<Rightarrow> [] | Some c \<Rightarrow> [c])))
       (add_coverage_for table_name checkpoint_id commit (fst acc))"

text \<open>Ids are compared as text.\<close>

definition advance_es :: "string \<Rightarrow> string \<Rightarrow> service \<Rightarrow> service" where
  "advance_es t max_id s =
     (case get_latest_materialized_checkpoint_sync s t (Some ''es'') of
        Some latest \<Rightarrow>
          if max_id > latest then set_latest_committed_checkpoint t (Some ''es'') max_id s else s
      | None \<Rightarrow> set_latest_committed_checkpoint t (Some ''es'') max_id s)"

text \<open>\<open>order\<close> enumerates the files of the commit.\<close>

definition extension_commit_op :: "string list \<Rightarrow> string \<Rightarrow> extension_commit \<Rightarrow> (service, bool) op" where
  "extension_commit_op order table_name commit s =
     (let waiting = (case checkpoints_needing_extension_work_for s table_name (ec_extension commit) of
                       None \<Rightarrow> [] | Some ids \<Rightarrow> ids) in
      rbind (assert_that ''assertion failed: waiting_checkpoint_ids.len() > 0'' (length waiting > 0)) (\<lambda>_.
      rbind (foldm (cover_waiting table_name commit) (s, []) waiting) (\<lambda>(s1, removed).
      rbind (assert_that ''assertion failed: removed_checkpoint_ids.len() > 0'' (length removed > 0)) (\<lambda>_.
      (let max_id = Max (set removed);
           s2 = add_recent_extension_files order table_name commit s1 in
       rbind (apply_extension_commit_to_work_item order table_name commit s2) (\<lambda>s3.
       Inr (queue_publication_request default_metadata_namespace table_name
              (advance_es table_name max_id s3), True)))))))"

definition compaction_commit_op :: "string \<Rightarrow> compaction_commit \<Rightarrow> (service, bool) op" where
  "compaction_commit_op table_name commit s =
     Inr (s\<lparr>compactions := fmupd (cc_compaction_id commit) (table_name, commit) (compactions s)\<rparr>, True)"

definition cleanup_commit_op :: "cleanup_commit \<Rightarrow> (service, bool) op" where
  "cleanup_commit_op commit s =
     Inr (s\<lparr>cleanup_work_items :=
              [w \<leftarrow> cleanup_work_items s. cl_id (clt_work_item w) \<noteq> clc_id commit]\<rparr>, True)"

subsection \<open>Catalog operations\<close>

text \<open>\<open>order\<close> enumerates the extensions of the checkpoint.\<close>

definition add_checkpoint ::
    "(nat \<Rightarrow> string) \<Rightarrow> string list \<Rightarrow> table_metadata_checkpoint \<Rightarrow> (service, unit) op" where
  "add_checkpoint gen order metadata s =
     (let t = tm_table_name metadata;
          s1 = (if hm_contains (tables s) t then s
                else s\<lparr>tables := fmupd t \<lparr>td_name = t, td_tags = fmempty, td_serving = None,
                         td_support = None, td_dynamodb = None, td_mongodb = None, td_redis = None\<rparr>
                       (tables s)\<rparr>);
          key = checkpoint_key t (tm_checkpoint_id metadata);
          s2 = (if hm_contains (checkpoints s1) key then s1
                else s1\<lparr>checkpoints := fmupd key metadata (checkpoints s1)\<rparr>);
          s3 = set_latest_committed_checkpoint_id None t (tm_checkpoint_id metadata) s2 in
      rmap (\<lambda>s4. (queue_publication_request default_metadata_namespace t s4, ()))
        (if extension_metadata metadata \<noteq> fmempty then
           Inr (fold (\<lambda>ext. set_latest_committed_checkpoint_id (Some ext) t (tm_checkpoint_id metadata))
                  order s3)
         else
           fill_extension_work_item gen t ''es'' (tm_checkpoint_id metadata) (tm_schema metadata)
             (case speedboat_metadata metadata of None \<Rightarrow> fs_new | Some m \<Rightarrow> sm_files m)
             (case iceberg_metadata metadata of None \<Rightarrow> fs_new | Some m \<Rightarrow> im_files m) s3))"

definition get_all_iceberg_tables :: "string list \<Rightarrow> (service, string list) op" where
  "get_all_iceberg_tables order s = Inr (s, order)"

definition create_table :: "create_table_t \<Rightarrow> (service, bool) op" where
  "create_table ct s =
     (case fmlookup (tables s) (crt_name ct) of
        Some _ \<Rightarrow> Inr (s\<lparr>tables := fmupd (crt_name ct) (from_create_table ct) (tables s)\<rparr>, True)
      | None \<Rightarrow>
          Inr (s\<lparr>tables := fmupd (crt_name ct) (from_create_table ct) (tables s),
                 not_compacted_checkpoint_ids := fmupd (crt_name ct) [] (not_compacted_checkpoint_ids s)\<rparr>,
               True))"

definition upsert_table_metadata :: "create_table_t \<Rightarrow> (service, bool) op" where
  "upsert_table_metadata ct = create_table ct"

definition describe_table :: "string \<Rightarrow> (service, table_description option) op" where
  "describe_table name s = Inr (s, fmlookup (tables s) (real_table_name s name))"

definition add_alias :: "string \<Rightarrow> string \<Rightarrow> (service, bool) op" where
  "add_alias table_name alias s =
     Inr (s\<lparr>table_aliases := fmupd alias table_name (table_aliases s)\<rparr>, True)"

definition remove_alias :: "string \<Rightarrow> string \<Rightarrow> (service, bool) op" where
  "remove_alias table_name alias s = Inr (s\<lparr>table_aliases := fmdrop alias (table_aliases s)\<rparr>, True)"

definition create_table_template :: "string \<Rightarrow> create_index_template_body \<Rightarrow> (service, bool) op" where
  "create_table_template name template s =
     (case fmlookup (table_templates s) name of
        Some _ \<Rightarrow> Inr (s\<lparr>table_templates := fmupd name template (fmdrop name (table_templates s))\<rparr>, True)
      | None \<Rightarrow> Inr (s\<lparr>table_templates := fmupd name template (table_templates s)\<rparr>, True))"

definition describe_table_template :: "string \<Rightarrow> (service, create_index_template_body option) op" where
  "describe_table_template name s = Inr (s, fmlookup (table_templates s) name)"

definition create_pipeline :: "string \<Rightarrow> pipeline_definition \<Rightarrow> (service, bool) op" where
  "create_pipeline name pipeline s =
     (case fmlookup (pipelines s) name of
        Some _ \<Rightarrow> Inl (Panic ''Need to do a real error path now'')
      | None \<Rightarrow> Inr (s\<lparr>pipelines := fmupd name pipeline (pipelines s)\<rparr>, True))"

definition describe_pipeline :: "string \<Rightarrow> (service, pipeline_definition option) op" where
  "describe_pipeline name s = Inr (s, fmlookup (pipelines s) name)"

definition create_lifetime_policy :: "string \<Rightarrow> ilm_policy_definition \<Rightarrow> (service, bool) op" where
  "create_lifetime_policy name policy s =
     (case fmlookup (lifetime_policies s) name of
        Some _ \<Rightarrow> Inl (Panic ''Need to do a real error path now'')
      | None \<Rightarrow> Inr (s\<lparr>lifetime_policies := fmupd name policy (lifetime_policies s)\<rparr>, True))"

definition describe_lifetime_policy :: "string \<Rightarrow> (service, ilm_policy_definition option) op" where
  "describe_lifetime_policy name s = Inr (s, fmlookup (lifetime_policies s) name)"

subsection \<open>What the pieces of a commit do\<close>

text \<open>
  The invariant of the commit path: every latest checkpoint id names a stored checkpoint, the
  work item of a table has all the files its waiting checkpoints lack, and all file sets are well
  formed.
\<close>

definition latest_present :: "service \<Rightarrow> bool" where
  "latest_present s \<longleftrightarrow>
     fmpred (\<lambda>_. fmpred (\<lambda>t cid. hm_contains (checkpoints s) (checkpoint_key t cid)))
       (latest_committed_checkpoint_id s)"

definition es_registry_wf :: "(string, (string, extension_work_item_tracker) hash_map) hash_map \<Rightarrow> bool" where
  "es_registry_wf r \<longleftrightarrow> hm_contains r ''es'' \<and>
     fmpred (\<lambda>_. fmpred (\<lambda>_ w. wf_files (ew_speedboat_files (ewt_work_item w)) \<and>
       wf_files (ew_iceberg_files (ewt_work_item w)))) r"

text \<open>The current files of a checkpoint without side files, and the files of a table's work item.\<close>

definition es_uncovered :: "table_metadata_checkpoint \<Rightarrow> string set" where
  "es_uncovered c = set (iceberg_paths c) \<union> set (speedboat_paths c) -
     fmdom' (hm_get_or fmempty (extension_metadata c) ''es'')"

definition pending_es :: "service \<Rightarrow> string \<Rightarrow> string set" where
  "pending_es s t =
     (case fmlookup (es_items s) t of
        None \<Rightarrow> {}
      | Some w \<Rightarrow> set (file_paths (ew_speedboat_files (ewt_work_item w))) \<union>
                  set (file_paths (ew_iceberg_files (ewt_work_item w))))"

text \<open>
  Every file a waiting checkpoint still lacks is in the work item of its table; the latest
  checkpoint of the search extension lacks none.
\<close>

definition waiting_complete :: "service \<Rightarrow> bool" where
  "waiting_complete s \<longleftrightarrow>
     (\<forall>t ids. fmlookup (checkpoints_needing_extension_work s) (extension_work_key t ''es'') = Some ids \<longrightarrow>
        (\<forall>cid \<in> set ids. \<exists>c. get_checkpoint_sync s t cid = Some c \<and> es_uncovered c \<subseteq> pending_es s t))"

definition es_latest_covered :: "service \<Rightarrow> bool" where
  "es_latest_covered s \<longleftrightarrow>
     (\<forall>t cid. fmlookup (hm_get_or fmempty (latest_committed_checkpoint_id s) (Some ''es'')) t = Some cid \<longrightarrow>
        (\<exists>c. get_checkpoint_sync s t cid = Some c \<and> es_uncovered c = {}))"

text \<open>
  The id generator never repeats an id, and its ids (decimal numbers) have no underscore; ids not
  drawn yet name no checkpoint.
\<close>

definition id_source :: "(nat \<Rightarrow> string) \<Rightarrow> bool" where
  "id_source gen \<longleftrightarrow> inj gen \<and> (\<forall>n. CHR ''_'' \<notin> set (gen n))"

definition fresh_ids :: "(nat \<Rightarrow> string) \<Rightarrow> service \<Rightarrow> bool" where
  "fresh_ids gen s \<longleftrightarrow>
     (\<forall>t n. id_seq s \<le> n \<longrightarrow> \<not> hm_contains (checkpoints s) (checkpoint_key t (gen n)))"

definition commits_inv :: "(nat \<Rightarrow> string) \<Rightarrow> service \<Rightarrow> bool" where
  "commits_inv gen s \<longleftrightarrow> latest_present s \<and> waiting_complete s \<and> es_latest_covered s \<and>
     es_registry_wf (extension_work_items s) \<and> fmpred (\<lambda>_. wf_checkpoint) (checkpoints s) \<and> fresh_ids gen s"

definition wf_info :: "speedboat_commit_table_info \<Rightarrow> bool" where
  "wf_info ti \<longleftrightarrow> length (ti_sizes ti) = length (ti_files ti) \<and> distinct (ti_files ti) \<and>
     (ti_segments ti \<noteq> [] \<longrightarrow> ti_files ti = map seg_file_path (ti_segments ti) \<and>
        ti_sizes ti = map seg_size (ti_segments ti))"

lemma latest_lookup:
  "get_latest_materialized_checkpoint_sync s t ext =
     fmlookup (hm_get_or fmempty (latest_committed_checkpoint_id s) ext) (real_table_name s t)"
  by (simp add: get_latest_materialized_checkpoint_sync_def hm_get_or_def split: option.split)

lemma latest_presentD:
  assumes "latest_present s" "fmlookup (hm_get_or fmempty (latest_committed_checkpoint_id s) ext) t = Some cid"
  shows "hm_contains (checkpoints s) (checkpoint_key t cid)"
  using assms by (auto simp: latest_present_def fmpred_iff hm_get_or_def split: option.splits)

lemma extension_work_key_inj: "extension_work_key t ext = extension_work_key t' ext \<longleftrightarrow> t = t'"
  by (simp add: extension_work_key_def)

lemma checkpoint_key_same_table: "checkpoint_key t i = checkpoint_key t j \<longleftrightarrow> i = j"
  by (simp add: checkpoint_key_def)

lemma latest_checkpoint_cases:
  assumes "commits_inv gen s" "real_table_name s t = t" "start = Inr schema"
  obtains (stored) cid old where "get_latest_materialized_checkpoint_sync s t None = Some cid"
      "get_checkpoint_sync s t cid = Some old" "latest_checkpoint s t start = Inr old" "wf_checkpoint old"
  | (first) "get_latest_materialized_checkpoint_sync s t None = None"
      "latest_checkpoint s t start = Inr (fresh_checkpoint t schema)"
proof (cases "get_latest_materialized_checkpoint_sync s t None")
  case None
  with assms(3) first show thesis by (simp add: latest_checkpoint_def)
next
  case (Some cid)
  with assms(1,2) have "hm_contains (checkpoints s) (checkpoint_key t cid)"
    by (intro latest_presentD [where ext = None]) (simp_all add: commits_inv_def latest_lookup)
  then obtain old where old: "fmlookup (checkpoints s) (checkpoint_key t cid) = Some old" by blast
  with assms(1) have "wf_checkpoint old" by (auto simp: commits_inv_def fmpred_iff)
  with Some old stored show thesis by (simp add: latest_checkpoint_def get_checkpoint_sync_def)
qed

lemma wf_fresh_checkpoint [simp]: "wf_checkpoint (fresh_checkpoint t schema)"
  by (simp add: fresh_checkpoint_def wf_checkpoint_def)

lemma latest_checkpoint_total:
  assumes "commits_inv gen s" "real_table_name s t = t" "start = Inr schema"
  obtains old where "latest_checkpoint s t start = Inr old" "wf_checkpoint old"
  using assms by (rule latest_checkpoint_cases) (use that in auto)

subsubsection \<open>The files of a commit\<close>

lemma as_file_set_payload_wf:
  assumes "wf_info ti" "ti_schema ti = Some schema"
  obtains fs where "as_file_set_payload hash ti = Inr fs" "wf_files fs" "file_paths fs = ti_files ti"
proof -
  let ?segs = "segment_files hash ti"
  have paths: "map seg_file_path ?segs = ti_files ti" and sizes: "length ?segs = length (ti_files ti)"
    using assms(1) by (auto simp: segment_files_def wf_info_def comp_def case_prod_beta
        map_fst_zip [unfolded comp_def, simplified])
  have "as_file_set_payload hash ti = Inr \<lparr>file_paths = map seg_file_path ?segs, schemas = [schema],
      file_schemas = map (\<lambda>_. 0) ?segs, sizes = map seg_size ?segs\<rparr>"
    using assms(2) by (simp add: as_file_set_payload_def Let_def)
  moreover have "wf_files \<lparr>file_paths = map seg_file_path ?segs, schemas = [schema],
      file_schemas = map (\<lambda>_. 0) ?segs, sizes = map seg_size ?segs\<rparr>"
    using assms(1) paths sizes by (auto simp: wf_files_def wf_info_def)
  ultimately show thesis using that paths by simp
qed

lemma new_speedboat_files_wf:
  assumes "wf_info ti" "ti_schema ti = Some schema" "wf_checkpoint old"
  obtains fs where "new_speedboat_files hash ti old = Inr fs" "wf_files fs"
    "set (file_paths fs) = set (speedboat_paths old) \<union> set (ti_files ti)"
proof (cases "speedboat_metadata old")
  case None
  with assms show thesis
    by (intro that) (auto simp: new_speedboat_files_def wf_files_def wf_info_def speedboat_paths_def)
next
  case (Some sm)
  with assms(3) have "wf_files (sm_files sm)" by (simp add: wf_checkpoint_def)
  moreover obtain p where p: "as_file_set_payload hash ti = Inr p" "wf_files p" "file_paths p = ti_files ti"
    using assms(1,2) by (rule as_file_set_payload_wf)
  ultimately obtain fs where "fs_merge (sm_files sm) p = Inr fs" "wf_files fs"
    "set (file_paths fs) = set (file_paths (sm_files sm)) \<union> set (file_paths p)"
    by (meson fs_merge_wf)
  with Some p show thesis by (intro that) (simp_all add: new_speedboat_files_def speedboat_paths_def)
qed

subsubsection \<open>Extension metadata\<close>

lemma fill_files:
  assumes "wf_files fs"
  shows "wf_files (snd (foldl (fill_file recent) (m, fs) fds)) \<and>
    set (file_paths (snd (foldl (fill_file recent) (m, fs) fds))) =
      set (file_paths fs) \<union> {fd_path fd | fd. fd \<in> set fds \<and> recent (fd_path fd) = None} \<and>
    (\<forall>p. fmlookup (fst (foldl (fill_file recent) (m, fs) fds)) p =
      (if p \<in> fd_path ` set fds \<and> recent p \<noteq> None then recent p else fmlookup m p))"
  using assms
proof (induction fds arbitrary: m fs)
  case Nil
  then show ?case by simp
next
  case (Cons fd fds)
  show ?case
  proof (cases "recent (fd_path fd)")
    case None
    from Cons.prems have wf: "wf_files (fs_add fs fd)" by (rule wf_fs_add)
    have "set (file_paths (fs_add fs fd)) = insert (fd_path fd) (set (file_paths fs))"
      using abs_fs_add [OF Cons.prems, of fd] abs_files_path_set [OF wf] abs_files_path_set [OF Cons.prems]
      by (auto split: if_splits)
    with Cons.IH [OF wf, of m] None show ?thesis by (auto simp: fill_file_def)
  next
    case (Some files)
    with Cons.IH [OF Cons.prems, of "fmupd (fd_path fd) files m"] show ?thesis
      by (auto simp: fill_file_def)
  qed
qed

text \<open>
  After the extension metadata is filled in, each current file has side files or is in one of the
  two sets of files that need work.
\<close>

lemma try_fill_wf:
  assumes "wf_checkpoint tm"
  obtains tm' sb ice where
    "try_fill_checkpoint_extension_metadata s ext tm = Inr (tm', sb, ice)"
    "wf_files sb" "wf_files ice" "wf_checkpoint tm'"
    "set (file_paths sb) = {p \<in> set (speedboat_paths tm). recent_file_extension_metadata_for s (tm_table_name tm) ext p = None}"
    "set (file_paths ice) = {p \<in> set (iceberg_paths tm). recent_file_extension_metadata_for s (tm_table_name tm) ext p = None}"
    "tm' = tm\<lparr>extension_metadata := extension_metadata tm'\<rparr>"
    "set (iceberg_paths tm) \<union> set (speedboat_paths tm) \<subseteq>
       fmdom' (hm_get_or fmempty (extension_metadata tm') ext) \<union> set (file_paths sb) \<union> set (file_paths ice)"
proof -
  let ?tm = "retain_current_extension_metadata tm"
  let ?recent = "recent_file_extension_metadata_for s (tm_table_name tm) ext"
  let ?m0 = "hm_get_or fmempty (extension_metadata ?tm) ext"
  define ifds where "ifds = (case iceberg_metadata tm of None \<Rightarrow> [] | Some im \<Rightarrow> abs_files (im_files im))"
  define sfds where "sfds = (case speedboat_metadata tm of None \<Rightarrow> [] | Some sm \<Rightarrow> abs_files (sm_files sm))"
  have tuples: "(case iceberg_metadata ?tm of None \<Rightarrow> Inr [] | Some im \<Rightarrow> as_file_tuples (im_files im)) = Inr ifds"
    "(case speedboat_metadata ?tm of None \<Rightarrow> Inr [] | Some sm \<Rightarrow> as_file_tuples (sm_files sm)) = Inr sfds"
    using assms by (auto simp: ifds_def sfds_def wf_checkpoint_def as_file_tuples_wf split: option.splits)
  have paths: "fd_path ` set ifds = set (iceberg_paths tm)" "fd_path ` set sfds = set (speedboat_paths tm)"
    using assms by (auto simp: ifds_def sfds_def wf_checkpoint_def iceberg_paths_def speedboat_paths_def
        abs_files_path_set split: option.splits)
  obtain m1 ice where ice: "foldl (fill_file ?recent) (?m0, fs_new) ifds = (m1, ice)" by fastforce
  obtain m2 sb where sb: "foldl (fill_file ?recent) (m1, fs_new) sfds = (m2, sb)" by fastforce
  let ?tm' = "?tm\<lparr>extension_metadata := fmupd ext m2 (extension_metadata ?tm)\<rparr>"
  have run: "try_fill_checkpoint_extension_metadata s ext tm = Inr (?tm', sb, ice)"
    by (simp add: try_fill_checkpoint_extension_metadata_def Let_def tuples [simplified] ice sb)
  note I = fill_files [OF wf_fs_new, of ?recent ?m0 ifds, unfolded ice fst_conv snd_conv]
  note S = fill_files [OF wf_fs_new, of ?recent m1 sfds, unfolded sb fst_conv snd_conv]
  have sets: "set (file_paths sb) = {p \<in> set (speedboat_paths tm). ?recent p = None}"
    "set (file_paths ice) = {p \<in> set (iceberg_paths tm). ?recent p = None}"
    unfolding paths [symmetric] using I S by (auto simp: fs_new_def)
  have covered: "p \<in> fmdom' m2"
    if "p \<in> set (iceberg_paths tm) \<union> set (speedboat_paths tm)" "?recent p \<noteq> None" for p
    using that I S paths by (auto simp: fmlookup_dom'_iff)
  show thesis
  proof (rule that [OF run])
    show "wf_files sb" "wf_files ice" using I S by blast+
    show "wf_checkpoint ?tm'" using assms by (simp add: wf_checkpoint_def)
    show "?tm' = tm\<lparr>extension_metadata := extension_metadata ?tm'\<rparr>"
      by (simp add: retain_current_extension_metadata_def Let_def)
    show "set (iceberg_paths tm) \<union> set (speedboat_paths tm) \<subseteq>
       fmdom' (hm_get_or fmempty (extension_metadata ?tm') ext) \<union> set (file_paths sb) \<union> set (file_paths ice)"
      using covered sets by auto
  qed (use sets in auto)
qed

subsubsection \<open>The work item\<close>

lemma es_registry_items:
  assumes "es_registry_wf (extension_work_items s)"
  shows "fmlookup (extension_work_items s) ''es'' = Some (es_items s)"
    and "fmlookup (es_items s) t = Some w \<Longrightarrow>
      wf_files (ew_speedboat_files (ewt_work_item w)) \<and> wf_files (ew_iceberg_files (ewt_work_item w))"
proof -
  from assms obtain items where items: "fmlookup (extension_work_items s) ''es'' = Some items"
    by (auto simp: es_registry_wf_def)
  then have eq: "es_items s = items" by (simp add: es_items_def)
  with items show "fmlookup (extension_work_items s) ''es'' = Some (es_items s)" by simp
  show "wf_files (ew_speedboat_files (ewt_work_item w)) \<and> wf_files (ew_iceberg_files (ewt_work_item w))"
    if "fmlookup (es_items s) t = Some w"
    using assms that items eq by (auto simp: es_registry_wf_def fmpred_iff)
qed

lemma es_registry_upd:
  assumes "es_registry_wf r" "fmlookup r ''es'' = Some items"
    "wf_files (ew_speedboat_files (ewt_work_item w))" "wf_files (ew_iceberg_files (ewt_work_item w))"
  shows "es_registry_wf (fmupd ''es'' (fmupd t w items) r)"
proof -
  have "fmpred (\<lambda>_ w. wf_files (ew_speedboat_files (ewt_work_item w)) \<and>
      wf_files (ew_iceberg_files (ewt_work_item w))) items"
    using assms(1,2) by (simp add: es_registry_wf_def fmpred_iff)
  with assms show ?thesis by (simp add: es_registry_wf_def fmpred_upd)
qed

lemma fill_extension_work_item_wf:
  assumes wf: "es_registry_wf (extension_work_items s)" "wf_files sb" "wf_files ice"
  obtains s' where "fill_extension_work_item gen t ''es'' cid schema sb ice s = Inr s'"
    "es_registry_wf (extension_work_items s')"
    "s' = s\<lparr>extension_work_items := extension_work_items s',
           checkpoints_needing_extension_work := checkpoints_needing_extension_work s', id_seq := id_seq s'\<rparr>"
    "id_seq s \<le> id_seq s'"
    "\<And>t'. pending_es s' t' = pending_es s t' \<union>
       (if t' = t then set (file_paths sb) \<union> set (file_paths ice) else {})"
    "checkpoints_needing_extension_work s' =
      (if file_paths sb = [] \<and> file_paths ice = [] then checkpoints_needing_extension_work s
       else checkpoints_needing_extension_work (note_extension_work t ''es'' cid s))"
proof (cases "file_paths sb = [] \<and> file_paths ice = []")
  case True
  with wf(1) show thesis
    by (intro that [of s]) (simp_all add: fill_extension_work_item_def fs_len_def)
next
  case False
  note items = es_registry_items [OF wf(1)]
  show thesis
  proof (cases "fmlookup (es_items s) t")
    case None
    define w where "w = \<lparr>ewt_work_item =
        \<lparr>ew_id = gen (id_seq s), ew_extension_type = ''es'', ew_table_name = t, ew_checkpoint_id = Some cid,
         ew_table_schema = schema, ew_speedboat_files = sb, ew_iceberg_files = ice\<rparr>,
        ewt_lease_expires_at_ms = None\<rparr>"
    let ?s1 = "(draw_id s)\<lparr>extension_work_items := fmupd ''es'' (fmupd t w (es_items s)) (extension_work_items s)\<rparr>"
    have run: "fill_extension_work_item gen t ''es'' cid schema sb ice s =
        Inr (note_extension_work t ''es'' cid ?s1)"
      using False None items(1) by (auto simp: fill_extension_work_item_def fs_len_def w_def)
    show thesis
    proof (rule that [OF run])
      show "es_registry_wf (extension_work_items (note_extension_work t ''es'' cid ?s1))"
        using es_registry_upd [OF wf(1) items(1), of w t] wf(2,3) by (simp add: w_def note_extension_work_def Let_def)
    qed (use False None in \<open>auto simp: note_extension_work_def Let_def draw_id_def pending_es_def
        es_items_def w_def\<close>)
  next
    case (Some w)
    let ?w = "ewt_work_item w"
    from items(2) [OF Some] wf obtain sb' ice' where m:
      "fs_merge (ew_speedboat_files ?w) sb = Inr sb'" "wf_files sb'"
      "set (file_paths sb') = set (file_paths (ew_speedboat_files ?w)) \<union> set (file_paths sb)"
      "fs_merge (ew_iceberg_files ?w) ice = Inr ice'" "wf_files ice'"
      "set (file_paths ice') = set (file_paths (ew_iceberg_files ?w)) \<union> set (file_paths ice)"
      by (meson fs_merge_wf)
    define w' where "w' = w\<lparr>ewt_work_item := ?w\<lparr>ew_checkpoint_id := Some cid, ew_table_schema := schema,
        ew_speedboat_files := sb', ew_iceberg_files := ice'\<rparr>\<rparr>"
    let ?s1 = "s\<lparr>extension_work_items := fmupd ''es'' (fmupd t w' (es_items s)) (extension_work_items s)\<rparr>"
    have run: "fill_extension_work_item gen t ''es'' cid schema sb ice s =
        Inr (note_extension_work t ''es'' cid ?s1)"
      using False Some items(1) m by (auto simp: fill_extension_work_item_def fs_len_def Let_def w'_def)
    show thesis
    proof (rule that [OF run])
      show "es_registry_wf (extension_work_items (note_extension_work t ''es'' cid ?s1))"
        using es_registry_upd [OF wf(1) items(1), of w' t] m by (simp add: w'_def note_extension_work_def Let_def)
    qed (use False Some m in \<open>auto simp: note_extension_work_def Let_def pending_es_def es_items_def w'_def\<close>)
  qed
qed

lemma maybe_create_compaction_work_item_total:
  obtains s' where "maybe_create_compaction_work_item gen c s = Inr s'" "id_seq s \<le> id_seq s'"
    "s' = s\<lparr>compaction_work_items := compaction_work_items s',
           not_compacted_checkpoint_ids := not_compacted_checkpoint_ids s', id_seq := id_seq s'\<rparr>"
proof -
  note defs = maybe_create_compaction_work_item_def Let_def from_checkpoint_def draw_id_def
  have "\<exists>s'. maybe_create_compaction_work_item gen c s = Inr s'"
    by (cases "speedboat_metadata c") (auto simp: defs)
  then obtain s' where s': "maybe_create_compaction_work_item gen c s = Inr s'" by blast
  show thesis
    by (rule that [OF s'])
      (use s' in \<open>cases "speedboat_metadata c"; auto simp: defs split: if_splits\<close>)+
qed

subsubsection \<open>Adding a checkpoint keeps the invariant\<close>

lemma checkpoint_key_source:
  assumes "id_source gen"
  shows "checkpoint_key t (gen n) = checkpoint_key t' (gen n') \<longleftrightarrow> t = t' \<and> n = n'"
  using assms by (auto simp: id_source_def inj_eq checkpoint_key_inj)

lemma waiting_completeD:
  assumes "waiting_complete s"
    "fmlookup (checkpoints_needing_extension_work s) (extension_work_key t ''es'') = Some ids" "cid \<in> set ids"
  shows "\<exists>c. get_checkpoint_sync s t cid = Some c \<and> es_uncovered c \<subseteq> pending_es s t"
  using assms unfolding waiting_complete_def by blast

lemma es_latest_coveredD:
  assumes "es_latest_covered s"
    "fmlookup (hm_get_or fmempty (latest_committed_checkpoint_id s) (Some ''es'')) t = Some cid"
  shows "\<exists>c. get_checkpoint_sync s t cid = Some c \<and> es_uncovered c = {}"
  using assms unfolding es_latest_covered_def by blast

lemma commits_inv_new_checkpoint:
  assumes inv: "commits_inv gen s" and gen: "id_source gen" and wf: "wf_checkpoint c"
    and cps: "checkpoints s' = fmupd (checkpoint_key t (gen (id_seq s))) c (checkpoints s)"
    and seq: "id_seq s < id_seq s'"
    and latest: "latest_committed_checkpoint_id s' =
      fmupd None (fmupd t (gen (id_seq s)) (hm_get_or fmempty (latest_committed_checkpoint_id s) None))
        (latest_committed_checkpoint_id s)"
    and es: "es_registry_wf (extension_work_items s')"
    and pend: "\<And>t'. pending_es s t' \<subseteq> pending_es s' t'"
    and need: "checkpoints_needing_extension_work s' = checkpoints_needing_extension_work s \<or>
      checkpoints_needing_extension_work s' =
        checkpoints_needing_extension_work (note_extension_work t ''es'' (gen (id_seq s)) s) \<and>
      es_uncovered c \<subseteq> pending_es s' t"
  shows "commits_inv gen s'"
proof -
  let ?id = "gen (id_seq s)"
  from inv have fresh: "fresh_ids gen s" and wait: "waiting_complete s" and lp: "latest_present s"
    and cov: "es_latest_covered s" by (simp_all add: commits_inv_def)
  have new: "get_checkpoint_sync s' t ?id = Some c" by (simp add: get_checkpoint_sync_def cps)
  have kept: "fmlookup (checkpoints s') k = Some x" if "fmlookup (checkpoints s) k = Some x" for k x
    using that fresh by (auto simp: cps fresh_ids_def)
  then have kept': "get_checkpoint_sync s' t' cid = Some x" if "get_checkpoint_sync s t' cid = Some x" for t' cid x
    using that by (simp add: get_checkpoint_sync_def)
  have "latest_present s'"
    unfolding latest_present_def latest
  proof (rule fmpred_upd)
    have old: "fmpred (\<lambda>t cid. hm_contains (checkpoints s') (checkpoint_key t cid)) m"
      if "fmlookup (latest_committed_checkpoint_id s) ext = Some m" for ext m
    proof (rule fmpredI)
      fix t' cid assume "fmlookup m t' = Some cid"
      then have "hm_contains (checkpoints s) (checkpoint_key t' cid)"
        using latest_presentD [OF lp, of ext] that by simp
      then show "hm_contains (checkpoints s') (checkpoint_key t' cid)" using kept by fastforce
    qed
    then have "fmpred (\<lambda>t cid. hm_contains (checkpoints s') (checkpoint_key t cid))
        (hm_get_or fmempty (latest_committed_checkpoint_id s) None)"
      by (cases "fmlookup (latest_committed_checkpoint_id s) None") auto
    then show "fmpred (\<lambda>t cid. hm_contains (checkpoints s') (checkpoint_key t cid))
        (fmupd t ?id (hm_get_or fmempty (latest_committed_checkpoint_id s) None))"
      by (rule fmpred_upd) (simp add: cps)
    show "fmpred (\<lambda>_. fmpred (\<lambda>t cid. hm_contains (checkpoints s') (checkpoint_key t cid)))
        (latest_committed_checkpoint_id s)"
      using old by (rule fmpredI)
  qed
  moreover have "waiting_complete s'"
    unfolding waiting_complete_def
  proof (intro allI impI ballI)
    fix t' ids cid
    assume look: "fmlookup (checkpoints_needing_extension_work s') (extension_work_key t' ''es'') = Some ids"
      and cid: "cid \<in> set ids"
    have "(\<exists>ids. fmlookup (checkpoints_needing_extension_work s) (extension_work_key t' ''es'') = Some ids \<and>
        cid \<in> set ids) \<or> t' = t \<and> cid = ?id \<and> es_uncovered c \<subseteq> pending_es s' t"
      using need look cid
      by (auto simp: note_extension_work_def Let_def hm_get_or_def extension_work_key_inj
          split: if_splits option.splits)
    then show "\<exists>c. get_checkpoint_sync s' t' cid = Some c \<and> es_uncovered c \<subseteq> pending_es s' t'"
      using waiting_completeD [OF wait, of t' _ cid] kept' [of t' cid] pend [of t'] new by blast
  qed
  moreover have "es_latest_covered s'"
    unfolding es_latest_covered_def
  proof (intro allI impI)
    fix t' cid
    assume "fmlookup (hm_get_or fmempty (latest_committed_checkpoint_id s') (Some ''es'')) t' = Some cid"
    then have "fmlookup (hm_get_or fmempty (latest_committed_checkpoint_id s) (Some ''es'')) t' = Some cid"
      by (simp add: latest hm_get_or_def)
    from es_latest_coveredD [OF cov this] kept' show
      "\<exists>c. get_checkpoint_sync s' t' cid = Some c \<and> es_uncovered c = {}" by blast
  qed
  moreover have "fresh_ids gen s'"
    unfolding fresh_ids_def
  proof (intro allI impI)
    fix t' n assume n: "id_seq s' \<le> n"
    with seq have "checkpoint_key t' (gen n) \<noteq> checkpoint_key t ?id"
      by (simp add: checkpoint_key_source [OF gen])
    with n seq fresh show "\<not> hm_contains (checkpoints s') (checkpoint_key t' (gen n))"
      by (simp add: cps fresh_ids_def)
  qed
  moreover have "fmpred (\<lambda>_. wf_checkpoint) (checkpoints s')"
    using inv wf by (simp add: cps commits_inv_def fmpred_upd)
  ultimately show ?thesis using es by (simp add: commits_inv_def)
qed

lemma try_fill_es:
  assumes wf: "wf_checkpoint c"
  obtains c' sb ice where "try_fill_checkpoint_extension_metadata s ''es'' c = Inr (c', sb, ice)"
    "c' = c\<lparr>extension_metadata := extension_metadata c'\<rparr>" "wf_checkpoint c'" "wf_files sb" "wf_files ice"
    "es_uncovered c' \<subseteq> set (file_paths sb) \<union> set (file_paths ice)"
proof -
  from wf obtain c' sb ice where f:
    "try_fill_checkpoint_extension_metadata s ''es'' c = Inr (c', sb, ice)"
    "wf_files sb" "wf_files ice" "wf_checkpoint c'"
    "c' = c\<lparr>extension_metadata := extension_metadata c'\<rparr>"
    "set (iceberg_paths c) \<union> set (speedboat_paths c) \<subseteq>
       fmdom' (hm_get_or fmempty (extension_metadata c') ''es'') \<union> set (file_paths sb) \<union> set (file_paths ice)"
    by (rule try_fill_wf)
  have "iceberg_paths c' = iceberg_paths c" "speedboat_paths c' = speedboat_paths c"
    by (subst f(5), simp add: iceberg_paths_def speedboat_paths_def)+
  with f(6) have "es_uncovered c' \<subseteq> set (file_paths sb) \<union> set (file_paths ice)"
    by (auto simp: es_uncovered_def)
  with f that show thesis by blast
qed

lemma latest_checkpoint_wf:
  assumes "commits_inv gen s" "latest_checkpoint s t start = Inr old"
  shows "wf_checkpoint old"
  using assms
  by (auto simp: latest_checkpoint_def commits_inv_def fmpred_iff res_Inr split: option.splits)

subsection \<open>Storing the new checkpoint\<close>

text \<open>
  What every commit makes of the state: one new checkpoint, which becomes the latest of its
  table.
\<close>

definition commits_checkpoint ::
    "(nat \<Rightarrow> string) \<Rightarrow> string \<Rightarrow> table_metadata_checkpoint \<Rightarrow> service \<Rightarrow> service \<Rightarrow> bool" where
  "commits_checkpoint gen t c s s' \<longleftrightarrow>
     tm_table_name c = t \<and> tm_checkpoint_id c = gen (id_seq s) \<and>
     checkpoints s' = fmupd (checkpoint_key t (gen (id_seq s))) c (checkpoints s) \<and>
     latest_committed_checkpoint_id s' =
       fmupd None (fmupd t (gen (id_seq s)) (hm_get_or fmempty (latest_committed_checkpoint_id s) None))
         (latest_committed_checkpoint_id s) \<and>
     table_aliases s' = table_aliases s \<and> tables s' = tables s \<and>
     published_checkpoint_id s' = published_checkpoint_id s \<and> compactions s' = compactions s"

text \<open>The fields a commit changes besides: the queues and the id counter.\<close>

definition same_but_queues :: "service \<Rightarrow> service \<Rightarrow> bool" where
  "same_but_queues s s' \<longleftrightarrow> id_seq s \<le> id_seq s' \<and>
     s' = s\<lparr>compaction_work_items := compaction_work_items s',
            not_compacted_checkpoint_ids := not_compacted_checkpoint_ids s',
            cleanup_work_items := cleanup_work_items s',
            checkpoint_publication_requests := checkpoint_publication_requests s', id_seq := id_seq s'\<rparr>"

lemma same_but_queues_fields:
  assumes "same_but_queues s s'"
  shows "checkpoints s' = checkpoints s" "latest_committed_checkpoint_id s' = latest_committed_checkpoint_id s"
    "extension_work_items s' = extension_work_items s" "table_aliases s' = table_aliases s"
    "checkpoints_needing_extension_work s' = checkpoints_needing_extension_work s" "tables s' = tables s"
    "published_checkpoint_id s' = published_checkpoint_id s" "compactions s' = compactions s"
    "recent_file_extension_metadata s' = recent_file_extension_metadata s" "id_seq s \<le> id_seq s'"
    "pending_es s' = pending_es s" "get_checkpoint_sync s' = get_checkpoint_sync s"
proof -
  have eq: "s' = s\<lparr>compaction_work_items := compaction_work_items s',
            not_compacted_checkpoint_ids := not_compacted_checkpoint_ids s',
            cleanup_work_items := cleanup_work_items s',
            checkpoint_publication_requests := checkpoint_publication_requests s', id_seq := id_seq s'\<rparr>"
    and seq: "id_seq s \<le> id_seq s'"
    using assms by (simp_all add: same_but_queues_def)
  show cps: "checkpoints s' = checkpoints s" and ext: "extension_work_items s' = extension_work_items s"
    by (subst eq, simp)+
  show "latest_committed_checkpoint_id s' = latest_committed_checkpoint_id s"
    "table_aliases s' = table_aliases s"
    "checkpoints_needing_extension_work s' = checkpoints_needing_extension_work s" "tables s' = tables s"
    "published_checkpoint_id s' = published_checkpoint_id s" "compactions s' = compactions s"
    "recent_file_extension_metadata s' = recent_file_extension_metadata s"
    by (subst eq, simp)+
  show "id_seq s \<le> id_seq s'" by (rule seq)
  show "pending_es s' = pending_es s" by (simp add: pending_es_def es_items_def ext fun_eq_iff)
  show "get_checkpoint_sync s' = get_checkpoint_sync s" by (simp add: get_checkpoint_sync_def cps fun_eq_iff)
qed

lemma same_but_queues_refl [simp]: "same_but_queues s s"
  by (simp add: same_but_queues_def)

lemma same_but_queues_trans: "same_but_queues a b \<Longrightarrow> same_but_queues b c \<Longrightarrow> same_but_queues a c"
  by (cases a; cases b; cases c) (auto simp: same_but_queues_def)

lemma commits_inv_queues:
  assumes "same_but_queues s s'" "commits_inv gen s"
  shows "commits_inv gen s'"
  using assms(2) same_but_queues_fields [OF assms(1)]
  by (simp add: commits_inv_def latest_present_def waiting_complete_def es_latest_covered_def fresh_ids_def)

lemma commits_checkpoint_queues:
  assumes "same_but_queues s1 s'" "commits_checkpoint gen t c s s1"
  shows "commits_checkpoint gen t c s s'"
  using assms(2) same_but_queues_fields [OF assms(1)] by (simp add: commits_checkpoint_def)

lemma queue_publication_request_queues: "same_but_queues s (queue_publication_request org t s)"
  by (cases s) (simp add: same_but_queues_def queue_publication_request_def)

lemma real_table_name_cong: "table_aliases s' = table_aliases s \<Longrightarrow> real_table_name s' t = real_table_name s t"
  by (simp add: real_table_name_def)

lemma fill_extension_work_item_latest:
  "fill_extension_work_item gen t ext cid schema sb ice (set_latest_committed_checkpoint t' e i s) =
     rmap (set_latest_committed_checkpoint t' e i) (fill_extension_work_item gen t ext cid schema sb ice s)"
proof -
  show ?thesis
  proof (cases "fs_len sb = 0 \<and> fs_len ice = 0")
    case False
    then show ?thesis
      unfolding fill_extension_work_item_def
      by (cases "fmlookup (extension_work_items s) ''es''")
        (auto simp: note_extension_work_def set_latest_committed_checkpoint_def real_table_name_def
          Let_def draw_id_def rbind_def rmap_def split: option.split sum.split)
  qed (simp add: fill_extension_work_item_def)
qed

lemma store_checkpoint:
  assumes inv: "commits_inv gen s" and gen: "id_source gen" and wf: "wf_checkpoint c"
    and real: "real_table_name s t = t"
    and c: "tm_table_name c = t" "tm_checkpoint_id c = gen (id_seq s)"
    and files: "wf_files sb" "wf_files ice" "es_uncovered c \<subseteq> set (file_paths sb) \<union> set (file_paths ice)"
  obtains s1 where
    "fill_extension_work_item gen t ''es'' (gen (id_seq s)) schema sb ice
       (insert_checkpoint t (gen (id_seq s)) c (draw_id s)) = Inr s1"
    "commits_inv gen (set_latest_committed_checkpoint t None (gen (id_seq s)) s1)"
    "commits_checkpoint gen t c s (set_latest_committed_checkpoint t None (gen (id_seq s)) s1)"
    "es_uncovered c \<subseteq> pending_es (set_latest_committed_checkpoint t None (gen (id_seq s)) s1) t"
    "cleanup_work_items s1 = cleanup_work_items s" "compaction_work_items s1 = compaction_work_items s"
proof -
  let ?id = "gen (id_seq s)" let ?s0 = "insert_checkpoint t ?id c (draw_id s)"
  have "es_registry_wf (extension_work_items ?s0)"
    using inv by (simp add: commits_inv_def insert_checkpoint_def draw_id_def)
  then obtain s1 where s1: "fill_extension_work_item gen t ''es'' ?id schema sb ice ?s0 = Inr s1"
    "es_registry_wf (extension_work_items s1)"
    "s1 = ?s0\<lparr>extension_work_items := extension_work_items s1,
       checkpoints_needing_extension_work := checkpoints_needing_extension_work s1, id_seq := id_seq s1\<rparr>"
    "id_seq ?s0 \<le> id_seq s1"
    "\<And>t'. pending_es s1 t' = pending_es ?s0 t' \<union>
       (if t' = t then set (file_paths sb) \<union> set (file_paths ice) else {})"
    "checkpoints_needing_extension_work s1 =
      (if file_paths sb = [] \<and> file_paths ice = [] then checkpoints_needing_extension_work ?s0
       else checkpoints_needing_extension_work (note_extension_work t ''es'' ?id ?s0))"
    using files(1,2) by (rule fill_extension_work_item_wf) blast
  let ?s = "set_latest_committed_checkpoint t None ?id s1"
  have aliases: "table_aliases s1 = table_aliases s"
    by (subst s1(3), simp add: insert_checkpoint_def draw_id_def)
  have frame: "checkpoints ?s = fmupd (checkpoint_key t ?id) c (checkpoints s)"
    "latest_committed_checkpoint_id s1 = latest_committed_checkpoint_id s"
    "tables ?s = tables s" "compactions ?s = compactions s" "table_aliases ?s = table_aliases s"
    "published_checkpoint_id ?s = published_checkpoint_id s"
    "cleanup_work_items s1 = cleanup_work_items s" "compaction_work_items s1 = compaction_work_items s"
    by (subst s1(3), simp add: insert_checkpoint_def draw_id_def set_latest_committed_checkpoint_def)+
  have latest: "latest_committed_checkpoint_id ?s =
      fmupd None (fmupd t ?id (hm_get_or fmempty (latest_committed_checkpoint_id s) None))
        (latest_committed_checkpoint_id s)"
    using real by (simp add: set_latest_committed_checkpoint_def frame real_table_name_cong [OF aliases])
  have pend: "pending_es ?s t' = pending_es s t' \<union>
      (if t' = t then set (file_paths sb) \<union> set (file_paths ice) else {})" for t'
    using s1(5) [of t'] by (simp add: pending_es_def es_items_def set_latest_committed_checkpoint_def
        insert_checkpoint_def draw_id_def)
  have "commits_inv gen ?s"
  proof (rule commits_inv_new_checkpoint [OF inv gen wf frame(1) _ latest])
    show "checkpoints_needing_extension_work ?s = checkpoints_needing_extension_work s \<or>
      checkpoints_needing_extension_work ?s =
        checkpoints_needing_extension_work (note_extension_work t ''es'' ?id s) \<and>
      es_uncovered c \<subseteq> pending_es ?s t"
      using s1(6) files(3) pend [of t]
      by (auto simp: insert_checkpoint_def draw_id_def note_extension_work_def Let_def
          set_latest_committed_checkpoint_def split: if_splits)
  qed (use s1(2,4) pend in \<open>simp_all add: set_latest_committed_checkpoint_def insert_checkpoint_def draw_id_def\<close>)
  moreover have "commits_checkpoint gen t c s ?s"
    unfolding commits_checkpoint_def using frame latest c by simp
  moreover have "es_uncovered c \<subseteq> pending_es ?s t" using files(3) pend [of t] by auto
  ultimately show thesis using s1(1) frame(7,8) by (intro that)
qed

subsection \<open>A speedboat commit\<close>

lemma speedboat_commit_type_commit_correct:
  assumes inv: "commits_inv gen s" and gen: "id_source gen"
    and real: "real_table_name s (ti_table_name ti) = ti_table_name ti"
    and info: "wf_info ti" "ti_schema ti = Some schema"
    and old: "latest_checkpoint s (ti_table_name ti) (Inr schema) = Inr old"
    and merged: "merge_from (tm_schema old) schema = Inr merged"
  obtains s' c where "speedboat_commit_type_commit gen hash ti None s = Inr s'"
    "commits_inv gen s'" "commits_checkpoint gen (ti_table_name ti) c s s'"
    "set (speedboat_paths c) = set (speedboat_paths old) \<union> set (ti_files ti)"
    "iceberg_metadata c = iceberg_metadata old" "deletes_metadata c = deletes_metadata old"
    "tm_schema c = merged" "es_uncovered c \<subseteq> pending_es s' (ti_table_name ti)"
    "cleanup_work_items s' = cleanup_work_items s"
proof -
  let ?t = "ti_table_name ti" let ?id = "gen (id_seq s)"
  note wf_old = latest_checkpoint_wf [OF inv old]
  obtain fs where fs: "new_speedboat_files hash ti old = Inr fs" "wf_files fs"
    "set (file_paths fs) = set (speedboat_paths old) \<union> set (ti_files ti)"
    using info wf_old by (rule new_speedboat_files_wf)
  define c1 where "c1 = \<lparr>tm_table_name = ?t, tm_original_checkpoint_id = None, tm_checkpoint_id = ?id,
    iceberg_metadata = iceberg_metadata old, speedboat_metadata = Some \<lparr>sm_files = fs\<rparr>,
    deletes_metadata = deletes_metadata old, extension_metadata = extension_metadata old, tm_schema = merged\<rparr>"
  have "wf_checkpoint c1" using wf_old fs(2) by (simp add: c1_def wf_checkpoint_def)
  then obtain c2 sb ice where c2: "try_fill_checkpoint_extension_metadata (draw_id s) ''es'' c1 = Inr (c2, sb, ice)"
    "c2 = c1\<lparr>extension_metadata := extension_metadata c2\<rparr>" "wf_checkpoint c2" "wf_files sb" "wf_files ice"
    "es_uncovered c2 \<subseteq> set (file_paths sb) \<union> set (file_paths ice)" by (rule try_fill_es)
  have c2_frame: "tm_table_name c2 = ?t" "tm_checkpoint_id c2 = ?id" "tm_schema c2 = merged"
    "iceberg_metadata c2 = iceberg_metadata old" "deletes_metadata c2 = deletes_metadata old"
    "speedboat_paths c2 = file_paths fs"
    by (subst c2(2), simp add: c1_def speedboat_paths_def)+
  from store_checkpoint [OF inv gen c2(3) real c2_frame(1,2) c2(4,5,6)] obtain s1 where s1:
    "fill_extension_work_item gen ?t ''es'' ?id merged sb ice (insert_checkpoint ?t ?id c2 (draw_id s)) = Inr s1"
    "commits_inv gen (set_latest_committed_checkpoint ?t None ?id s1)"
    "commits_checkpoint gen ?t c2 s (set_latest_committed_checkpoint ?t None ?id s1)"
    "es_uncovered c2 \<subseteq> pending_es (set_latest_committed_checkpoint ?t None ?id s1) ?t"
    "cleanup_work_items s1 = cleanup_work_items s" by blast
  let ?s2 = "set_latest_committed_checkpoint ?t None ?id s1"
  obtain s' where s': "maybe_create_compaction_work_item gen c2 ?s2 = Inr s'" "id_seq ?s2 \<le> id_seq s'"
    "s' = ?s2\<lparr>compaction_work_items := compaction_work_items s',
           not_compacted_checkpoint_ids := not_compacted_checkpoint_ids s', id_seq := id_seq s'\<rparr>"
    by (rule maybe_create_compaction_work_item_total)
  have cleanup: "cleanup_work_items s' = cleanup_work_items s"
    by (subst s'(3)) (simp add: set_latest_committed_checkpoint_def s1)
  have "checkpoint_publication_requests s' = checkpoint_publication_requests ?s2"
    "cleanup_work_items s' = cleanup_work_items ?s2" by (subst s'(3), simp)+
  with s'(2,3) have q: "same_but_queues ?s2 s'" by (simp add: same_but_queues_def)
  have "speedboat_commit_type_commit gen hash ti None s = Inr s'"
    using info(2) old fs(1) merged c2(1) s1(1) s'(1)
    by (simp add: speedboat_commit_type_commit_def handle_compaction_def Let_def c1_def)
  then show thesis
    using that commits_inv_queues [OF q s1(2)] commits_checkpoint_queues [OF q s1(3)] c2_frame fs(3) cleanup
      s1(4) same_but_queues_fields(11) [OF q] by simp
qed

lemma speedboat_commit_type_delete_correct:
  assumes inv: "commits_inv gen s" and gen: "id_source gen"
    and real: "real_table_name s (ti_table_name ti) = ti_table_name ti"
    and old: "latest_checkpoint s (ti_table_name ti) (Inr schema_minimal) = Inr old"
  obtains s' c where "speedboat_commit_type_delete gen ti None s = Inr s'"
    "commits_inv gen s'" "commits_checkpoint gen (ti_table_name ti) c s s'"
    "delete_paths c = delete_paths old @ ti_files ti"
    "iceberg_metadata c = iceberg_metadata old" "speedboat_metadata c = speedboat_metadata old"
    "tm_schema c = tm_schema old"
proof -
  let ?t = "ti_table_name ti" let ?id = "gen (id_seq s)"
  define c1 where "c1 = \<lparr>tm_table_name = ?t, tm_original_checkpoint_id = None, tm_checkpoint_id = ?id,
    iceberg_metadata = iceberg_metadata old, speedboat_metadata = speedboat_metadata old,
    deletes_metadata = Some \<lparr>dm_files = delete_paths old @ ti_files ti\<rparr>,
    extension_metadata = extension_metadata old, tm_schema = tm_schema old\<rparr>"
  have files: "(case deletes_metadata old of None \<Rightarrow> ti_files ti | Some d \<Rightarrow> dm_files d @ ti_files ti) =
      delete_paths old @ ti_files ti"
    by (simp add: delete_paths_def split: option.split)
  have "wf_checkpoint c1" using latest_checkpoint_wf [OF inv old] by (simp add: c1_def wf_checkpoint_def)
  then obtain c2 sb ice where c2: "try_fill_checkpoint_extension_metadata (draw_id s) ''es'' c1 = Inr (c2, sb, ice)"
    "c2 = c1\<lparr>extension_metadata := extension_metadata c2\<rparr>" "wf_checkpoint c2" by (rule try_fill_es)
  have c2_frame: "tm_table_name c2 = ?t" "tm_checkpoint_id c2 = ?id" "tm_schema c2 = tm_schema old"
    "iceberg_metadata c2 = iceberg_metadata old" "speedboat_metadata c2 = speedboat_metadata old"
    "delete_paths c2 = delete_paths old @ ti_files ti"
    by (subst c2(2), simp add: c1_def delete_paths_def)+
  let ?s' = "set_latest_committed_checkpoint ?t None ?id (insert_checkpoint ?t ?id c2 (draw_id s))"
  have run: "speedboat_commit_type_delete gen ti None s = Inr ?s'"
    using old c2(1) by (simp add: speedboat_commit_type_delete_def handle_compaction_def Let_def files c1_def)
  have frame: "checkpoints ?s' = fmupd (checkpoint_key ?t ?id) c2 (checkpoints s)"
    "latest_committed_checkpoint_id ?s' =
      fmupd None (fmupd ?t ?id (hm_get_or fmempty (latest_committed_checkpoint_id s) None))
        (latest_committed_checkpoint_id s)"
    using real by (simp_all add: set_latest_committed_checkpoint_def insert_checkpoint_def draw_id_def
        real_table_name_def)
  have "commits_inv gen ?s'"
    by (rule commits_inv_new_checkpoint [OF inv gen c2(3) frame(1) _ frame(2)])
      (use inv in \<open>simp_all add: set_latest_committed_checkpoint_def insert_checkpoint_def draw_id_def
        commits_inv_def pending_es_def es_items_def\<close>)
  moreover have "commits_checkpoint gen ?t c2 s ?s'"
    using frame c2_frame by (simp add: commits_checkpoint_def set_latest_committed_checkpoint_def
        insert_checkpoint_def draw_id_def)
  ultimately show thesis using run that c2_frame by simp
qed

subsection \<open>Compactions\<close>

lemma fs_remove_rows:
  assumes "wf_files fs"
  obtains fs' where "fs_remove rm fs = Inr fs'" "wf_files fs'" "schemas fs' = schemas fs"
    "file_rows fs' = [r \<leftarrow> file_rows fs. fst (fst r) \<notin> set rm]"
  using fs_remove_loop_wf [OF assms, of 0 rm] by (auto simp: fs_remove_def)

lemma file_rows_inj:
  assumes "wf_files a" "wf_files b" "schemas a = schemas b" "file_rows a = file_rows b"
  shows "a = (b :: file_set_payload)"
proof -
  have cols: "file_paths x = map (fst \<circ> fst) (file_rows x)" "sizes x = map (snd \<circ> fst) (file_rows x)"
    "file_schemas x = map snd (file_rows x)" if "wf_files x" for x
    using that by (auto simp: wf_files_def intro!: nth_equalityI)
  from cols [OF assms(1)] cols [OF assms(2)] assms(3,4) show ?thesis
    by (cases a; cases b) (metis file_set_payload.select_convs)
qed

lemma fs_remove_append:
  assumes "wf_files fs"
  shows "rbind (fs_remove a fs) (fs_remove b) = fs_remove (a @ b) fs"
proof -
  obtain x where x: "fs_remove a fs = Inr x" "wf_files x" "schemas x = schemas fs"
    "file_rows x = [r \<leftarrow> file_rows fs. fst (fst r) \<notin> set a]" using assms by (rule fs_remove_rows)
  obtain y where y: "fs_remove b x = Inr y" "wf_files y" "schemas y = schemas x"
    "file_rows y = [r \<leftarrow> file_rows x. fst (fst r) \<notin> set b]" using x(2) by (rule fs_remove_rows)
  obtain z where z: "fs_remove (a @ b) fs = Inr z" "wf_files z" "schemas z = schemas fs"
    "file_rows z = [r \<leftarrow> file_rows fs. fst (fst r) \<notin> set (a @ b)]" using assms by (rule fs_remove_rows)
  have "file_rows y = file_rows z" by (simp add: x y z)
  then have "y = z" by (intro file_rows_inj) (simp_all add: x y z)
  with x y z show ?thesis by simp
qed

lemma fs_remove_none:
  assumes "wf_files fs"
  shows "fs_remove [] fs = Inr fs"
proof -
  obtain x where x: "fs_remove [] fs = Inr x" "wf_files x" "schemas x = schemas fs"
    "file_rows x = [r \<leftarrow> file_rows fs. fst (fst r) \<notin> set []]" using assms by (rule fs_remove_rows)
  then have "x = fs" using assms by (intro file_rows_inj) simp_all
  with x show ?thesis by simp
qed

lemma handle_compaction_eq:
  "handle_compaction s (Some k) c = apply_compactions [k] (fmmap snd (compactions s)) c"
  by (cases "fmlookup (compactions s) k")
    (auto simp: handle_compaction_def apply_compactions_def get_removed_files_def split: prod.split)

lemma hm_retain_twice: "hm_retain P (hm_retain Q m) = hm_retain (\<lambda>k v. Q k v \<and> P k v) m"
  by (rule fmap_ext) (simp split: option.split)

lemma remove_parts_append:
  assumes "wf_checkpoint tm"
  shows "rbind (rmap (\<lambda>t. remove_extension_keys a (remove_delete_files a' t)) (remove_speedboat_files a tm))
      (\<lambda>t. rmap (\<lambda>t. remove_extension_keys b (remove_delete_files b' t)) (remove_speedboat_files b t)) =
    rmap (\<lambda>t. remove_extension_keys (a @ b) (remove_delete_files (a' @ b') t)) (remove_speedboat_files (a @ b) tm)"
proof -
  have ext: "fmmap (hm_retain (\<lambda>k _. k \<notin> set b)) (fmmap (hm_retain (\<lambda>k _. k \<notin> set a)) m) =
      fmmap (hm_retain (\<lambda>k _. k \<notin> set (a @ b))) m" for m :: "(string, extension_file_metadata) hash_map"
    by (rule fmap_ext) (simp add: option.map_comp comp_def hm_retain_twice)
  have parts: "remove_extension_keys b (remove_delete_files b'
        (t\<lparr>deletes_metadata := d, extension_metadata := e\<rparr>)) =
      t\<lparr>deletes_metadata := map_option (\<lambda>d. d\<lparr>dm_files := [x \<leftarrow> dm_files d. x \<notin> set b']\<rparr>) d,
        extension_metadata := fmmap (hm_retain (\<lambda>k _. k \<notin> set b)) e\<rparr>" for t d e b b'
    by (cases d) (simp_all add: remove_extension_keys_def remove_delete_files_def)
  have norm: "remove_extension_keys b (remove_delete_files b' t) =
      t\<lparr>deletes_metadata := map_option (\<lambda>d. d\<lparr>dm_files := [x \<leftarrow> dm_files d. x \<notin> set b']\<rparr>) (deletes_metadata t),
        extension_metadata := fmmap (hm_retain (\<lambda>k _. k \<notin> set b)) (extension_metadata t)\<rparr>" for t b b'
    using parts [where t = t and d = "deletes_metadata t" and e = "extension_metadata t"] by simp
  show ?thesis
  proof (cases "speedboat_metadata tm")
    case None
    then show ?thesis
      by (cases "deletes_metadata tm") (simp_all add: remove_speedboat_files_def norm ext [simplified])
  next
    case (Some sm)
    with assms have wf: "wf_files (sm_files sm)" by (simp add: wf_checkpoint_def)
    obtain x where x: "fs_remove a (sm_files sm) = Inr x" "wf_files x" using wf by (rule fs_remove_rows)
    obtain y where y: "fs_remove b x = Inr y" using x(2) by (rule fs_remove_rows)
    have "fs_remove (a @ b) (sm_files sm) = Inr y"
      using fs_remove_append [OF wf, of a b] x y by simp
    with Some x y show ?thesis
      by (cases "deletes_metadata tm") (simp_all add: remove_speedboat_files_def norm ext [simplified])
  qed
qed

lemma apply_compactions_Cons:
  assumes "wf_checkpoint tm"
  shows "rbind (apply_compactions [k] lookup tm) (apply_compactions ks lookup) =
    apply_compactions (k # ks) lookup tm"
proof (cases "fmlookup lookup k")
  case None
  then show ?thesis by (simp add: apply_compactions_def get_removed_files_def)
next
  case (Some cc)
  show ?thesis
  proof (cases "get_removed_files ks lookup")
    case (Inl e)
    obtain tm' where tm': "apply_compactions [k] lookup tm = Inr tm'"
      using assms by (rule apply_compactions_wf [of tm "[k]" lookup]) (use Some in \<open>auto simp: fmlookup_dom'_iff\<close>)
    from Inl have "mapm (\<lambda>x. unwrap ''called `Option::unwrap()` on a `None` value'' (fmlookup lookup x)) ks = Inl e"
      by (auto simp: get_removed_files_def rmap_def split: sum.splits)
    then show ?thesis using Some Inl tm'
      by (simp add: apply_compactions_def [of ks] apply_compactions_def [of "k # ks"] get_removed_files_def)
  next
    case (Inr r)
    then obtain data where data:
      "mapm (\<lambda>x. unwrap ''called `Option::unwrap()` on a `None` value'' (fmlookup lookup x)) ks = Inr data"
      "r = (concat (map cc_removed_speedboat_files data), concat (map cc_removed_delete_files data))"
      by (auto simp: get_removed_files_def res_Inr)
    have rest: "apply_compactions ks lookup = (\<lambda>t. rmap (\<lambda>t. remove_extension_keys (fst r)
        (remove_delete_files (snd r) t)) (remove_speedboat_files (fst r) t))"
      by (rule ext) (simp add: apply_compactions_def Inr case_prod_beta)
    show ?thesis
      using remove_parts_append [OF assms, of "cc_removed_speedboat_files cc" "cc_removed_delete_files cc" "fst r" "snd r"]
        Some data
      by (simp add: rest apply_compactions_def [of "k # ks"] apply_compactions_def [of "[k]"] get_removed_files_def)
  qed
qed

lemma apply_compactions_none:
  assumes "wf_checkpoint tm"
  shows "apply_compactions [] lookup tm = Inr tm"
proof -
  have ext: "fmmap (hm_retain (\<lambda>k _. True)) m = m" for m :: "(string, extension_file_metadata) hash_map"
  proof (rule fmap_ext)
    show "fmlookup (fmmap (hm_retain (\<lambda>k _. True)) m) x = fmlookup m x" for x
      by (cases "fmlookup m x") (simp_all add: hm_retain_True)
  qed
  have "remove_speedboat_files [] tm = Inr tm"
    using assms by (cases "speedboat_metadata tm")
      (simp_all add: remove_speedboat_files_def wf_checkpoint_def fs_remove_none)
  then show ?thesis
    by (cases "deletes_metadata tm")
      (simp_all add: apply_compactions_def get_removed_files_def remove_extension_keys_def
        remove_delete_files_def ext)
qed

lemma handle_compactions_eq:
  "wf_checkpoint c \<Longrightarrow> handle_compactions s ks c = apply_compactions ks (fmmap snd (compactions s)) c"
proof (induction ks arbitrary: c)
  case Nil
  then show ?case by (simp add: handle_compactions_def apply_compactions_none)
next
  case (Cons k ks)
  let ?L = "fmmap snd (compactions s)"
  have "handle_compactions s (k # ks) c = rbind (apply_compactions [k] ?L c) (handle_compactions s ks)"
    by (cases "apply_compactions [k] ?L c") (simp_all add: handle_compactions_def handle_compaction_eq)
  also have "\<dots> = rbind (apply_compactions [k] ?L c) (apply_compactions ks ?L)"
  proof (cases "apply_compactions [k] ?L c")
    case (Inr c')
    from apply_compactions_wf [OF Cons.prems apply_compactions_known [OF Inr]] Inr
    have "wf_checkpoint c'" by (metis sum.inject(2))
    from Cons.IH [OF this] Inr show ?thesis by simp
  qed simp
  also have "\<dots> = apply_compactions (k # ks) ?L c" by (rule apply_compactions_Cons [OF Cons.prems])
  finally show ?case .
qed

text \<open>
  C24. The service's own loop over the compactions of a commit does exactly what the checkpoint's
  method does that is meant to replace it: on a well-formed checkpoint both give the same
  checkpoint, and both panic when a compaction is not known.
\<close>

theorem handle_compactions_equivalence:
  assumes "wf_checkpoint c"
  shows "handle_compactions s ks c = apply_compactions ks (fmmap snd (compactions s)) c \<and>
    ((\<exists>c'. handle_compactions s ks c = Inr c') \<longleftrightarrow> set ks \<subseteq> fmdom' (compactions s))"
proof
  show eq: "handle_compactions s ks c = apply_compactions ks (fmmap snd (compactions s)) c"
    using assms by (rule handle_compactions_eq)
  have dom: "fmdom' (fmmap snd (compactions s)) = fmdom' (compactions s)"
    by (auto simp: fmlookup_dom'_iff)
  show "(\<exists>c'. handle_compactions s ks c = Inr c') \<longleftrightarrow> set ks \<subseteq> fmdom' (compactions s)"
    unfolding eq
  proof
    assume "\<exists>c'. apply_compactions ks (fmmap snd (compactions s)) c = Inr c'"
    then show "set ks \<subseteq> fmdom' (compactions s)" using apply_compactions_known dom by metis
  next
    assume "set ks \<subseteq> fmdom' (compactions s)"
    then show "\<exists>c'. apply_compactions ks (fmmap snd (compactions s)) c = Inr c'"
      using apply_compactions_wf [OF assms, of ks "fmmap snd (compactions s)"] dom by metis
  qed
qed

lemma handle_compactions_equivalence_witness:
  "\<exists>c'. handle_compactions ((service_new 0 ephemeral_default)\<lparr>compactions :=
       fmupd ''k'' (''t'', sample_compaction [''b''] [] ''c1'') fmempty\<rparr>) [''k'']
     (sample_checkpoint [''a''] [''b''] []) = Inr c'"
proof -
  have "wf_checkpoint (sample_checkpoint [''a''] [''b''] [])"
    by (simp add: sample_defs wf_checkpoint_def wf_files_def)
  from handle_compactions_equivalence [THEN conjunct2, OF this, of "(service_new 0 ephemeral_default)\<lparr>compactions :=
       fmupd ''k'' (''t'', sample_compaction [''b''] [] ''c1'') fmempty\<rparr>" "[''k'']"]
  show ?thesis by simp
qed

subsection \<open>An Iceberg commit\<close>

text \<open>
  The compactions a commit may name: known ones, each the work item its table waits for.
\<close>

definition compaction_of :: "service \<Rightarrow> string \<Rightarrow> string \<times> string list \<times> string list" where
  "compaction_of s k =
     (case fmlookup (compactions s) k of
        None \<Rightarrow> ([], [], [])
      | Some (t, cc) \<Rightarrow> (t, cc_removed_speedboat_files cc, cc_removed_delete_files cc))"

definition compactions_ready :: "service \<Rightarrow> string list \<Rightarrow> bool" where
  "compactions_ready s ks \<longleftrightarrow> distinct ks \<and>
     (\<forall>k \<in> set ks. \<exists>t cc w. fmlookup (compactions s) k = Some (t, cc) \<and>
        fmlookup (compaction_work_items s) t = Some w \<and> cw_id (cwt_work_item w) = k \<and>
        cw_checkpoint_id_to_replace (cwt_work_item w) = cc_checkpoint_id_to_replace cc)"

lemma removed_of:
  "removed_speedboat ks (fmmap snd (compactions s)) = concat (map (\<lambda>k. fst (snd (compaction_of s k))) ks)"
  "removed_deletes ks (fmmap snd (compactions s)) = concat (map (\<lambda>k. snd (snd (compaction_of s k))) ks)"
  unfolding removed_speedboat_def removed_deletes_def compaction_of_def
  by (intro arg_cong [where f = concat] map_cong refl; simp split: option.split)+

lemma compactions_readyE:
  assumes "compactions_ready s ks" "k \<in> set ks"
  obtains t cc w where "fmlookup (compactions s) k = Some (t, cc)"
    "fmlookup (compaction_work_items s) t = Some w" "cw_id (cwt_work_item w) = k"
    "cw_checkpoint_id_to_replace (cwt_work_item w) = cc_checkpoint_id_to_replace cc"
  using assms unfolding compactions_ready_def by blast

lemma enqueue_cleanups:
  assumes "compactions_ready s ks"
  obtains s' ws where "foldm (enqueue_cleanup gen) s ks = Inr s'" "same_but_queues s s'"
    "cleanup_work_items s' = cleanup_work_items s @ ws"
    "map (\<lambda>w. (cl_table_name (clt_work_item w), cl_files_to_delete (clt_work_item w),
        clt_lease_expires_at_ms w)) ws =
     map (\<lambda>k. case compaction_of s k of (t, a, b) \<Rightarrow> (t, a @ b, None)) ks"
    "\<And>t. fmlookup (compaction_work_items s') t =
      (if t \<in> fst ` compaction_of s ` set ks then None else fmlookup (compaction_work_items s) t)"
  using assms
proof (induction ks arbitrary: s thesis)
  case Nil
  show ?case by (rule Nil.prems(1) [of s "[]"]) simp_all
next
  case (Cons k ks)
  obtain t cc w where k: "fmlookup (compactions s) k = Some (t, cc)"
    "fmlookup (compaction_work_items s) t = Some w" "cw_id (cwt_work_item w) = k"
    "cw_checkpoint_id_to_replace (cwt_work_item w) = cc_checkpoint_id_to_replace cc"
    by (rule compactions_readyE [OF Cons.prems(2), of k]) simp
  define x where "x = \<lparr>clt_work_item = \<lparr>cl_id = gen (id_seq s), cl_table_name = t,
      cl_files_to_delete = cc_removed_speedboat_files cc @ cc_removed_delete_files cc\<rparr>,
      clt_lease_expires_at_ms = None\<rparr>"
  define s1 where "s1 = (draw_id s)\<lparr>compaction_work_items := fmdrop t (compaction_work_items s),
      cleanup_work_items := cleanup_work_items s @ [x]\<rparr>"
  have step: "enqueue_cleanup gen s k = Inr s1"
    using k by (simp add: enqueue_cleanup_def replace_and_delete_checkpoints_def s1_def x_def draw_id_def)
  have cps: "compactions s1 = compactions s" by (simp add: s1_def draw_id_def)
  have "compactions_ready s1 ks"
    unfolding compactions_ready_def
  proof (intro conjI ballI)
    show "distinct ks" using Cons.prems(2) by (simp add: compactions_ready_def)
    fix k' assume k': "k' \<in> set ks"
    obtain t' cc' w' where w': "fmlookup (compactions s) k' = Some (t', cc')"
      "fmlookup (compaction_work_items s) t' = Some w'" "cw_id (cwt_work_item w') = k'"
      "cw_checkpoint_id_to_replace (cwt_work_item w') = cc_checkpoint_id_to_replace cc'"
      by (rule compactions_readyE [OF Cons.prems(2), of k']) (use k' in simp)
    have "k' \<noteq> k" using k' Cons.prems(2) by (auto simp: compactions_ready_def)
    then have "t' \<noteq> t" using w'(2,3) k(2,3) by auto
    with w'
    show "\<exists>t cc w. fmlookup (compactions s1) k' = Some (t, cc) \<and>
        fmlookup (compaction_work_items s1) t = Some w \<and> cw_id (cwt_work_item w) = k' \<and>
        cw_checkpoint_id_to_replace (cwt_work_item w) = cc_checkpoint_id_to_replace cc"
      by (simp add: s1_def draw_id_def)
  qed
  with Cons.IH [of s1] obtain s' ws where IH: "foldm (enqueue_cleanup gen) s1 ks = Inr s'" "same_but_queues s1 s'"
    "cleanup_work_items s' = cleanup_work_items s1 @ ws"
    "map (\<lambda>w. (cl_table_name (clt_work_item w), cl_files_to_delete (clt_work_item w),
        clt_lease_expires_at_ms w)) ws =
     map (\<lambda>k. case compaction_of s1 k of (t, a, b) \<Rightarrow> (t, a @ b, None)) ks"
    "\<And>t. fmlookup (compaction_work_items s') t =
      (if t \<in> fst ` compaction_of s1 ` set ks then None else fmlookup (compaction_work_items s1) t)"
    by blast
  have of: "compaction_of s1 = compaction_of s" by (simp add: compaction_of_def cps fun_eq_iff)
  have fk: "fst (compaction_of s k) = t" using k by (simp add: compaction_of_def)
  have items: "compaction_work_items s1 = fmdrop t (compaction_work_items s)" by (simp add: s1_def)
  show ?case
  proof (rule Cons.prems(1))
    show "foldm (enqueue_cleanup gen) s (k # ks) = Inr s'" using step IH(1) by simp
    have "same_but_queues s s1" by (cases s) (simp add: same_but_queues_def s1_def draw_id_def)
    then show "same_but_queues s s'" using IH(2) by (rule same_but_queues_trans)
    show "cleanup_work_items s' = cleanup_work_items s @ (x # ws)" using IH(3) by (simp add: s1_def)
    show "map (\<lambda>w. (cl_table_name (clt_work_item w), cl_files_to_delete (clt_work_item w),
        clt_lease_expires_at_ms w)) (x # ws) =
      map (\<lambda>k. case compaction_of s k of (t, a, b) \<Rightarrow> (t, a @ b, None)) (k # ks)"
      using IH(4) k by (simp add: of) (simp add: x_def compaction_of_def)
    show "fmlookup (compaction_work_items s') t' =
      (if t' \<in> fst ` compaction_of s ` set (k # ks) then None else fmlookup (compaction_work_items s) t')" for t'
      using IH(5) [unfolded of, of t'] fk items by auto
  qed
qed

lemma iceberg_commit_correct:
  assumes inv: "commits_inv gen s" and gen: "id_source gen" and real: "real_table_name s t = t"
    and wf: "wf_files (im_files (ic_metadata commit))"
    and old: "latest_checkpoint s t (Inr (im_table_schema (ic_metadata commit))) = Inr old"
    and merged: "merge_from (tm_schema old) (im_table_schema (ic_metadata commit)) = Inr merged"
    and ready: "compactions_ready s (ic_compactions commit)"
  obtains s' c ws where "iceberg_commit_op gen t commit s = Inr (s', True)"
    "commits_inv gen s'" "commits_checkpoint gen t c s s'"
    "iceberg_metadata c = Some (ic_metadata commit)" "tm_schema c = merged"
    "speedboat_paths c = [p \<leftarrow> speedboat_paths old. \<forall>k \<in> set (ic_compactions commit). p \<notin> set (fst (snd (compaction_of s k)))]"
    "delete_paths c = [p \<leftarrow> delete_paths old. \<forall>k \<in> set (ic_compactions commit). p \<notin> set (snd (snd (compaction_of s k)))]"
    "es_uncovered c \<subseteq> pending_es s' t"
    "cleanup_work_items s' = cleanup_work_items s @ ws"
    "map (\<lambda>w. (cl_table_name (clt_work_item w), cl_files_to_delete (clt_work_item w),
        clt_lease_expires_at_ms w)) ws =
     map (\<lambda>k. case compaction_of s k of (t, a, b) \<Rightarrow> (t, a @ b, None)) (ic_compactions commit)"
    "\<And>t. fmlookup (compaction_work_items s') t =
      (if t \<in> fst ` compaction_of s ` set (ic_compactions commit) then None else fmlookup (compaction_work_items s) t)"
proof -
  let ?id = "gen (id_seq s)" let ?ks = "ic_compactions commit" let ?L = "fmmap snd (compactions s)"
  define c0 where "c0 = \<lparr>tm_table_name = t, tm_original_checkpoint_id = None, tm_checkpoint_id = ?id,
    iceberg_metadata = Some (ic_metadata commit), speedboat_metadata = speedboat_metadata old,
    deletes_metadata = deletes_metadata old, extension_metadata = extension_metadata old, tm_schema = merged\<rparr>"
  have wf0: "wf_checkpoint c0" using latest_checkpoint_wf [OF inv old] wf by (simp add: c0_def wf_checkpoint_def)
  have "set ?ks \<subseteq> fmdom' ?L"
  proof
    fix k assume "k \<in> set ?ks"
    from ready this show "k \<in> fmdom' ?L" by (rule compactions_readyE) (simp add: fmlookup_dom'_iff)
  qed
  with wf0 obtain c1 where c1: "apply_compactions ?ks ?L c0 = Inr c1" "wf_checkpoint c1"
    "speedboat_paths c1 = [p \<leftarrow> speedboat_paths c0. p \<notin> set (removed_speedboat ?ks ?L)]"
    "delete_paths c1 = [p \<leftarrow> delete_paths c0. p \<notin> set (removed_deletes ?ks ?L)]"
    "iceberg_metadata c1 = iceberg_metadata c0" "tm_schema c1 = tm_schema c0"
    "tm_table_name c1 = tm_table_name c0" "tm_checkpoint_id c1 = tm_checkpoint_id c0"
    by (rule apply_compactions_wf)
  have removed: "p \<in> set (removed_speedboat ?ks ?L) \<longleftrightarrow> (\<exists>k \<in> set ?ks. p \<in> set (fst (snd (compaction_of s k))))"
    "p \<in> set (removed_deletes ?ks ?L) \<longleftrightarrow> (\<exists>k \<in> set ?ks. p \<in> set (snd (snd (compaction_of s k))))" for p
    by (auto simp: removed_of)
  obtain c2 sb ice where c2: "try_fill_checkpoint_extension_metadata (draw_id s) ''es'' c1 = Inr (c2, sb, ice)"
    "c2 = c1\<lparr>extension_metadata := extension_metadata c2\<rparr>" "wf_checkpoint c2" "wf_files sb" "wf_files ice"
    "es_uncovered c2 \<subseteq> set (file_paths sb) \<union> set (file_paths ice)"
    using c1(2) by (rule try_fill_es)
  have c2_c1: "tm_table_name c2 = tm_table_name c1" "tm_checkpoint_id c2 = tm_checkpoint_id c1"
    "tm_schema c2 = tm_schema c1" "iceberg_metadata c2 = iceberg_metadata c1"
    "speedboat_paths c2 = speedboat_paths c1" "delete_paths c2 = delete_paths c1"
    by (subst c2(2), simp add: speedboat_paths_def delete_paths_def)+
  have c2_frame: "tm_table_name c2 = t" "tm_checkpoint_id c2 = ?id" "tm_schema c2 = merged"
    "iceberg_metadata c2 = Some (ic_metadata commit)"
    using c2_c1 c1 by (simp_all add: c0_def)
  from store_checkpoint [OF inv gen c2(3) real c2_frame(1,2) c2(4,5,6)] obtain s1 where s1:
    "fill_extension_work_item gen t ''es'' ?id merged sb ice (insert_checkpoint t ?id c2 (draw_id s)) = Inr s1"
    "commits_inv gen (set_latest_committed_checkpoint t None ?id s1)"
    "commits_checkpoint gen t c2 s (set_latest_committed_checkpoint t None ?id s1)"
    "es_uncovered c2 \<subseteq> pending_es (set_latest_committed_checkpoint t None ?id s1) t"
    "cleanup_work_items s1 = cleanup_work_items s" "compaction_work_items s1 = compaction_work_items s" by blast
  let ?s2 = "set_latest_committed_checkpoint t None ?id s1"
  have s2: "compactions ?s2 = compactions s" "cleanup_work_items ?s2 = cleanup_work_items s"
    "compaction_work_items ?s2 = compaction_work_items s"
    using s1(3,5,6) by (simp_all add: commits_checkpoint_def set_latest_committed_checkpoint_def)
  then have of: "compaction_of ?s2 = compaction_of s" by (simp add: compaction_of_def fun_eq_iff)
  have "compactions_ready ?s2 ?ks" using ready by (simp add: compactions_ready_def s2)
  then obtain s3 ws where s3: "foldm (enqueue_cleanup gen) ?s2 ?ks = Inr s3" "same_but_queues ?s2 s3"
    "cleanup_work_items s3 = cleanup_work_items ?s2 @ ws"
    "map (\<lambda>w. (cl_table_name (clt_work_item w), cl_files_to_delete (clt_work_item w),
        clt_lease_expires_at_ms w)) ws =
     map (\<lambda>k. case compaction_of ?s2 k of (t, a, b) \<Rightarrow> (t, a @ b, None)) ?ks"
    "\<And>t. fmlookup (compaction_work_items s3) t =
      (if t \<in> fst ` compaction_of ?s2 ` set ?ks then None else fmlookup (compaction_work_items ?s2) t)"
    by (rule enqueue_cleanups [where gen = gen]) blast
  let ?s' = "queue_publication_request default_metadata_namespace t s3"
  have q: "same_but_queues ?s2 ?s'"
    using s3(2) queue_publication_request_queues by (rule same_but_queues_trans)
  have handled: "handle_compactions (draw_id s) ?ks c0 = Inr c1"
    using c1(1) handle_compactions_eq [OF wf0, of "draw_id s" ?ks] by (simp add: draw_id_def)
  have run: "iceberg_commit_op gen t commit s = Inr (?s', True)"
    using old merged handled c2(1) s1(1) s3(1)
    by (simp add: iceberg_commit_op_def Let_def c0_def fill_extension_work_item_latest)
  have paths: "speedboat_paths c0 = speedboat_paths old" "delete_paths c0 = delete_paths old"
    by (simp_all add: c0_def speedboat_paths_def delete_paths_def)
  have queues: "cleanup_work_items ?s' = cleanup_work_items s3" "compaction_work_items ?s' = compaction_work_items s3"
    by (simp_all add: queue_publication_request_def)
  show thesis
  proof (rule that [OF run commits_inv_queues [OF q s1(2)] commits_checkpoint_queues [OF q s1(3)] c2_frame(4,3)])
    show "speedboat_paths c2 = [p \<leftarrow> speedboat_paths old. \<forall>k \<in> set ?ks. p \<notin> set (fst (snd (compaction_of s k)))]"
      "delete_paths c2 = [p \<leftarrow> delete_paths old. \<forall>k \<in> set ?ks. p \<notin> set (snd (snd (compaction_of s k)))]"
      by (simp_all add: c2_c1 c1(3,4) removed paths)
    show "es_uncovered c2 \<subseteq> pending_es ?s' t" using s1(4) same_but_queues_fields(11) [OF q] by simp
  qed (use s3 queues s2 in \<open>simp_all add: of\<close>)
qed

end
