(* ===== verification/Service_Extension.thy ===== *)
theory Service_Extension
  imports Service_Commits
begin

section \<open>Extension commits\<close>

text \<open>
  What an extension commit does to the checkpoints that wait for side files: which it completes,
  when the commit is refused, and that the work item of a table always has what its waiting
  checkpoints lack.
\<close>

subsection \<open>Covering the waiting checkpoints\<close>

lemma es_uncovered_add_coverage:
  assumes "ec_extension commit = ''es''"
  shows "es_uncovered (fst (add_coverage commit c)) = es_uncovered c - fmdom' (ec_files commit)"
proof -
  have "p \<in> fmdom' (hm_get_or fmempty (extension_metadata (fst (add_coverage commit c))) ''es'') \<longleftrightarrow>
      p \<in> fmdom' (hm_get_or fmempty (extension_metadata c) ''es'') \<or> p \<in> fmdom' (ec_files commit)"
    if "p \<in> set (iceberg_paths c) \<union> set (speedboat_paths c)" for p
    using add_coverage_lookup [of commit c p] that assms
    by (auto simp: fmlookup_dom'_iff coverable_def split: option.splits)
  then show ?thesis by (auto simp: es_uncovered_def)
qed

lemma fully_covered_iff: "fully_covered_for_extension ''es'' c = Inr (es_uncovered c = {})"
  by (auto simp: fully_covered_eq es_uncovered_def)

text \<open>A checkpoint of the table the files of a commit complete.\<close>

definition completes :: "extension_commit \<Rightarrow> service \<Rightarrow> string \<Rightarrow> string \<Rightarrow> bool" where
  "completes commit s t cid \<longleftrightarrow>
     (case get_checkpoint_sync s t cid of
        None \<Rightarrow> False
      | Some c \<Rightarrow> es_uncovered c \<subseteq> fmdom' (ec_files commit))"

definition drop_waiting :: "string \<Rightarrow> string set \<Rightarrow> (string, string list) hash_map \<Rightarrow> (string, string list) hash_map" where
  "drop_waiting key done m =
     (case fmlookup m key of None \<Rightarrow> m | Some ids \<Rightarrow> fmupd key [x \<leftarrow> ids. x \<notin> done] m)"

text \<open>Coverage only grows.\<close>

definition better_covered :: "table_metadata_checkpoint \<Rightarrow> table_metadata_checkpoint \<Rightarrow> bool" where
  "better_covered c c' \<longleftrightarrow> c' = c\<lparr>extension_metadata := extension_metadata c'\<rparr> \<and> es_uncovered c' \<subseteq> es_uncovered c"

lemma better_covered_refl [simp]: "better_covered c c"
  by (simp add: better_covered_def)

lemma better_covered_trans: "better_covered a b \<Longrightarrow> better_covered b c \<Longrightarrow> better_covered a c"
  by (cases a; cases b; cases c) (auto simp: better_covered_def)

lemma better_covered_wf: "better_covered c c' \<Longrightarrow> wf_checkpoint c' = wf_checkpoint c"
  by (cases c; cases c') (auto simp: better_covered_def wf_checkpoint_def)

lemma better_covered_add_coverage:
  assumes "ec_extension commit = ''es''"
  shows "better_covered c (fst (add_coverage commit c))"
proof -
  have "fst (add_coverage commit c) = c\<lparr>extension_metadata := extension_metadata (fst (add_coverage commit c))\<rparr>"
    by (simp add: add_coverage_def Let_def)
  then show ?thesis using es_uncovered_add_coverage [OF assms, of c] by (simp add: better_covered_def)
qed

lemma add_coverage_for_es:
  assumes "ec_extension commit = ''es''" "get_checkpoint_sync s t cid = Some c"
  shows "add_coverage_for t cid commit s =
    Inr (s\<lparr>checkpoints := fmupd (checkpoint_key t cid) (fst (add_coverage commit c)) (checkpoints s),
          checkpoints_needing_extension_work :=
            (if completes commit s t cid
             then drop_waiting (extension_work_key t ''es'') {cid} (checkpoints_needing_extension_work s)
             else checkpoints_needing_extension_work s)\<rparr>,
      if completes commit s t cid then Some cid else None)"
proof -
  have full: "fully_covered_for_extension ''es'' (fst (add_coverage commit c)) = Inr (completes commit s t cid)"
    using assms by (auto simp: fully_covered_iff es_uncovered_add_coverage completes_def)
  show ?thesis
    using assms full
    by (auto simp: add_coverage_for_def get_checkpoint_sync_def Let_def drop_waiting_def split: option.split)
qed

lemma drop_waiting_empty: "drop_waiting key {} m = m"
proof (cases "fmlookup m key")
  case (Some ids)
  then show ?thesis by (intro fmap_ext) (auto simp: drop_waiting_def)
qed (simp add: drop_waiting_def)

lemma drop_waiting_union: "drop_waiting key b (drop_waiting key a m) = drop_waiting key (a \<union> b) m"
  by (cases "fmlookup m key") (simp_all add: drop_waiting_def fmap_ext)

lemma cover_waiting_loop:
  assumes es: "ec_extension commit = ''es''"
    and present: "\<forall>cid \<in> set ids. get_checkpoint_sync s t cid \<noteq> None"
  shows "\<exists>s'. foldm (cover_waiting t commit) (s, acc) ids = Inr (s', acc @ filter (completes commit s t) ids) \<and>
    s' = s\<lparr>checkpoints := checkpoints s', checkpoints_needing_extension_work :=
       drop_waiting (extension_work_key t ''es'') {cid \<in> set ids. completes commit s t cid}
         (checkpoints_needing_extension_work s)\<rparr> \<and>
    (\<forall>k. rel_option better_covered (fmlookup (checkpoints s) k) (fmlookup (checkpoints s') k)) \<and>
    (\<forall>cid \<in> set ids. \<forall>c'. get_checkpoint_sync s' t cid = Some c' \<longrightarrow>
       es_uncovered c' \<inter> fmdom' (ec_files commit) = {})"
  using present
proof (induction ids arbitrary: s acc)
  case Nil
  have "rel_option better_covered (fmlookup (checkpoints s) k) (fmlookup (checkpoints s) k)" for k
    by (cases "fmlookup (checkpoints s) k") simp_all
  then show ?case by (simp add: drop_waiting_empty exI [of _ s])
next
  case (Cons cid ids)
  obtain c where c: "get_checkpoint_sync s t cid = Some c" using Cons.prems by auto
  let ?key = "extension_work_key t ''es''"
  let ?one = "if completes commit s t cid then {cid} else {}"
  let ?acc = "acc @ (if completes commit s t cid then [cid] else [])"
  define s1 where "s1 = s\<lparr>checkpoints := fmupd (checkpoint_key t cid) (fst (add_coverage commit c)) (checkpoints s),
      checkpoints_needing_extension_work := drop_waiting ?key ?one (checkpoints_needing_extension_work s)\<rparr>"
  have step: "cover_waiting t commit (s, acc) cid = Inr (s1, ?acc)"
    by (simp add: cover_waiting_def add_coverage_for_es [OF es c] s1_def drop_waiting_empty)
  have look: "get_checkpoint_sync s1 t x = (if x = cid then Some (fst (add_coverage commit c)) else get_checkpoint_sync s t x)" for x
    by (simp add: get_checkpoint_sync_def s1_def checkpoint_key_same_table)
  have same: "completes commit s1 t = completes commit s t"
  proof
    show "completes commit s1 t x = completes commit s t x" for x
      using c es_uncovered_add_coverage [OF es, of c] unfolding completes_def look by auto
  qed
  have rel1: "rel_option better_covered (fmlookup (checkpoints s) k) (fmlookup (checkpoints s1) k)" for k
    using c better_covered_add_coverage [OF es, of c]
    by (cases "fmlookup (checkpoints s) k") (auto simp: s1_def get_checkpoint_sync_def)
  have "\<forall>x \<in> set ids. get_checkpoint_sync s1 t x \<noteq> None" using Cons.prems by (simp add: look)
  from Cons.IH [OF this, of ?acc] obtain s' where IH:
    "foldm (cover_waiting t commit) (s1, ?acc) ids = Inr (s', ?acc @ filter (completes commit s1 t) ids)"
    "s' = s1\<lparr>checkpoints := checkpoints s', checkpoints_needing_extension_work :=
       drop_waiting ?key {cid \<in> set ids. completes commit s1 t cid} (checkpoints_needing_extension_work s1)\<rparr>"
    "\<forall>k. rel_option better_covered (fmlookup (checkpoints s1) k) (fmlookup (checkpoints s') k)"
    "\<forall>cid \<in> set ids. \<forall>c'. get_checkpoint_sync s' t cid = Some c' \<longrightarrow>
       es_uncovered c' \<inter> fmdom' (ec_files commit) = {}"
    by blast
  have run: "foldm (cover_waiting t commit) (s, acc) (cid # ids) =
      Inr (s', acc @ filter (completes commit s t) (cid # ids))"
    using step IH(1) by (simp add: same)
  have one: "?one \<union> {x \<in> set ids. completes commit s t x} = {x \<in> set (cid # ids). completes commit s t x}" by auto
  have need: "drop_waiting ?key {cid \<in> set ids. completes commit s1 t cid} (checkpoints_needing_extension_work s1) =
      drop_waiting ?key {x \<in> set (cid # ids). completes commit s t x} (checkpoints_needing_extension_work s)"
  proof -
    have "checkpoints_needing_extension_work s1 = drop_waiting ?key ?one (checkpoints_needing_extension_work s)"
      by (simp add: s1_def)
    then show ?thesis by (simp only: same drop_waiting_union one)
  qed
  have frame: "s1\<lparr>checkpoints := a, checkpoints_needing_extension_work := b\<rparr> =
      s\<lparr>checkpoints := a, checkpoints_needing_extension_work := b\<rparr>" for a b
    by (simp add: s1_def)
  have eq: "s' = s\<lparr>checkpoints := checkpoints s', checkpoints_needing_extension_work :=
       drop_waiting ?key {x \<in> set (cid # ids). completes commit s t x} (checkpoints_needing_extension_work s)\<rparr>"
    using IH(2) unfolding need frame .
  have rel: "rel_option better_covered (fmlookup (checkpoints s) k) (fmlookup (checkpoints s') k)" for k
    using rel1 [of k] IH(3) [rule_format, of k] better_covered_trans by (auto simp: rel_option_iff split: option.splits)
  have "es_uncovered c' \<inter> fmdom' (ec_files commit) = {}"
    if x: "x \<in> set (cid # ids)" "get_checkpoint_sync s' t x = Some c'" for x c'
  proof (cases "x \<in> set ids")
    case False
    then have "get_checkpoint_sync s1 t x = Some (fst (add_coverage commit c))" using x by (simp add: look)
    then have "better_covered (fst (add_coverage commit c)) c'"
      using x(2) IH(3) [rule_format, of "checkpoint_key t x"] by (simp add: get_checkpoint_sync_def)
    then show ?thesis by (auto simp: better_covered_def es_uncovered_add_coverage [OF es])
  qed (use IH(4) x in blast)
  with run eq rel show ?case by blast
qed

lemma apply_extension_commit_wf:
  assumes wf: "es_registry_wf (extension_work_items s)" and es: "ec_extension commit = ''es''"
  obtains s' where "apply_extension_commit_to_work_item order t commit s = Inr s'"
    "s' = s\<lparr>extension_work_items := extension_work_items s'\<rparr>" "es_registry_wf (extension_work_items s')"
    "\<And>t'. pending_es s' t' = (if t' = t then pending_es s t - set order else pending_es s t')"
proof (cases "fmlookup (es_items s) t")
  case None
  then show thesis using wf es es_registry_items(1) [OF wf]
    by (intro that [of s]) (simp_all add: apply_extension_commit_to_work_item_def pending_es_def)
next
  case (Some w)
  let ?w = "ewt_work_item w"
  from es_registry_items(2) [OF wf Some] obtain sb ice where rm:
    "fs_remove order (ew_speedboat_files ?w) = Inr sb" "wf_files sb"
    "file_paths sb = [p \<leftarrow> file_paths (ew_speedboat_files ?w). p \<notin> set order]"
    "fs_remove order (ew_iceberg_files ?w) = Inr ice" "wf_files ice"
    "file_paths ice = [p \<leftarrow> file_paths (ew_iceberg_files ?w). p \<notin> set order]"
    by (metis fs_remove_wf)
  define w' where "w' = \<lparr>ewt_work_item = ?w\<lparr>ew_speedboat_files := sb, ew_iceberg_files := ice\<rparr>,
      ewt_lease_expires_at_ms = None\<rparr>"
  let ?s' = "s\<lparr>extension_work_items := fmupd ''es'' (fmupd t w' (es_items s)) (extension_work_items s)\<rparr>"
  have run: "apply_extension_commit_to_work_item order t commit s = Inr ?s'"
    using es es_registry_items(1) [OF wf] Some rm
    by (simp add: apply_extension_commit_to_work_item_def w'_def Let_def)
  have items: "es_items ?s' = fmupd t w' (es_items s)" by (simp add: es_items_def)
  show thesis
  proof (rule that [OF run])
    show "es_registry_wf (extension_work_items ?s')"
      using es_registry_upd [OF wf es_registry_items(1) [OF wf], of w' t] rm by (simp add: w'_def)
    show "pending_es ?s' t' = (if t' = t then pending_es s t - set order else pending_es s t')" for t'
      unfolding pending_es_def items using Some rm by (auto simp: w'_def)
  qed simp
qed

subsection \<open>The commit\<close>

abbreviation waiting_ids :: "service \<Rightarrow> string \<Rightarrow> string list" where
  "waiting_ids s t \<equiv> hm_get_or [] (checkpoints_needing_extension_work s) (extension_work_key t ''es'')"

text \<open>The state an accepted extension commit leaves.\<close>

definition extension_committed :: "extension_commit \<Rightarrow> string \<Rightarrow> service \<Rightarrow> service \<Rightarrow> bool" where
  "extension_committed commit t s s' \<longleftrightarrow>
     waiting_ids s' t = [x \<leftarrow> waiting_ids s t. \<not> completes commit s t x] \<and>
     pending_es s' t = pending_es s t - fmdom' (ec_files commit) \<and>
     (\<forall>k. rel_option better_covered (fmlookup (checkpoints s) k) (fmlookup (checkpoints s') k)) \<and>
     (\<exists>cid c. get_latest_materialized_checkpoint_sync s' t (Some ''es'') = Some cid \<and>
        get_checkpoint_sync s' t cid = Some c \<and> es_uncovered c = {} \<and>
        (\<forall>x \<in> set (waiting_ids s t). completes commit s t x \<longrightarrow> x \<le> cid) \<and>
        (\<forall>x. get_latest_materialized_checkpoint_sync s t (Some ''es'') = Some x \<longrightarrow> x \<le> cid))"

lemma rel_better_covered:
  assumes "\<forall>k. rel_option better_covered (fmlookup (checkpoints s) k) (fmlookup (checkpoints s') k)"
    "get_checkpoint_sync s t cid = Some c"
  obtains c' where "get_checkpoint_sync s' t cid = Some c'" "better_covered c c'"
  using assms(1) [rule_format, of "checkpoint_key t cid"] assms(2)
  by (auto simp: get_checkpoint_sync_def option_rel_Some1)

text \<open>
  Coverage that grows, a shorter waiting list and a covered latest checkpoint keep the
  invariant.
\<close>

lemma commits_inv_cover:
  assumes inv: "commits_inv gen s"
    and es: "es_registry_wf (extension_work_items s')" and seq: "id_seq s \<le> id_seq s'"
    and rel: "\<forall>k. rel_option better_covered (fmlookup (checkpoints s) k) (fmlookup (checkpoints s') k)"
    and latest: "\<And>ext t cid. fmlookup (hm_get_or fmempty (latest_committed_checkpoint_id s') ext) t = Some cid \<Longrightarrow>
      fmlookup (hm_get_or fmempty (latest_committed_checkpoint_id s) ext) t = Some cid \<or>
      ext = Some ''es'' \<and> (\<exists>c. get_checkpoint_sync s' t cid = Some c \<and> es_uncovered c = {})"
    and wait: "\<And>t cid. cid \<in> set (waiting_ids s' t) \<Longrightarrow> cid \<in> set (waiting_ids s t) \<and>
      (\<forall>c c'. get_checkpoint_sync s t cid = Some c \<longrightarrow> get_checkpoint_sync s' t cid = Some c' \<longrightarrow>
         better_covered c c' \<longrightarrow> es_uncovered c \<subseteq> pending_es s t \<longrightarrow> es_uncovered c' \<subseteq> pending_es s' t)"
  shows "commits_inv gen s'"
proof -
  have dom: "hm_contains (checkpoints s') k = hm_contains (checkpoints s) k" for k
    using rel [rule_format, of k] by (auto simp: rel_option_iff split: option.splits)
  from inv have lp: "latest_present s" and wc: "waiting_complete s" and cov: "es_latest_covered s"
    and wf: "fmpred (\<lambda>_. wf_checkpoint) (checkpoints s)" and fresh: "fresh_ids gen s"
    by (simp_all add: commits_inv_def)
  have "latest_present s'"
    unfolding latest_present_def
  proof (intro fmpredI)
    fix ext m t cid assume m: "fmlookup (latest_committed_checkpoint_id s') ext = Some m" "fmlookup m t = Some cid"
    then have "fmlookup (hm_get_or fmempty (latest_committed_checkpoint_id s') ext) t = Some cid" by simp
    from latest [OF this] show "hm_contains (checkpoints s') (checkpoint_key t cid)"
      using latest_presentD [OF lp, of ext t cid] dom by (auto simp: get_checkpoint_sync_def)
  qed
  moreover have "waiting_complete s'"
    unfolding waiting_complete_def
  proof (intro allI impI ballI)
    fix t ids cid
    assume "fmlookup (checkpoints_needing_extension_work s') (extension_work_key t ''es'') = Some ids" "cid \<in> set ids"
    then have "cid \<in> set (waiting_ids s' t)" by simp
    note w = wait [OF this]
    obtain ids0 where "fmlookup (checkpoints_needing_extension_work s) (extension_work_key t ''es'') = Some ids0"
      "cid \<in> set ids0"
      using w by (cases "fmlookup (checkpoints_needing_extension_work s) (extension_work_key t ''es'')") auto
    from waiting_completeD [OF wc this] obtain c where c: "get_checkpoint_sync s t cid = Some c"
      "es_uncovered c \<subseteq> pending_es s t" by blast
    from rel c(1) obtain c' where "get_checkpoint_sync s' t cid = Some c'" "better_covered c c'"
      by (rule rel_better_covered)
    with w c show "\<exists>c. get_checkpoint_sync s' t cid = Some c \<and> es_uncovered c \<subseteq> pending_es s' t" by blast
  qed
  moreover have "es_latest_covered s'"
    unfolding es_latest_covered_def
  proof (intro allI impI)
    fix t cid
    assume "fmlookup (hm_get_or fmempty (latest_committed_checkpoint_id s') (Some ''es'')) t = Some cid"
    from latest [OF this] show "\<exists>c. get_checkpoint_sync s' t cid = Some c \<and> es_uncovered c = {}"
    proof
      assume "fmlookup (hm_get_or fmempty (latest_committed_checkpoint_id s) (Some ''es'')) t = Some cid"
      from es_latest_coveredD [OF cov this] obtain c where c: "get_checkpoint_sync s t cid = Some c" "es_uncovered c = {}"
        by blast
      from rel c(1) obtain c' where "get_checkpoint_sync s' t cid = Some c'" "better_covered c c'"
        by (rule rel_better_covered)
      with c(2) show ?thesis by (auto simp: better_covered_def)
    qed simp
  qed
  moreover have "fmpred (\<lambda>_. wf_checkpoint) (checkpoints s')"
  proof (rule fmpredI)
    fix k c' assume "fmlookup (checkpoints s') k = Some c'"
    with rel [rule_format, of k] obtain c where "fmlookup (checkpoints s) k = Some c" "better_covered c c'"
      by (auto simp: option_rel_Some2)
    with wf show "wf_checkpoint c'" by (auto simp: fmpred_iff better_covered_wf)
  qed
  moreover have "fresh_ids gen s'" using fresh seq dom by (simp add: fresh_ids_def)
  ultimately show ?thesis using es by (simp add: commits_inv_def)
qed

lemma advance_es_fields:
  "checkpoints (advance_es t m s) = checkpoints s"
  "checkpoints_needing_extension_work (advance_es t m s) = checkpoints_needing_extension_work s"
  "extension_work_items (advance_es t m s) = extension_work_items s"
  "id_seq (advance_es t m s) = id_seq s" "table_aliases (advance_es t m s) = table_aliases s"
  by (simp_all add: advance_es_def set_latest_committed_checkpoint_def split: option.split)

lemma advance_es_latest:
  assumes "real_table_name s t = t"
  shows "fmlookup (hm_get_or fmempty (latest_committed_checkpoint_id (advance_es t m s)) ext) t' =
    (if ext = Some ''es'' \<and> t' = t
     then Some (case get_latest_materialized_checkpoint_sync s t (Some ''es'') of
                  None \<Rightarrow> m | Some latest \<Rightarrow> max m latest)
     else fmlookup (hm_get_or fmempty (latest_committed_checkpoint_id s) ext) t')"
proof (cases "get_latest_materialized_checkpoint_sync s t (Some ''es'')")
  case None
  then show ?thesis using assms
    by (auto simp: advance_es_def set_latest_committed_checkpoint_def hm_get_or_def)
next
  case (Some latest)
  then show ?thesis using assms
    by (auto simp: advance_es_def set_latest_committed_checkpoint_def hm_get_or_def latest_lookup max_def
        split: option.splits)
qed

lemma waiting_present:
  assumes "waiting_complete s" "cid \<in> set (waiting_ids s t)"
  obtains c where "get_checkpoint_sync s t cid = Some c" "es_uncovered c \<subseteq> pending_es s t"
proof (cases "fmlookup (checkpoints_needing_extension_work s) (extension_work_key t ''es'')")
  case (Some ids)
  with assms(2) waiting_completeD [OF assms(1) Some, of cid] that show thesis by auto
qed (use assms(2) in simp)

lemma waiting_ids_drop:
  "hm_get_or [] (drop_waiting (extension_work_key t ''es'') X m) (extension_work_key t' ''es'') =
     (if t' = t then [x \<leftarrow> hm_get_or [] m (extension_work_key t ''es''). x \<notin> X]
      else hm_get_or [] m (extension_work_key t' ''es''))"
  by (cases "fmlookup m (extension_work_key t ''es'')")
    (auto simp: drop_waiting_def hm_get_or_def extension_work_key_inj)

lemma extension_commit_accepted:
  assumes inv: "commits_inv gen s" and es: "ec_extension commit = ''es''"
    and order: "iter_order order (ec_files commit)" and real: "real_table_name s t = t"
    and some: "\<exists>x \<in> set (waiting_ids s t). completes commit s t x"
  obtains s' where "extension_commit_op order t commit s = Inr (s', True)"
    "commits_inv gen s'" "extension_committed commit t s s'" "table_aliases s' = table_aliases s"
proof -
  let ?ids = "waiting_ids s t" let ?done = "filter (completes commit s t) ?ids"
  from inv have wc: "waiting_complete s" and wf: "es_registry_wf (extension_work_items s)"
    by (simp_all add: commits_inv_def)
  have "\<forall>cid \<in> set ?ids. get_checkpoint_sync s t cid \<noteq> None"
    using waiting_present [OF wc] by (metis option.distinct(1))
  from cover_waiting_loop [OF es this, of "[]"] obtain s1 where s1:
    "foldm (cover_waiting t commit) (s, []) ?ids = Inr (s1, ?done)"
    "s1 = s\<lparr>checkpoints := checkpoints s1, checkpoints_needing_extension_work :=
       drop_waiting (extension_work_key t ''es'') {cid \<in> set ?ids. completes commit s t cid}
         (checkpoints_needing_extension_work s)\<rparr>"
    "\<forall>k. rel_option better_covered (fmlookup (checkpoints s) k) (fmlookup (checkpoints s1) k)"
    "\<forall>cid \<in> set ?ids. \<forall>c'. get_checkpoint_sync s1 t cid = Some c' \<longrightarrow>
       es_uncovered c' \<inter> fmdom' (ec_files commit) = {}"
    by auto
  let ?s2 = "add_recent_extension_files order t commit s1"
  have s1_frame: "extension_work_items s1 = extension_work_items s" "table_aliases s1 = table_aliases s"
    "latest_committed_checkpoint_id s1 = latest_committed_checkpoint_id s" "id_seq s1 = id_seq s"
    "checkpoints_needing_extension_work s1 = drop_waiting (extension_work_key t ''es'')
       {cid \<in> set ?ids. completes commit s t cid} (checkpoints_needing_extension_work s)"
    by (subst s1(2), simp)+
  have "es_registry_wf (extension_work_items ?s2)" using wf s1_frame(1) by (simp add: add_recent_extension_files_def)
  then obtain s3 where s3: "apply_extension_commit_to_work_item order t commit ?s2 = Inr s3"
    "s3 = ?s2\<lparr>extension_work_items := extension_work_items s3\<rparr>" "es_registry_wf (extension_work_items s3)"
    "\<And>t'. pending_es s3 t' = (if t' = t then pending_es ?s2 t - set order else pending_es ?s2 t')"
    using es by (rule apply_extension_commit_wf) blast
  have s3_frame: "checkpoints s3 = checkpoints s1" "table_aliases s3 = table_aliases s" "id_seq s3 = id_seq s"
    "checkpoints_needing_extension_work s3 = checkpoints_needing_extension_work s1"
    "latest_committed_checkpoint_id s3 = latest_committed_checkpoint_id s"
    by (subst s3(2), simp add: add_recent_extension_files_def s1_frame)+
  define mx where "mx = Max (set ?done)"
  let ?s4 = "advance_es t mx s3"
  let ?s' = "queue_publication_request default_metadata_namespace t ?s4"
  have "?done \<noteq> []" using some by (auto simp: filter_empty_conv)
  moreover have "?ids \<noteq> []" using some by auto
  moreover have "(case checkpoints_needing_extension_work_for s t ''es'' of None \<Rightarrow> [] | Some ids \<Rightarrow> ids) = ?ids"
    by (simp add: checkpoints_needing_extension_work_for_def hm_get_or_def)
  ultimately have run: "extension_commit_op order t commit s = Inr (?s', True)"
    using s1(1) s3(1) by (simp add: extension_commit_op_def es Let_def mx_def del: set_filter)
  have mx: "mx \<in> set ?done" using \<open>?done \<noteq> []\<close> unfolding mx_def by (intro Max_in) (simp_all del: set_filter)
  have real3: "real_table_name s3 t = t" using real real_table_name_cong [OF s3_frame(2)] by simp
  have pend: "pending_es ?s' t' = (if t' = t then pending_es s t - fmdom' (ec_files commit) else pending_es s t')" for t'
    using s3(4) [of t'] order
    by (simp add: pending_es_def es_items_def queue_publication_request_def advance_es_fields
        add_recent_extension_files_def s1_frame iter_order_def)
  have wait: "waiting_ids ?s' t' =
      (if t' = t then [x \<leftarrow> ?ids. \<not> completes commit s t x] else waiting_ids s t')" for t'
    by (auto simp: queue_publication_request_def advance_es_fields s3_frame s1_frame(5) waiting_ids_drop
        intro: filter_cong)
  have cps: "checkpoints ?s' = checkpoints s1"
    by (simp add: queue_publication_request_def advance_es_fields s3_frame)
  then have rel: "\<forall>k. rel_option better_covered (fmlookup (checkpoints s) k) (fmlookup (checkpoints ?s') k)"
    using s1(3) by simp
  have get: "get_checkpoint_sync ?s' = get_checkpoint_sync s1"
    by (simp add: get_checkpoint_sync_def cps fun_eq_iff)
  have covered: "\<exists>c. get_checkpoint_sync ?s' t x = Some c \<and> es_uncovered c = {}" if "x \<in> set ?done" for x
  proof -
    from that obtain c where c: "get_checkpoint_sync s t x = Some c" "es_uncovered c \<subseteq> fmdom' (ec_files commit)"
      by (auto simp: completes_def split: option.splits)
    from rel c(1) obtain c' where c': "get_checkpoint_sync ?s' t x = Some c'" "better_covered c c'"
      by (rule rel_better_covered)
    with s1(4) that have "es_uncovered c' \<inter> fmdom' (ec_files commit) = {}" unfolding get by auto
    with c c' show ?thesis by (auto simp: better_covered_def)
  qed
  have latest: "fmlookup (hm_get_or fmempty (latest_committed_checkpoint_id ?s') ext) t' =
    (if ext = Some ''es'' \<and> t' = t
     then Some (case get_latest_materialized_checkpoint_sync s t (Some ''es'') of
                  None \<Rightarrow> mx | Some latest \<Rightarrow> max mx latest)
     else fmlookup (hm_get_or fmempty (latest_committed_checkpoint_id s) ext) t')" for ext t'
    using advance_es_latest [OF real3, of mx ext t']
    by (simp add: queue_publication_request_def latest_lookup s3_frame real3 real)
  have inv': "commits_inv gen ?s'"
  proof (rule commits_inv_cover [OF inv _ _ rel])
    show "es_registry_wf (extension_work_items ?s')"
      using s3(3) by (simp add: queue_publication_request_def advance_es_fields)
    show "id_seq s \<le> id_seq ?s'" by (simp add: queue_publication_request_def advance_es_fields s3_frame)
    fix ext t' cid
    assume "fmlookup (hm_get_or fmempty (latest_committed_checkpoint_id ?s') ext) t' = Some cid"
    then show "fmlookup (hm_get_or fmempty (latest_committed_checkpoint_id s) ext) t' = Some cid \<or>
      ext = Some ''es'' \<and> (\<exists>c. get_checkpoint_sync ?s' t' cid = Some c \<and> es_uncovered c = {})"
      using covered [OF mx] real by (auto simp: latest latest_lookup max_def split: if_splits option.splits)
  next
    fix t' cid assume "cid \<in> set (waiting_ids ?s' t')"
    then show "cid \<in> set (waiting_ids s t') \<and>
      (\<forall>c c'. get_checkpoint_sync s t' cid = Some c \<longrightarrow> get_checkpoint_sync ?s' t' cid = Some c' \<longrightarrow>
         better_covered c c' \<longrightarrow> es_uncovered c \<subseteq> pending_es s t' \<longrightarrow> es_uncovered c' \<subseteq> pending_es ?s' t')"
      using s1(4) unfolding wait pend get by (fastforce simp: better_covered_def split: if_splits)
  qed
  have "extension_committed commit t s ?s'"
    unfolding extension_committed_def
  proof (intro conjI)
    let ?cid = "case get_latest_materialized_checkpoint_sync s t (Some ''es'') of
        None \<Rightarrow> mx | Some latest \<Rightarrow> max mx latest"
    have l: "fmlookup (hm_get_or fmempty (latest_committed_checkpoint_id ?s') (Some ''es'')) t = Some ?cid"
      by (simp add: latest)
    have real': "real_table_name ?s' t = t"
      using real3 by (simp add: real_table_name_def queue_publication_request_def advance_es_fields)
    from inv' have "es_latest_covered ?s'" by (simp add: commits_inv_def)
    from es_latest_coveredD [OF this l] obtain c where
      c: "get_checkpoint_sync ?s' t ?cid = Some c" "es_uncovered c = {}" by blast
    have le: "mx \<le> ?cid" by (simp split: option.split)
    have "x \<le> ?cid" if "x \<in> set ?ids" "completes commit s t x" for x
      using Max_ge [of "set ?done" x] that by (intro order.trans [OF _ le]) (simp add: mx_def)
    moreover have "x \<le> ?cid" if "get_latest_materialized_checkpoint_sync s t (Some ''es'') = Some x" for x
      using that by simp
    ultimately show "\<exists>cid c. get_latest_materialized_checkpoint_sync ?s' t (Some ''es'') = Some cid \<and>
        get_checkpoint_sync ?s' t cid = Some c \<and> es_uncovered c = {} \<and>
        (\<forall>x \<in> set (waiting_ids s t). completes commit s t x \<longrightarrow> x \<le> cid) \<and>
        (\<forall>x. get_latest_materialized_checkpoint_sync s t (Some ''es'') = Some x \<longrightarrow> x \<le> cid)"
      using c l real' by (auto simp: latest_lookup [of ?s'])
  qed (use rel in \<open>simp_all add: wait pend\<close>)
  then show thesis
    by (rule that [OF run inv']) (simp add: queue_publication_request_def advance_es_fields s3_frame)
qed

end
