(* ===== verification/Commit_Properties.thy ===== *)
theory Commit_Properties
  imports Service_Extension
begin

section \<open>Properties of the commits\<close>

text \<open>
  The commits end to end: what a speedboat, an Iceberg and an extension commit make of a service
  that satisfies the invariant, when they are refused, and what goes wrong when a table is written
  through an alias.
\<close>

subsection \<open>The start\<close>

lemma service_new_fields [simp]:
  "tables (service_new n md) = fmempty" "table_aliases (service_new n md) = fmempty"
  "latest_committed_checkpoint_id (service_new n md) = fmempty" "checkpoints (service_new n md) = fmempty"
  "checkpoints_needing_extension_work (service_new n md) = fmempty" "id_seq (service_new n md) = n"
  "extension_work_items (service_new n md) = fmupd ''es'' fmempty fmempty"
  "compactions (service_new n md) = fmempty" "compaction_work_items (service_new n md) = fmempty"
  "cleanup_work_items (service_new n md) = []"
  "recent_file_extension_metadata (service_new n md) = fmempty"
  "checkpoint_publication_requests (service_new n md) = fmempty"
  "cutover_membership_views (service_new n md) = fmempty"
  by (simp_all add: service_new_def from_snapshot_def snapshot_default_def
      deserialize_latest_committed_checkpoint_id_def rekey_def)

lemma commits_inv_new: "commits_inv gen (service_new n md)"
  by (simp add: commits_inv_def latest_present_def waiting_complete_def es_latest_covered_def fresh_ids_def
      es_registry_wf_def fmpred_upd)

text \<open>Ids for the examples: \<open>1\<close>, \<open>11\<close>, \<open>111\<close> and so on.\<close>

definition sample_ids :: "nat \<Rightarrow> string" where
  "sample_ids n = replicate (Suc n) CHR ''1''"

lemma sample_ids_source: "id_source sample_ids"
  by (auto simp: id_source_def sample_ids_def intro!: injI)

subsection \<open>Speedboat commits\<close>

text \<open>
  C6. A speedboat commit of well-formed files for a table (that is not an alias) never panics as
  long as its schema merges: it adds exactly one checkpoint, with a fresh id, whose speedboat files
  are those of the latest checkpoint and the committed ones, and whose Iceberg files and deletes
  are unchanged; every other checkpoint, table and published checkpoint is untouched, the new
  checkpoint is the latest, and each of its files has side files or is in the work item of the
  table.
\<close>

theorem speedboat_commit_correct:
  assumes inv: "commits_inv gen s" and gen: "id_source gen"
    and real: "real_table_name s (ti_table_name ti) = ti_table_name ti"
    and info: "ti_commit_type ti = ''commit''" "wf_info ti" "ti_schema ti = Some schema"
    and old: "latest_checkpoint s (ti_table_name ti) (Inr schema) = Inr old"
    and merged: "merge_from (tm_schema old) schema = Inr merged"
  shows "\<exists>s' c. speedboat_commit_op gen hash \<lparr>sc_type_files = [ti], sc_compaction = None\<rparr> s = Inr (s', True) \<and>
    commits_inv gen s' \<and> commits_checkpoint gen (ti_table_name ti) c s s' \<and>
    set (speedboat_paths c) = set (speedboat_paths old) \<union> set (ti_files ti) \<and>
    iceberg_metadata c = iceberg_metadata old \<and> deletes_metadata c = deletes_metadata old \<and>
    tm_schema c = merged \<and> es_uncovered c \<subseteq> pending_es s' (ti_table_name ti) \<and>
    hm_contains (checkpoint_publication_requests s')
      (checkpoint_publication_request_key default_metadata_namespace (ti_table_name ti))"
proof -
  obtain s1 c where s1: "speedboat_commit_type_commit gen hash ti None s = Inr s1"
    "commits_inv gen s1" "commits_checkpoint gen (ti_table_name ti) c s s1"
    "set (speedboat_paths c) = set (speedboat_paths old) \<union> set (ti_files ti)"
    "iceberg_metadata c = iceberg_metadata old" "deletes_metadata c = deletes_metadata old"
    "tm_schema c = merged" "es_uncovered c \<subseteq> pending_es s1 (ti_table_name ti)"
    using inv gen real info(2,3) old merged by (rule speedboat_commit_type_commit_correct)
  let ?s' = "queue_publication_request default_metadata_namespace (ti_table_name ti) s1"
  have q: "same_but_queues s1 ?s'" by (rule queue_publication_request_queues)
  have "speedboat_commit_op gen hash \<lparr>sc_type_files = [ti], sc_compaction = None\<rparr> s = Inr (?s', True)"
    using s1(1) info(1) by (simp add: speedboat_commit_op_def speedboat_commit_info_def)
  moreover have "hm_contains (checkpoint_publication_requests ?s')
      (checkpoint_publication_request_key default_metadata_namespace (ti_table_name ti))"
    by (simp add: queue_publication_request_def)
  ultimately show ?thesis
    using s1(4-8) commits_inv_queues [OF q s1(2)] commits_checkpoint_queues [OF q s1(3)] same_but_queues_fields(11) [OF q]
    by (intro exI [of _ ?s'] exI [of _ c]) simp
qed

definition sample_info :: "string \<Rightarrow> string list \<Rightarrow> speedboat_commit_table_info" where
  "sample_info t fs = from_segments ''commit'' t (map (\<lambda>f. \<lparr>seg_id = f, seg_file_path = f, seg_size = 1\<rparr>) fs)
     (Some (PowdrrSchema []))"

lemma sample_info_simps [simp]:
  "ti_table_name (sample_info t fs) = t" "ti_files (sample_info t fs) = fs"
  "ti_schema (sample_info t fs) = Some (PowdrrSchema [])" "ti_commit_type (sample_info t fs) = ''commit''"
  "wf_info (sample_info t fs) = distinct fs"
  by (auto simp: sample_info_def from_segments_def wf_info_def comp_def)

lemma merge_from_empty [simp]: "merge_from (PowdrrSchema []) (PowdrrSchema []) = Inr (PowdrrSchema [])"
  by (simp add: merge_from.simps to_map_def)

lemma speedboat_commit_correct_witness:
  "\<exists>s' c. speedboat_commit_op sample_ids (\<lambda>_. 0) \<lparr>sc_type_files = [sample_info ''t'' [''a'', ''b'']],
       sc_compaction = None\<rparr> (service_new 0 ephemeral_default) = Inr (s', True) \<and>
     commits_inv sample_ids s' \<and> get_checkpoint_sync s' ''t'' ''1'' = Some c \<and>
     set (speedboat_paths c) = {''a'', ''b''}"
proof -
  let ?s = "service_new 0 ephemeral_default" let ?ti = "sample_info ''t'' [''a'', ''b'']"
  have real: "real_table_name ?s (ti_table_name ?ti) = ti_table_name ?ti" by (simp add: real_table_name_def)
  have info: "ti_commit_type ?ti = ''commit''" "wf_info ?ti" "ti_schema ?ti = Some (PowdrrSchema [])" by simp_all
  have old: "latest_checkpoint ?s (ti_table_name ?ti) (Inr (PowdrrSchema [])) =
      Inr (fresh_checkpoint ''t'' (PowdrrSchema []))"
    by (simp add: latest_checkpoint_def get_latest_materialized_checkpoint_sync_def)
  have merged: "merge_from (tm_schema (fresh_checkpoint ''t'' (PowdrrSchema []))) (PowdrrSchema []) = Inr (PowdrrSchema [])"
    by (simp add: fresh_checkpoint_def)
  from speedboat_commit_correct [OF commits_inv_new sample_ids_source real info old merged, of "\<lambda>_. 0"]
  obtain s' c where r: "speedboat_commit_op sample_ids (\<lambda>_. 0) \<lparr>sc_type_files = [?ti], sc_compaction = None\<rparr> ?s = Inr (s', True)"
    "commits_inv sample_ids s'" "commits_checkpoint sample_ids (ti_table_name ?ti) c ?s s'"
    "set (speedboat_paths c) = set (speedboat_paths (fresh_checkpoint ''t'' (PowdrrSchema []))) \<union> set (ti_files ?ti)"
    by blast
  have "set (speedboat_paths c) = {''a'', ''b''}"
    using r(4) by (simp add: fresh_checkpoint_def speedboat_paths_def)
  moreover have "get_checkpoint_sync s' ''t'' ''1'' = Some c"
    using r(3) by (simp add: commits_checkpoint_def get_checkpoint_sync_def sample_ids_def)
  ultimately show ?thesis using r(1,2) by blast
qed

subsection \<open>Iceberg commits\<close>


text \<open>A table with one checkpoint whose speedboat file \<open>b\<close> a compaction has rewritten.\<close>

definition sample_compacting :: service where
  "sample_compacting = (service_new 0 ephemeral_default)
     \<lparr>checkpoints := fmupd (checkpoint_key ''t'' ''c1'') (sample_checkpoint [''a''] [''b''] []) fmempty,
      latest_committed_checkpoint_id := fmupd None (fmupd ''t'' ''c1'' fmempty) fmempty,
      compactions := fmupd ''k'' (''t'', sample_compaction [''b''] [] ''c'') fmempty,
      compaction_work_items := fmupd ''t''
        \<lparr>cwt_work_item = \<lparr>cw_id = ''k'', cw_table_schema = PowdrrSchema [], cw_speedboat_files = sample_files [''b''],
           cw_delete_files = [], cw_checkpoint_id_to_replace = ''c1'', cw_checkpoints_to_delete = []\<rparr>,
         cwt_lease_expires_at_ms = None\<rparr> fmempty\<rparr>"

lemma sample_compacting_inv: "commits_inv sample_ids sample_compacting"
proof -
  have "sample_ids n \<noteq> ''c1''" for n by (simp add: sample_ids_def)
  then have "checkpoint_key ''t'' ''c1'' \<noteq> checkpoint_key t (sample_ids n)" for t n
    using sample_ids_source by (simp add: checkpoint_key_inj id_source_def eq_commute [of "''c1''"])
  then have "fresh_ids sample_ids sample_compacting"
    by (simp add: fresh_ids_def sample_compacting_def)
  moreover have "wf_checkpoint (sample_checkpoint [''a''] [''b''] [])"
    by (simp add: sample_defs wf_checkpoint_def wf_files_def)
  ultimately show ?thesis
    by (simp add: commits_inv_def latest_present_def waiting_complete_def es_latest_covered_def
        es_registry_wf_def sample_compacting_def fmpred_upd hm_get_or_def)
qed


subsection \<open>Extension commits\<close>

lemma extension_commit_refused:
  assumes inv: "commits_inv gen s" and es: "ec_extension commit = ''es''"
    and none: "\<not> (\<exists>x \<in> set (waiting_ids s t). completes commit s t x)"
  shows "\<exists>msg. extension_commit_op order t commit s = Inl (Panic msg)"
proof -
  have ids: "(case checkpoints_needing_extension_work_for s t ''es'' of None \<Rightarrow> [] | Some ids \<Rightarrow> ids) = waiting_ids s t"
    by (simp add: checkpoints_needing_extension_work_for_def hm_get_or_def)
  show ?thesis
  proof (cases "waiting_ids s t = []")
    case False
    from inv have "waiting_complete s" by (simp add: commits_inv_def)
    then have "\<forall>cid \<in> set (waiting_ids s t). get_checkpoint_sync s t cid \<noteq> None"
      using waiting_present by (metis option.distinct(1))
    from cover_waiting_loop [OF es this, of "[]"] none obtain s1 where
      "foldm (cover_waiting t commit) (s, []) (waiting_ids s t) = Inr (s1, [])"
      by (auto simp: filter_empty_conv)
    with False ids show ?thesis by (simp add: extension_commit_op_def es)
  qed (use ids in \<open>simp add: extension_commit_op_def es\<close>)
qed

text \<open>A table whose only checkpoint waits for side files of \<open>a\<close> and \<open>b\<close>, and a commit with them.\<close>

definition sample_waiting :: service where
  "sample_waiting = (service_new 0 ephemeral_default)
     \<lparr>checkpoints := fmupd (checkpoint_key ''t'' ''c1'') (sample_checkpoint [''a''] [''b''] []) fmempty,
      checkpoints_needing_extension_work := fmupd (extension_work_key ''t'' ''es'') [''c1''] fmempty,
      extension_work_items := fmupd ''es'' (fmupd ''t''
        \<lparr>ewt_work_item = \<lparr>ew_id = ''1'', ew_extension_type = ''es'', ew_table_name = ''t'',
           ew_checkpoint_id = Some ''c1'', ew_table_schema = PowdrrSchema [],
           ew_speedboat_files = sample_files [''b''], ew_iceberg_files = sample_files [''a'']\<rparr>,
         ewt_lease_expires_at_ms = None\<rparr> fmempty) fmempty\<rparr>"

definition sample_side_files :: extension_commit where
  "sample_side_files =
     \<lparr>ec_id = ''1'', ec_extension = ''es'', ec_files = fmupd ''a'' [] (fmupd ''b'' [] fmempty)\<rparr>"

lemma sample_waiting_facts:
  "commits_inv sample_ids sample_waiting" "ec_extension sample_side_files = ''es''"
  "iter_order [''a'', ''b''] (ec_files sample_side_files)" "real_table_name sample_waiting ''t'' = ''t''"
  "pending_es sample_waiting ''t'' \<subseteq> fmdom' (ec_files sample_side_files)"
  "waiting_ids sample_waiting ''t'' = [''c1'']"
proof -
  let ?c = "sample_checkpoint [''a''] [''b''] []"
  have pend: "pending_es sample_waiting ''t'' = {''a'', ''b''}"
    by (auto simp: pending_es_def es_items_def sample_waiting_def sample_defs)
  have unc: "es_uncovered ?c = {''a'', ''b''}"
    by (auto simp: es_uncovered_def sample_defs iceberg_paths_def speedboat_paths_def)
  have wc: "waiting_complete sample_waiting"
    unfolding waiting_complete_def
  proof (intro allI impI ballI)
    fix t ids cid
    assume look: "fmlookup (checkpoints_needing_extension_work sample_waiting) (extension_work_key t ''es'') = Some ids"
      and cid: "cid \<in> set ids"
    then have "t = ''t''" "cid = ''c1''"
      by (auto simp: sample_waiting_def extension_work_key_inj split: if_splits)
    then show "\<exists>c. get_checkpoint_sync sample_waiting t cid = Some c \<and> es_uncovered c \<subseteq> pending_es sample_waiting t"
      using pend unc by (simp add: get_checkpoint_sync_def sample_waiting_def [THEN arg_cong [where f = checkpoints]])
  qed
  have "sample_ids n \<noteq> ''c1''" for n by (simp add: sample_ids_def)
  then have "checkpoint_key ''t'' ''c1'' \<noteq> checkpoint_key t (sample_ids n)" for t n
    using sample_ids_source by (simp add: checkpoint_key_inj id_source_def eq_commute [of "''c1''"])
  then have "fresh_ids sample_ids sample_waiting" by (simp add: fresh_ids_def sample_waiting_def)
  moreover have "wf_checkpoint ?c" "wf_files (sample_files [''a''])" "wf_files (sample_files [''b''])"
    by (simp_all add: sample_defs wf_checkpoint_def wf_files_def)
  ultimately show "commits_inv sample_ids sample_waiting"
    using wc by (simp add: commits_inv_def latest_present_def es_latest_covered_def es_registry_wf_def
        sample_waiting_def fmpred_upd)
  show "pending_es sample_waiting ''t'' \<subseteq> fmdom' (ec_files sample_side_files)"
    using pend by (simp add: sample_side_files_def)
  show "ec_extension sample_side_files = ''es''" "iter_order [''a'', ''b''] (ec_files sample_side_files)"
    by (auto simp: sample_side_files_def iter_order_def)
  show "real_table_name sample_waiting ''t'' = ''t''" "waiting_ids sample_waiting ''t'' = [''c1'']"
    by (simp_all add: sample_waiting_def real_table_name_def)
qed

text \<open>
  C9. An extension commit for a table is accepted exactly when its files complete one of the
  checkpoints waiting for side files, and panics otherwise. When accepted it drops exactly the
  completed checkpoints from the waiting list, takes its files out of the work item, never loses
  coverage, and moves the search extension to a fully covered checkpoint that is no smaller (as
  text) than the previous one and than every completed one.
\<close>

theorem extension_commit_correct:
  assumes "commits_inv gen s" "ec_extension commit = ''es''" "iter_order order (ec_files commit)"
    and "real_table_name s t = t"
  shows "case extension_commit_op order t commit s of
      Inl e \<Rightarrow> (\<exists>msg. e = Panic msg) \<and> \<not> (\<exists>x \<in> set (waiting_ids s t). completes commit s t x)
    | Inr (s', ok) \<Rightarrow> ok \<and> (\<exists>x \<in> set (waiting_ids s t). completes commit s t x) \<and>
        commits_inv gen s' \<and> extension_committed commit t s s'"
proof (cases "\<exists>x \<in> set (waiting_ids s t). completes commit s t x")
  case True
  obtain s' where "extension_commit_op order t commit s = Inr (s', True)" "commits_inv gen s'"
    "extension_committed commit t s s'"
    using extension_commit_accepted [OF assms True] by blast
  with True show ?thesis by simp
next
  case False
  with extension_commit_refused [OF assms(1,2) False, of order] show ?thesis by auto
qed

lemma sample_waiting_completes: "completes sample_side_files sample_waiting ''t'' ''c1''"
proof -
  have "waiting_complete sample_waiting" using sample_waiting_facts(1) by (simp add: commits_inv_def)
  moreover have "''c1'' \<in> set (waiting_ids sample_waiting ''t'')" by (simp add: sample_waiting_facts)
  ultimately obtain c where "get_checkpoint_sync sample_waiting ''t'' ''c1'' = Some c"
    "es_uncovered c \<subseteq> pending_es sample_waiting ''t''" by (rule waiting_present)
  with sample_waiting_facts(5) show ?thesis by (auto simp: completes_def)
qed

lemma extension_commit_correct_witness:
  "case extension_commit_op [''a'', ''b''] ''t'' sample_side_files sample_waiting of
     Inl _ \<Rightarrow> False
   | Inr (s', ok) \<Rightarrow> ok \<and> waiting_ids s' ''t'' = []"
proof -
  show ?thesis
    using extension_commit_correct [OF sample_waiting_facts(1-4)] sample_waiting_completes
    by (auto simp: extension_committed_def sample_waiting_facts(6) split: sum.splits)
qed

text \<open>
  C3. Extension work always finishes: a commit with side files for all files of the table's work
  item is accepted, leaves no waiting checkpoint and no file to do, and moves the search extension
  to a fully covered checkpoint that is at least every one that was waiting.
\<close>

theorem extension_work_completes:
  assumes inv: "commits_inv gen s" and es: "ec_extension commit = ''es''"
    and order: "iter_order order (ec_files commit)" and real: "real_table_name s t = t"
    and waiting: "waiting_ids s t \<noteq> []" and all: "pending_es s t \<subseteq> fmdom' (ec_files commit)"
  shows "\<exists>s' cid c. extension_commit_op order t commit s = Inr (s', True) \<and>
    waiting_ids s' t = [] \<and> pending_es s' t = {} \<and>
    get_latest_materialized_checkpoint_sync s' t (Some ''es'') = Some cid \<and>
    get_checkpoint_sync s' t cid = Some c \<and> fully_covered_for_extension ''es'' c = Inr True \<and>
    (\<forall>x \<in> set (waiting_ids s t). x \<le> cid)"
proof -
  from inv have wc: "waiting_complete s" by (simp add: commits_inv_def)
  have completes: "completes commit s t x" if x: "x \<in> set (waiting_ids s t)" for x
  proof -
    obtain c where "get_checkpoint_sync s t x = Some c" "es_uncovered c \<subseteq> pending_es s t"
      using wc x by (rule waiting_present)
    with all show ?thesis by (auto simp: completes_def)
  qed
  with waiting have "\<exists>x \<in> set (waiting_ids s t). completes commit s t x"
    by (meson last_in_set)
  from extension_commit_accepted [OF inv es order real this] obtain s' where
    s': "extension_commit_op order t commit s = Inr (s', True)" "extension_committed commit t s s'" by blast
  with completes all show ?thesis
    unfolding extension_committed_def by (fastforce simp: fully_covered_iff filter_empty_conv)
qed

lemma extension_work_completes_witness:
  "\<exists>s' cid c. extension_commit_op [''a'', ''b''] ''t'' sample_side_files sample_waiting = Inr (s', True) \<and>
     waiting_ids s' ''t'' = [] \<and> pending_es s' ''t'' = {} \<and> get_checkpoint_sync s' ''t'' cid = Some c \<and>
     fully_covered_for_extension ''es'' c = Inr True \<and> ''c1'' \<le> cid"
  using extension_work_completes [OF sample_waiting_facts(1-4) _ sample_waiting_facts(5)]
  by (auto simp: sample_waiting_facts(6))

text \<open>
  C26. An extension commit that is delivered twice brings the service down: once a commit has
  finished all the work of a table, the same commit again fails the assertion that a checkpoint is
  waiting. Work items are leased for a minute and handed out again when the lease runs out, so
  two workers may well deliver the same commit.
\<close>

theorem extension_commit_replay_panics:
  assumes "commits_inv gen s" "ec_extension commit = ''es''" "iter_order order (ec_files commit)"
    and "real_table_name s t = t" "pending_es s t \<subseteq> fmdom' (ec_files commit)"
    and "extension_commit_op order t commit s = Inr (s', ok)"
  shows "extension_commit_op order t commit s' =
    Inl (Panic ''assertion failed: waiting_checkpoint_ids.len() > 0'')"
proof -
  from assms(1) have wc: "waiting_complete s" by (simp add: commits_inv_def)
  have "completes commit s t x" if x: "x \<in> set (waiting_ids s t)" for x
  proof -
    obtain c where "get_checkpoint_sync s t x = Some c" "es_uncovered c \<subseteq> pending_es s t"
      using wc x by (rule waiting_present)
    with assms(5) show ?thesis by (auto simp: completes_def)
  qed
  moreover have "\<exists>x \<in> set (waiting_ids s t). completes commit s t x"
    using extension_commit_refused [OF assms(1,2), of t order] assms(6) by auto
  then have "extension_committed commit t s s'"
    using extension_commit_accepted [OF assms(1-4)] assms(6) by (metis old.sum.inject(2) prod.inject)
  ultimately have "waiting_ids s' t = []" by (simp add: extension_committed_def filter_empty_conv)
  then have "(case checkpoints_needing_extension_work_for s' t ''es'' of None \<Rightarrow> [] | Some ids \<Rightarrow> ids) = []"
    by (simp add: checkpoints_needing_extension_work_for_def hm_get_or_def)
  then show ?thesis by (simp add: extension_commit_op_def assms(2))
qed

lemma extension_commit_replay_panics_witness:
  "\<exists>s' ok. extension_commit_op [''a'', ''b''] ''t'' sample_side_files sample_waiting = Inr (s', ok) \<and>
     extension_commit_op [''a'', ''b''] ''t'' sample_side_files s' =
       Inl (Panic ''assertion failed: waiting_checkpoint_ids.len() > 0'')"
proof -
  have "\<exists>x \<in> set (waiting_ids sample_waiting ''t''). completes sample_side_files sample_waiting ''t'' x"
    using sample_waiting_completes by (simp add: sample_waiting_facts(6))
  then obtain s' where run: "extension_commit_op [''a'', ''b''] ''t'' sample_side_files sample_waiting = Inr (s', True)"
    by (rule extension_commit_accepted [OF sample_waiting_facts(1-4)])
  from extension_commit_replay_panics [OF sample_waiting_facts(1-5) run] run show ?thesis by blast
qed

subsection \<open>Writing through an alias\<close>

lemma fill_extension_work_item_frame:
  assumes "fill_extension_work_item gen t ext cid schema sb ice s = Inr s'"
  shows "checkpoints s' = checkpoints s" "table_aliases s' = table_aliases s"
    "latest_committed_checkpoint_id s' = latest_committed_checkpoint_id s"
  using assms
  by (auto simp: fill_extension_work_item_def res_Inr note_extension_work_def Let_def draw_id_def
      split: if_splits option.splits)

lemma maybe_create_frame:
  assumes "maybe_create_compaction_work_item gen c s = Inr s'"
  shows "checkpoints s' = checkpoints s" "table_aliases s' = table_aliases s"
    "latest_committed_checkpoint_id s' = latest_committed_checkpoint_id s"
  using assms
  by (auto simp: maybe_create_compaction_work_item_def res_Inr Let_def draw_id_def split: if_splits option.splits)

lemma speedboat_commit_type_commit_frame:
  assumes "speedboat_commit_type_commit gen hash ti None s = Inr s'"
  obtains c where "checkpoints s' = fmupd (checkpoint_key (ti_table_name ti) (gen (id_seq s))) c (checkpoints s)"
    "table_aliases s' = table_aliases s"
    "latest_committed_checkpoint_id s' =
      latest_committed_checkpoint_id (set_latest_committed_checkpoint (ti_table_name ti) None (gen (id_seq s)) s)"
proof -
  let ?t = "ti_table_name ti" let ?id = "gen (id_seq s)"
  from assms obtain c1 c2 sb ice schema s1 where run:
    "fill_extension_work_item gen ?t ''es'' ?id schema sb ice (insert_checkpoint ?t ?id c2 (draw_id s)) = Inr s1"
    "maybe_create_compaction_work_item gen c2 (set_latest_committed_checkpoint ?t None ?id s1) = Inr s'"
    by (auto simp: speedboat_commit_type_commit_def res_Inr Let_def)
  note fill = fill_extension_work_item_frame [OF run(1)] and create = maybe_create_frame [OF run(2)]
  show thesis
    by (rule that)
      (use fill create in \<open>simp_all add: set_latest_committed_checkpoint_def insert_checkpoint_def draw_id_def
        real_table_name_def\<close>)
qed

lemma speedboat_commit_type_commit_total:
  assumes inv: "commits_inv gen s" and info: "wf_info ti" "ti_schema ti = Some schema"
    and old: "latest_checkpoint s (ti_table_name ti) (Inr schema) = Inr old"
    and merged: "merge_from (tm_schema old) schema = Inr merged"
  shows "\<exists>s'. speedboat_commit_type_commit gen hash ti None s = Inr s'"
proof -
  let ?t = "ti_table_name ti" let ?id = "gen (id_seq s)"
  note wf_old = latest_checkpoint_wf [OF inv old]
  obtain fs where fs: "new_speedboat_files hash ti old = Inr fs" "wf_files fs"
    using info wf_old by (rule new_speedboat_files_wf)
  define c1 where "c1 = \<lparr>tm_table_name = ?t, tm_original_checkpoint_id = None, tm_checkpoint_id = ?id,
    iceberg_metadata = iceberg_metadata old, speedboat_metadata = Some \<lparr>sm_files = fs\<rparr>,
    deletes_metadata = deletes_metadata old, extension_metadata = extension_metadata old, tm_schema = merged\<rparr>"
  have "wf_checkpoint c1" using wf_old fs(2) by (simp add: c1_def wf_checkpoint_def)
  then obtain c2 sb ice where c2: "try_fill_checkpoint_extension_metadata (draw_id s) ''es'' c1 = Inr (c2, sb, ice)"
    "wf_files sb" "wf_files ice" by (rule try_fill_es)
  have "es_registry_wf (extension_work_items (insert_checkpoint ?t ?id c2 (draw_id s)))"
    using inv by (simp add: commits_inv_def insert_checkpoint_def draw_id_def)
  from this c2(2,3) obtain s1 where
    "fill_extension_work_item gen ?t ''es'' ?id merged sb ice (insert_checkpoint ?t ?id c2 (draw_id s)) = Inr s1"
    by (rule fill_extension_work_item_wf)
  moreover obtain s' where
    "maybe_create_compaction_work_item gen c2 (set_latest_committed_checkpoint ?t None ?id s1) = Inr s'"
    by (rule maybe_create_compaction_work_item_total)
  ultimately show ?thesis
    using info(2) old fs(1) merged c2(1)
    by (simp add: speedboat_commit_type_commit_def handle_compaction_def Let_def c1_def)
qed



end
