(* ===== verification/Service_Run.thy ===== *)
theory Service_Run
  imports Commit_Properties
begin

section \<open>Runs of the metadata service\<close>

text \<open>
  All operations of the service that change its state, in any order: the step relation
  \<open>service_step\<close> has one rule per operation, \<open>service_run\<close> composes steps, and the invariants of
  the commit path and of the publication protocol hold in every state a run from a fresh service
  reaches. The guards of the rules are what callers have to respect: tables are written under
  their own name, the files of a commit are well formed, and side files are for the search
  extension. \<^verbatim>\<open>add_checkpoint\<close>, a testing aid that stores a checkpoint with an id of the
  caller's choice, is not a step.
\<close>

subsection \<open>Steps\<close>

text \<open>The first argument bounds how many cutover epochs a step draws for one table.\<close>

inductive service_step ::
    "(nat \<Rightarrow> string) \<Rightarrow> (string \<Rightarrow> u64) \<Rightarrow> nat \<Rightarrow> service \<Rightarrow> service \<Rightarrow> bool"
  for gen hash where
  speedboat: "speedboat_commit_op gen hash c s = Inr (s', b) \<Longrightarrow>
    \<forall>ti \<in> set (sc_type_files c). wf_info ti \<and> real_table_name s (ti_table_name ti) = ti_table_name ti \<Longrightarrow>
    service_step gen hash 0 s s'"
| iceberg: "iceberg_commit_op gen t c s = Inr (s', b) \<Longrightarrow> wf_files (im_files (ic_metadata c)) \<Longrightarrow>
    real_table_name s t = t \<Longrightarrow> service_step gen hash 0 s s'"
| extension: "extension_commit_op order t c s = Inr (s', b) \<Longrightarrow> ec_extension c = ''es'' \<Longrightarrow>
    iter_order order (ec_files c) \<Longrightarrow> real_table_name s t = t \<Longrightarrow> service_step gen hash 0 s s'"
| compaction: "compaction_commit_op t c s = Inr (s', b) \<Longrightarrow> service_step gen hash 0 s s'"
| cleanup: "cleanup_commit_op c s = Inr (s', b) \<Longrightarrow> service_step gen hash 0 s s'"
| table: "create_table ct s = Inr (s', b) \<Longrightarrow> service_step gen hash 0 s s'"
| upsert: "upsert_table_metadata ct s = Inr (s', b) \<Longrightarrow> service_step gen hash 0 s s'"
| new_alias: "add_alias t a s = Inr (s', b) \<Longrightarrow> service_step gen hash 0 s s'"
| drop_alias: "remove_alias t a s = Inr (s', b) \<Longrightarrow> service_step gen hash 0 s s'"
| table_template: "create_table_template n ct s = Inr (s', b) \<Longrightarrow> service_step gen hash 0 s s'"
| pipeline: "create_pipeline n p s = Inr (s', b) \<Longrightarrow> service_step gen hash 0 s s'"
| policy: "create_lifetime_policy n pol s = Inr (s', b) \<Longrightarrow> service_step gen hash 0 s s'"
| claim_extension: "claim_extension_work_items now order e s = Inr (s', ew) \<Longrightarrow>
    iter_order order (es_items s) \<Longrightarrow> service_step gen hash 0 s s'"
| claim_compaction: "claim_compaction_work_items now order s = Inr (s', cw) \<Longrightarrow> service_step gen hash 0 s s'"
| claim_cleanup: "claim_cleanup_work_items now s = Inr (s', lw) \<Longrightarrow> service_step gen hash 0 s s'"
| queue: "queue_checkpoint_publication r s = Inr (s', u) \<Longrightarrow> service_step gen hash 0 s s'"
| heartbeat: "heartbeat_serving_node now l s = Inr (s', u) \<Longrightarrow> service_step gen hash 0 s s'"
| activation: "record_serving_node_activation a s = Inr (s', u) \<Longrightarrow> service_step gen hash 0 s s'"
| readiness: "record_artifact_readiness ack s = Inr (s', u) \<Longrightarrow> service_step gen hash 0 s s'"
| plan: "plan_checkpoint_cutover now r' s = Inr (s', u) \<Longrightarrow> service_step gen hash 1 s s'"
| cutover_state: "get_checkpoint_cutover_state now t e s = Inr (s', st) \<Longrightarrow> service_step gen hash 2 s s'"
| publish: "advance_published_checkpoints now order s = Inr (s', b) \<Longrightarrow>
    service_step gen hash (4 * length order) s s'"

inductive service_run ::
    "(nat \<Rightarrow> string) \<Rightarrow> (string \<Rightarrow> u64) \<Rightarrow> nat \<Rightarrow> service \<Rightarrow> service \<Rightarrow> bool"
  for gen hash where
  stop: "service_run gen hash 0 s s"
| next_step: "service_run gen hash n s s1 \<Longrightarrow> service_step gen hash w s1 s2 \<Longrightarrow>
    service_run gen hash (n + w) s s2"

subsection \<open>What commits leave alone\<close>

text \<open>
  The commit path and the catalog do not touch the publication protocol, and never withdraw a
  publication request or a waiting list.
\<close>

definition publication_kept :: "service \<Rightarrow> service \<Rightarrow> bool" where
  "publication_kept s s' \<longleftrightarrow>
     published_checkpoint_id s' = published_checkpoint_id s \<and>
     checkpoint_cutover_epochs s' = checkpoint_cutover_epochs s \<and>
     cutover_membership_views s' = cutover_membership_views s \<and>
     serving_node_leases s' = serving_node_leases s \<and>
     serving_node_activations s' = serving_node_activations s \<and>
     artifact_readiness_acks s' = artifact_readiness_acks s \<and>
     fmdom' (checkpoints_needing_extension_work s) \<subseteq> fmdom' (checkpoints_needing_extension_work s') \<and>
     fmdom' (checkpoint_publication_requests s) \<subseteq> fmdom' (checkpoint_publication_requests s') \<and>
     mode s' = mode s \<and>
     (\<forall>e \<in> fmdom' (latest_committed_checkpoint_id s').
        e \<in> fmdom' (latest_committed_checkpoint_id s) \<or> e = None \<or> e = Some ''es'')"

lemma publication_kept_refl [simp]: "publication_kept s s"
  by (simp add: publication_kept_def)

lemma publication_kept_trans: "publication_kept a b \<Longrightarrow> publication_kept b c \<Longrightarrow> publication_kept a c"
  by (auto simp: publication_kept_def)

lemma kept_primitives [simp]:
  "publication_kept s (draw_id s)" "publication_kept s (insert_checkpoint t i c s)"
  "publication_kept s (set_latest_committed_checkpoint t None i s)"
  "publication_kept s (queue_publication_request org t s)"
  "publication_kept s (note_extension_work t ext i s)"
  "publication_kept s (add_recent_extension_files order t ec s)"
  "publication_kept s (set_latest_committed_checkpoint t (Some ''es'') i s)"
  by (auto simp: publication_kept_def draw_id_def insert_checkpoint_def set_latest_committed_checkpoint_def
      queue_publication_request_def note_extension_work_def Let_def add_recent_extension_files_def)

lemma kept_fill:
  "fill_extension_work_item gen t ext cid schema sb ice s = Inr s' \<Longrightarrow> publication_kept s s'"
  by (auto simp: fill_extension_work_item_def res_Inr note_extension_work_def Let_def draw_id_def
      publication_kept_def split: if_splits option.splits)

lemma kept_maybe_create:
  "maybe_create_compaction_work_item gen c s = Inr s' \<Longrightarrow> publication_kept s s'"
  by (auto simp: maybe_create_compaction_work_item_def res_Inr Let_def draw_id_def publication_kept_def
      split: if_splits option.splits)

lemma kept_commit:
  assumes "speedboat_commit_type_commit gen hash ti k s = Inr s'"
  shows "publication_kept s s'"
proof -
  let ?t = "ti_table_name ti" let ?id = "gen (id_seq s)"
  from assms obtain c2 sb ice schema s1 where run:
    "fill_extension_work_item gen ?t ''es'' ?id schema sb ice (insert_checkpoint ?t ?id c2 (draw_id s)) = Inr s1"
    "maybe_create_compaction_work_item gen c2 (set_latest_committed_checkpoint ?t None ?id s1) = Inr s'"
    by (auto simp: speedboat_commit_type_commit_def res_Inr Let_def)
  note trans = publication_kept_trans
  show ?thesis
    by (rule trans [OF kept_primitives(1) trans [OF kept_primitives(2) trans [OF kept_fill [OF run(1)]
          trans [OF kept_primitives(3) kept_maybe_create [OF run(2)]]]]])
qed

lemma kept_delete:
  assumes "speedboat_commit_type_delete gen ti k s = Inr s'"
  shows "publication_kept s s'"
proof -
  from assms obtain c where
    "s' = set_latest_committed_checkpoint (ti_table_name ti) None (gen (id_seq s))
       (insert_checkpoint (ti_table_name ti) (gen (id_seq s)) c (draw_id s))"
    by (auto simp: speedboat_commit_type_delete_def res_Inr Let_def)
  then show ?thesis
    using publication_kept_trans [OF kept_primitives(1) publication_kept_trans [OF kept_primitives(2,3)]] by simp
qed

lemma kept_queue_all: "publication_kept s (fold (queue_publication_request org) ts s)"
proof (induction ts arbitrary: s)
  case (Cons t ts)
  from publication_kept_trans [OF kept_primitives(4) Cons.IH] show ?case by simp
qed simp

lemma kept_speedboat:
  assumes "speedboat_commit_op gen hash c s = Inr (s', b)"
  shows "publication_kept s s'"
proof -
  from assms obtain s1 touched where run:
    "foldm (speedboat_commit_info gen hash (sc_compaction c)) (s, []) (sc_type_files c) = Inr (s1, touched)"
    "s' = fold (queue_publication_request default_metadata_namespace) touched s1"
    by (auto simp: speedboat_commit_op_def res_Inr)
  have "publication_kept s (fst (s1, touched))"
  proof (rule foldm_invariant [OF run(1)])
    fix acc ti acc' assume "publication_kept s (fst acc)"
      "speedboat_commit_info gen hash (sc_compaction c) acc ti = Inr acc'"
    then show "publication_kept s (fst acc')"
      by (cases acc) (auto simp: speedboat_commit_info_def res_Inr split: if_splits
          dest!: kept_commit kept_delete intro: publication_kept_trans)
  qed simp
  then show ?thesis using run(2) kept_queue_all publication_kept_trans by auto
qed

lemma kept_enqueue:
  "foldm (enqueue_cleanup gen) s ks = Inr s' \<Longrightarrow> same_but_queues s s' \<and> publication_kept s s'"
proof (erule foldm_invariant)
  fix s0 k s1 assume inv: "same_but_queues s s0 \<and> publication_kept s s0" and step: "enqueue_cleanup gen s0 k = Inr s1"
  from step obtain m w where "s1 = (draw_id s0)\<lparr>compaction_work_items := m, cleanup_work_items := cleanup_work_items s0 @ [w]\<rparr>"
    by (auto simp: enqueue_cleanup_def replace_and_delete_checkpoints_def res_Inr draw_id_def split: option.splits)
  then have "same_but_queues s0 s1 \<and> publication_kept s0 s1"
    by (cases s0) (simp add: same_but_queues_def publication_kept_def draw_id_def)
  with inv show "same_but_queues s s1 \<and> publication_kept s s1"
    using same_but_queues_trans publication_kept_trans by blast
qed simp

lemma kept_iceberg:
  assumes "iceberg_commit_op gen t c s = Inr (s', b)"
  shows "publication_kept s s'"
proof -
  from assms obtain c2 schema sb ice s2 s3 where run:
    "fill_extension_work_item gen t ''es'' (gen (id_seq s)) schema sb ice
       (set_latest_committed_checkpoint t None (gen (id_seq s)) (insert_checkpoint t (gen (id_seq s)) c2 (draw_id s))) = Inr s2"
    "foldm (enqueue_cleanup gen) s2 (ic_compactions c) = Inr s3"
    "s' = queue_publication_request default_metadata_namespace t s3"
    by (auto simp: iceberg_commit_op_def res_Inr Let_def)
  note trans = publication_kept_trans
  have "publication_kept s s2"
    by (rule trans [OF kept_primitives(1) trans [OF kept_primitives(2) trans [OF kept_primitives(3) kept_fill [OF run(1)]]]])
  then show ?thesis
    unfolding run(3) using kept_enqueue [OF run(2)] trans kept_primitives(4) by blast
qed

lemma kept_add_coverage_for:
  "add_coverage_for t cid c s = Inr (s', r) \<Longrightarrow> publication_kept s s'"
  by (auto simp: add_coverage_for_def res_Inr Let_def publication_kept_def split: if_splits option.splits)

lemma kept_apply_extension:
  "apply_extension_commit_to_work_item order t c s = Inr s' \<Longrightarrow> publication_kept s s'"
  by (auto simp: apply_extension_commit_to_work_item_def res_Inr Let_def publication_kept_def split: option.splits)

lemma kept_advance_es: "publication_kept s (advance_es t m s)"
  by (simp add: advance_es_def split: option.split)

lemma kept_extension:
  assumes "extension_commit_op order t c s = Inr (s', b)"
  shows "publication_kept s s'"
proof -
  from assms obtain ids s1 removed s3 m where run:
    "foldm (cover_waiting t c) (s, []) ids = Inr (s1, removed)"
    "apply_extension_commit_to_work_item order t c (add_recent_extension_files order t c s1) = Inr s3"
    "s' = queue_publication_request default_metadata_namespace t (advance_es t m s3)"
    by (auto simp: extension_commit_op_def res_Inr Let_def)
  have "publication_kept s (fst (s1, removed))"
  proof (rule foldm_invariant [OF run(1)])
    fix acc cid acc' assume "publication_kept s (fst acc)" "cover_waiting t c acc cid = Inr acc'"
    then show "publication_kept s (fst acc')"
      by (auto simp: cover_waiting_def res_Inr dest!: kept_add_coverage_for intro: publication_kept_trans)
  qed simp
  then show ?thesis
    unfolding run(3) fst_conv
    by (rule publication_kept_trans [OF _ publication_kept_trans [OF kept_primitives(6)
          publication_kept_trans [OF kept_apply_extension [OF run(2)]
            publication_kept_trans [OF kept_advance_es kept_primitives(4)]]]])
qed

subsection \<open>Commits keep the invariant\<close>

text \<open>Stored checkpoints stay, and only gain coverage.\<close>

definition checkpoints_grow :: "service \<Rightarrow> service \<Rightarrow> bool" where
  "checkpoints_grow s s' \<longleftrightarrow>
     (\<forall>k c. fmlookup (checkpoints s) k = Some c \<longrightarrow>
        (\<exists>c'. fmlookup (checkpoints s') k = Some c' \<and> better_covered c c'))"

lemma checkpoints_grow_same: "checkpoints s' = checkpoints s \<Longrightarrow> checkpoints_grow s s'"
  by (simp add: checkpoints_grow_def)

lemma checkpoints_grow_trans:
  assumes "checkpoints_grow a b" "checkpoints_grow b c"
  shows "checkpoints_grow a c"
  unfolding checkpoints_grow_def
proof (intro allI impI)
  fix k x assume "fmlookup (checkpoints a) k = Some x"
  with assms(1) obtain y where y: "fmlookup (checkpoints b) k = Some y" "better_covered x y"
    unfolding checkpoints_grow_def by blast
  with assms(2) obtain z where "fmlookup (checkpoints c) k = Some z" "better_covered y z"
    unfolding checkpoints_grow_def by blast
  with y(2) show "\<exists>z. fmlookup (checkpoints c) k = Some z \<and> better_covered x z"
    using better_covered_trans by blast
qed

lemma commits_checkpoint_grow:
  assumes "commits_inv gen s" "commits_checkpoint gen t c s s'"
  shows "checkpoints_grow s s'"
  using assms by (auto simp: commits_inv_def fresh_ids_def commits_checkpoint_def checkpoints_grow_def)

definition keeps_commits :: "(nat \<Rightarrow> string) \<Rightarrow> service \<Rightarrow> service \<Rightarrow> bool" where
  "keeps_commits gen s s' \<longleftrightarrow> commits_inv gen s' \<and> checkpoints_grow s s' \<and> table_aliases s' = table_aliases s"

lemma keeps_commits_trans: "keeps_commits gen a b \<Longrightarrow> keeps_commits gen b c \<Longrightarrow> keeps_commits gen a c"
  using checkpoints_grow_trans by (auto simp: keeps_commits_def)

lemma keeps_commits_queues:
  assumes "same_but_queues s s'" "commits_inv gen s"
  shows "keeps_commits gen s s'"
  using commits_inv_queues [OF assms] same_but_queues_fields [OF assms(1)]
  by (simp add: keeps_commits_def checkpoints_grow_same)

lemma keeps_commits_new:
  assumes "commits_inv gen s" "commits_inv gen s'" "commits_checkpoint gen t c s s'"
  shows "keeps_commits gen s s'"
  using assms commits_checkpoint_grow [OF assms(1,3)] by (simp add: keeps_commits_def commits_checkpoint_def)

lemma commit_keeps:
  assumes run: "speedboat_commit_type_commit gen hash ti None s = Inr s'"
    and inv: "commits_inv gen s" and gen: "id_source gen"
    and ti: "wf_info ti" "real_table_name s (ti_table_name ti) = ti_table_name ti"
  shows "keeps_commits gen s s'"
proof -
  from run obtain old fs where old: "latest_checkpoint s (ti_table_name ti) (unwrap_schema ti) = Inr old"
    "new_speedboat_files hash ti old = Inr fs"
    by (auto simp: speedboat_commit_type_commit_def res_Inr Let_def)
  from old(2) obtain schema where schema: "ti_schema ti = Some schema"
    by (auto simp: new_speedboat_files_def as_file_set_payload_def res_Inr Let_def split: option.splits)
  from run old schema obtain merged where merged: "merge_from (tm_schema old) schema = Inr merged"
    by (auto simp: speedboat_commit_type_commit_def res_Inr Let_def)
  have "latest_checkpoint s (ti_table_name ti) (Inr schema) = Inr old" using old(1) schema by simp
  from speedboat_commit_type_commit_correct [OF inv gen ti(2,1) schema this merged, of hash]
  show ?thesis using run keeps_commits_new [OF inv] by (metis sum.inject(2))
qed

lemma delete_keeps:
  assumes run: "speedboat_commit_type_delete gen ti None s = Inr s'"
    and inv: "commits_inv gen s" and gen: "id_source gen"
    and ti: "real_table_name s (ti_table_name ti) = ti_table_name ti"
  shows "keeps_commits gen s s'"
proof -
  from run obtain old where old: "latest_checkpoint s (ti_table_name ti) (Inr schema_minimal) = Inr old"
    by (auto simp: speedboat_commit_type_delete_def res_Inr Let_def)
  from speedboat_commit_type_delete_correct [OF inv gen ti old]
  show ?thesis using run keeps_commits_new [OF inv] by (metis sum.inject(2))
qed

lemma speedboat_keeps:
  assumes run: "speedboat_commit_op gen hash c s = Inr (s', b)"
    and inv: "commits_inv gen s" and gen: "id_source gen"
    and tis: "\<forall>ti \<in> set (sc_type_files c). wf_info ti \<and> real_table_name s (ti_table_name ti) = ti_table_name ti"
  shows "keeps_commits gen s s'"
proof -
  from run obtain s1 touched where run:
    "sc_compaction c = None"
    "foldm (speedboat_commit_info gen hash None) (s, []) (sc_type_files c) = Inr (s1, touched)"
    "s' = fold (queue_publication_request default_metadata_namespace) touched s1"
    by (auto simp: speedboat_commit_op_def res_Inr)
  have s1: "keeps_commits gen s (fst (s1, touched))"
  proof (rule foldm_invariant [OF run(2)])
    show "keeps_commits gen s (fst (s, []))" using inv by (simp add: keeps_commits_def checkpoints_grow_same)
    fix acc ti acc' assume ti: "ti \<in> set (sc_type_files c)" and keep: "keeps_commits gen s (fst acc)"
      and step: "speedboat_commit_info gen hash None acc ti = Inr acc'"
    from keep have now: "commits_inv gen (fst acc)" "real_table_name (fst acc) = real_table_name s"
      by (simp_all add: keeps_commits_def real_table_name_def fun_eq_iff)
    from step have "speedboat_commit_type_commit gen hash ti None (fst acc) = Inr (fst acc') \<or>
        speedboat_commit_type_delete gen ti None (fst acc) = Inr (fst acc')"
      by (cases acc) (auto simp: speedboat_commit_info_def res_Inr split: if_splits)
    then have "keeps_commits gen (fst acc) (fst acc')"
      using commit_keeps [OF _ now(1) gen] delete_keeps [OF _ now(1) gen] tis ti now(2) by auto
    with keep show "keeps_commits gen s (fst acc')" by (rule keeps_commits_trans)
  qed
  have "same_but_queues s1 s'"
    unfolding run(3)
  proof (induction touched arbitrary: s1)
    case (Cons t ts)
    from same_but_queues_trans [OF queue_publication_request_queues Cons.IH] show ?case by simp
  qed simp
  with s1 keeps_commits_queues keeps_commits_trans show ?thesis
    unfolding fst_conv keeps_commits_def by blast
qed

lemma iceberg_keeps:
  assumes run: "iceberg_commit_op gen t c s = Inr (s', b)"
    and inv: "commits_inv gen s" and gen: "id_source gen"
    and wf: "wf_files (im_files (ic_metadata c))" and real: "real_table_name s t = t"
  shows "keeps_commits gen s s'"
proof -
  let ?id = "gen (id_seq s)"
  define c0 where "c0 old merged = \<lparr>tm_table_name = t, tm_original_checkpoint_id = None, tm_checkpoint_id = ?id,
    iceberg_metadata = Some (ic_metadata c), speedboat_metadata = speedboat_metadata old,
    deletes_metadata = deletes_metadata old, extension_metadata = extension_metadata old, tm_schema = merged\<rparr>"
    for old :: table_metadata_checkpoint and merged
  from run obtain old merged c1 c2 sb ice s2 s3 where steps:
    "latest_checkpoint s t (Inr (im_table_schema (ic_metadata c))) = Inr old"
    "handle_compactions (draw_id s) (ic_compactions c) (c0 old merged) = Inr c1"
    "try_fill_checkpoint_extension_metadata (draw_id s) ''es'' c1 = Inr (c2, sb, ice)"
    "fill_extension_work_item gen t ''es'' ?id merged sb ice
       (set_latest_committed_checkpoint t None ?id (insert_checkpoint t ?id c2 (draw_id s))) = Inr s2"
    "foldm (enqueue_cleanup gen) s2 (ic_compactions c) = Inr s3"
    "s' = queue_publication_request default_metadata_namespace t s3"
    by (auto simp: iceberg_commit_op_def res_Inr Let_def c0_def)
  have wf0: "wf_checkpoint (c0 old merged)"
    using latest_checkpoint_wf [OF inv steps(1)] wf by (simp add: c0_def wf_checkpoint_def)
  from steps(2) have ac: "apply_compactions (ic_compactions c) (fmmap snd (compactions (draw_id s))) (c0 old merged) = Inr c1"
    using handle_compactions_eq [OF wf0] by simp
  from apply_compactions_wf [OF wf0 apply_compactions_known [OF ac]] ac
  have c1: "wf_checkpoint c1" "tm_table_name c1 = t" "tm_checkpoint_id c1 = ?id"
    by (metis c0_def sum.inject(2) table_metadata_checkpoint.select_convs(1,3))+
  from try_fill_es [OF c1(1), of "draw_id s"] steps(3)
  have c2: "c2 = c1\<lparr>extension_metadata := extension_metadata c2\<rparr>" "wf_checkpoint c2" "wf_files sb" "wf_files ice"
    "es_uncovered c2 \<subseteq> set (file_paths sb) \<union> set (file_paths ice)"
    by (metis prod.inject sum.inject(2))+
  have names: "tm_table_name c2 = t" "tm_checkpoint_id c2 = ?id" by (subst c2(1), simp add: c1)+
  from store_checkpoint [OF inv gen c2(2) real names c2(3-5)] obtain s1 where s1:
    "fill_extension_work_item gen t ''es'' ?id merged sb ice (insert_checkpoint t ?id c2 (draw_id s)) = Inr s1"
    "commits_inv gen (set_latest_committed_checkpoint t None ?id s1)"
    "commits_checkpoint gen t c2 s (set_latest_committed_checkpoint t None ?id s1)" by blast
  have s2: "s2 = set_latest_committed_checkpoint t None ?id s1"
    using steps(4) s1(1) by (simp add: fill_extension_work_item_latest)
  have "same_but_queues s2 s'"
    unfolding steps(6) using kept_enqueue [OF steps(5)] queue_publication_request_queues same_but_queues_trans by blast
  with s1 s2 keeps_commits_new [OF inv] keeps_commits_queues keeps_commits_trans show ?thesis by blast
qed

lemma extension_keeps:
  assumes run: "extension_commit_op order t c s = Inr (s', b)" and inv: "commits_inv gen s"
    and es: "ec_extension c = ''es''" "iter_order order (ec_files c)" "real_table_name s t = t"
  shows "keeps_commits gen s s'"
proof -
  have some: "\<exists>x \<in> set (waiting_ids s t). completes c s t x"
    using extension_commit_refused [OF inv es(1), of t order] run by auto
  obtain s'' where s'': "extension_commit_op order t c s = Inr (s'', True)" "commits_inv gen s''"
    "extension_committed c t s s''" "table_aliases s'' = table_aliases s"
    using inv es some by (rule extension_commit_accepted)
  have "checkpoints_grow s s''"
    unfolding checkpoints_grow_def
  proof (intro allI impI)
    fix k x assume "fmlookup (checkpoints s) k = Some x"
    moreover from s''(3) have "rel_option better_covered (fmlookup (checkpoints s) k) (fmlookup (checkpoints s'') k)"
      by (simp add: extension_committed_def)
    ultimately show "\<exists>c'. fmlookup (checkpoints s'') k = Some c' \<and> better_covered x c'"
      by (auto simp: option_rel_Some1)
  qed
  with s'' run show ?thesis by (simp add: keeps_commits_def)
qed

subsection \<open>Publication keeps the invariant\<close>

definition commit_part :: "service \<Rightarrow> service \<Rightarrow> bool" where
  "commit_part s s' \<longleftrightarrow> checkpoints s' = checkpoints s \<and>
     latest_committed_checkpoint_id s' = latest_committed_checkpoint_id s \<and>
     checkpoints_needing_extension_work s' = checkpoints_needing_extension_work s \<and>
     extension_work_items s' = extension_work_items s \<and> id_seq s' = id_seq s \<and> mode s' = mode s"

lemma commit_part_refl [simp]: "commit_part s s"
  by (simp add: commit_part_def)

lemma commit_part_trans: "commit_part a b \<Longrightarrow> commit_part b c \<Longrightarrow> commit_part a c"
  by (simp add: commit_part_def)

lemma commit_part_rest:
  assumes "rest s' = rest s"
  shows "commit_part s s'"
  using restD [OF assms] by (simp add: commit_part_def)

lemma commits_inv_pending:
  assumes "commits_inv gen s" "checkpoints s' = checkpoints s"
    "latest_committed_checkpoint_id s' = latest_committed_checkpoint_id s"
    "checkpoints_needing_extension_work s' = checkpoints_needing_extension_work s" "id_seq s' = id_seq s"
    "es_registry_wf (extension_work_items s')" "pending_es s' = pending_es s"
  shows "commits_inv gen s'"
proof -
  have "get_checkpoint_sync s' = get_checkpoint_sync s" by (simp add: get_checkpoint_sync_def assms(2) fun_eq_iff)
  with assms show ?thesis
    by (simp add: commits_inv_def latest_present_def waiting_complete_def es_latest_covered_def fresh_ids_def)
qed

lemma commits_inv_part:
  assumes "commits_inv gen s" "commit_part s s'"
  shows "commits_inv gen s'"
proof (rule commits_inv_pending [OF assms(1)])
  show "pending_es s' = pending_es s" using assms(2) by (simp add: commit_part_def pending_es_def es_items_def fun_eq_iff)
qed (use assms in \<open>simp_all add: commit_part_def commits_inv_def\<close>)

text \<open>What is active is stored, and what is active for the search extension is fully covered.\<close>

definition active_stored :: "service \<Rightarrow> bool" where
  "active_stored s \<longleftrightarrow>
     (\<forall>t. \<forall>e \<in> {None, Some ''es''}. \<forall>cid. get_published_checkpoint_sync s Active t e = Some cid \<longrightarrow>
        (\<exists>t' c. get_checkpoint_sync s t' cid = Some c \<and> (e = Some ''es'' \<longrightarrow> es_uncovered c = {})))"

lemma active_storedD:
  assumes "active_stored s" "e \<in> {None, Some ''es''}" "get_published_checkpoint_sync s Active t e = Some cid"
  shows "\<exists>t' c. get_checkpoint_sync s t' cid = Some c \<and> (e = Some ''es'' \<longrightarrow> es_uncovered c = {})"
  using assms unfolding active_stored_def by blast

lemma active_stored_grow:
  assumes "active_stored s" "checkpoints_grow s s'"
    and same: "\<And>t e. e \<in> {None, Some ''es''} \<Longrightarrow>
      get_published_checkpoint_sync s' Active t e = get_published_checkpoint_sync s Active t e"
  shows "active_stored s'"
  unfolding active_stored_def
proof (intro allI ballI impI)
  fix t e cid assume e: "e \<in> {None, Some ''es''}" and pub: "get_published_checkpoint_sync s' Active t e = Some cid"
  then have "get_published_checkpoint_sync s Active t e = Some cid" using same by simp
  from active_storedD [OF assms(1) e this] obtain t' c where c: "get_checkpoint_sync s t' cid = Some c"
    "e = Some ''es'' \<longrightarrow> es_uncovered c = {}" by blast
  from assms(2) c(1) obtain c' where c': "get_checkpoint_sync s' t' cid = Some c'" "better_covered c c'"
    unfolding checkpoints_grow_def get_checkpoint_sync_def by blast
  from c'(2) have "es_uncovered c' \<subseteq> es_uncovered c" by (simp add: better_covered_def)
  with c(2) c'(1) show "\<exists>t' c. get_checkpoint_sync s' t' cid = Some c \<and> (e = Some ''es'' \<longrightarrow> es_uncovered c = {})"
    by blast
qed

lemma active_stored_kept:
  "active_stored s \<Longrightarrow> checkpoints_grow s s' \<Longrightarrow> published_checkpoint_id s' = published_checkpoint_id s \<Longrightarrow> active_stored s'"
  by (erule active_stored_grow) (simp_all add: get_published_checkpoint_sync_def)

lemma proper_known [simp]: "proper_extension None" "proper_extension (Some ''es'')"
  by (simp_all add: proper_extension_def)

lemma selector_role_inj: "selector_storage_key r t e = selector_storage_key r' t' e' \<Longrightarrow> r = r'"
  by (simp add: selector_storage_key_def role_key_append)

lemma active_stored_promoted:
  assumes "active_stored s" "commits_inv gen s" "e \<in> {None, Some ''es''}"
    "get_latest_materialized_checkpoint_sync s t e = Some target" "checkpoints s' = checkpoints s"
    "published_checkpoint_id s' = fmupd (selector_storage_key Active t e) target (published_checkpoint_id s)"
  shows "active_stored s'"
  unfolding active_stored_def
proof (intro allI ballI impI)
  have cps: "get_checkpoint_sync s' = get_checkpoint_sync s" by (simp add: get_checkpoint_sync_def assms(5) fun_eq_iff)
  fix t' e' cid assume e': "e' \<in> {None, Some ''es''}" and pub: "get_published_checkpoint_sync s' Active t' e' = Some cid"
  have key: "selector_storage_key Active t e = selector_storage_key Active t' e' \<longleftrightarrow> t = t' \<and> e = e'"
    using assms(3) e' by (auto simp: selector_storage_key_inj)
  show "\<exists>t'' c. get_checkpoint_sync s' t'' cid = Some c \<and> (e' = Some ''es'' \<longrightarrow> es_uncovered c = {})"
  proof (cases "t = t' \<and> e = e'")
    case True
    with pub assms(6) key have cid: "cid = target" "e' = e" by (simp_all add: get_published_checkpoint_sync_def)
    let ?r = "real_table_name s t"
    from assms(4) have look: "fmlookup (hm_get_or fmempty (latest_committed_checkpoint_id s) e) ?r = Some target"
      by (simp add: latest_lookup)
    show ?thesis
    proof (cases "e = Some ''es''")
      case True
      with look assms(2) have "\<exists>c. get_checkpoint_sync s ?r target = Some c \<and> es_uncovered c = {}"
        by (intro es_latest_coveredD) (simp_all add: commits_inv_def)
      then show ?thesis unfolding cid cps by blast
    next
      case False
      from look assms(2) have "hm_contains (checkpoints s) (checkpoint_key ?r target)"
        by (intro latest_presentD) (simp_all add: commits_inv_def)
      then obtain c where "get_checkpoint_sync s ?r target = Some c" by (auto simp: get_checkpoint_sync_def)
      with False show ?thesis unfolding cid cps by blast
    qed
  next
    case False
    with pub assms(6) key have "get_published_checkpoint_sync s Active t' e' = Some cid"
      by (simp add: get_published_checkpoint_sync_def)
    from active_storedD [OF assms(1) e' this] show ?thesis unfolding cps .
  qed
qed

text \<open>The invariant of a run, and that a publication step keeps it.\<close>

definition service_inv :: "(nat \<Rightarrow> string) \<Rightarrow> service \<Rightarrow> bool" where
  "service_inv gen s \<longleftrightarrow> commits_inv gen s \<and> active_stored s"

text \<open>
  A publication request of a table that has a waiting list, if only an empty one, is pending.
\<close>

definition request_pending :: "string \<Rightarrow> service \<Rightarrow> bool" where
  "request_pending t s \<longleftrightarrow>
     hm_contains (checkpoints_needing_extension_work s) (extension_work_key t ''es'') \<and>
     hm_contains (checkpoint_publication_requests s) (checkpoint_publication_request_key default_metadata_namespace t)"

lemma request_pending_dom:
  "request_pending t s \<longleftrightarrow> extension_work_key t ''es'' \<in> fmdom' (checkpoints_needing_extension_work s) \<and>
     checkpoint_publication_request_key default_metadata_namespace t \<in> fmdom' (checkpoint_publication_requests s)"
  by (simp add: request_pending_def fmlookup_dom'_iff)

lemma request_pending_kept: "publication_kept s s' \<Longrightarrow> request_pending t s \<Longrightarrow> request_pending t s'"
  unfolding request_pending_dom publication_kept_def by blast

definition publishes :: "(nat \<Rightarrow> string) \<Rightarrow> service \<Rightarrow> service \<Rightarrow> bool" where
  "publishes gen s s' \<longleftrightarrow> commit_part s s' \<and> (service_inv gen s \<longrightarrow> service_inv gen s') \<and>
     (\<forall>t. request_pending t s \<longrightarrow> request_pending t s')"

lemma publishes_refl [simp]: "publishes gen s s"
  by (simp add: publishes_def)

lemma publishes_trans: "publishes gen a b \<Longrightarrow> publishes gen b c \<Longrightarrow> publishes gen a c"
  unfolding publishes_def using commit_part_trans by blast

lemma publishes_rest:
  assumes "commit_part s s'" "published_checkpoint_id s' = published_checkpoint_id s"
    "checkpoint_publication_requests s' = checkpoint_publication_requests s"
  shows "publishes gen s s'"
proof -
  have "active_stored s'" if "active_stored s"
    by (rule active_stored_kept [OF that]) (use assms in \<open>simp_all add: commit_part_def checkpoints_grow_same\<close>)
  moreover have "request_pending t s' = request_pending t s" for t
    using assms by (simp add: request_pending_def commit_part_def)
  ultimately show ?thesis
    using assms(1) commits_inv_part [OF _ assms(1)] by (simp add: publishes_def service_inv_def)
qed

lemma publishes_same_rest:
  assumes "rest s' = rest s"
  shows "publishes gen s s'"
  using commit_part_rest [OF assms] restD [OF assms] by (intro publishes_rest)

lemma publishes_promote:
  assumes "e \<in> {None, Some ''es''}"
  shows "publishes gen s (fst (promote_active_checkpoint_if_ready now t e s))"
proof (rule promote_cases [of now t e s])
  fix c
  let ?s1 = "fst (activation_matches_target now t e c s)"
  let ?s' = "set_published_checkpoint Active t e c ?s1"
  assume run: "promote_active_checkpoint_if_ready now t e s = (?s', True)"
    and latest: "get_latest_materialized_checkpoint_sync s t e = Some c"
  have r: "rest ?s1 = rest s" by simp
  have cp: "commit_part s ?s'"
    using restD [OF r] by (simp add: commit_part_def set_published_checkpoint_def)
  have "active_stored ?s'" if "commits_inv gen s" "active_stored s"
    by (rule active_stored_promoted [OF that(2,1) assms latest])
      (use restD [OF r] in \<open>simp_all add: set_published_checkpoint_def\<close>)
  moreover have "request_pending t' ?s' = request_pending t' s" for t'
    using restD [OF r] by (simp add: request_pending_def set_published_checkpoint_def)
  ultimately show ?thesis
    using cp commits_inv_part [OF _ cp] run by (simp add: publishes_def service_inv_def)
qed (simp_all add: publishes_same_rest)

lemma publishes_advance: "publishes gen s (fst (advance_target_checkpoint now t e s))"
proof (cases "get_latest_materialized_checkpoint_sync s t e")
  case (Some c)
  define s1 where "s1 = (if map_option cmv_target_checkpoint_id (get_cutover_membership_view s t e) \<noteq> Some c
      then clear_artifact_readiness t e s else s)"
  have "publishes gen s s1"
    by (intro publishes_rest) (simp_all add: s1_def clear_artifact_readiness_def commit_part_def)
  moreover have "publishes gen s1 (capture_cutover_membership_for_target now t e c s1)"
    by (intro publishes_same_rest) simp
  ultimately have "publishes gen s (capture_cutover_membership_for_target now t e c s1)"
    by (rule publishes_trans)
  moreover have "fst (advance_target_checkpoint now t e s) = capture_cutover_membership_for_target now t e c s1"
    using Some by (simp add: advance_target_checkpoint_def Let_def s1_def)
  ultimately show ?thesis by simp
qed (simp add: advance_target_checkpoint_def)

lemma publishes_publish_request: "publishes gen (fst acc) (fst (publish_request now acc r))"
proof -
  obtain s w where acc: "acc = (s, w)" by fastforce
  define t where "t = cur_table_name r"
  define s1 where "s1 = fst (advance_target_checkpoint now t None s)"
  define s2 where "s2 = fst (promote_active_checkpoint_if_ready now t None s1)"
  define s3 where "s3 = fst (advance_target_checkpoint now t (Some ''es'') s2)"
  define s4 where "s4 = fst (promote_active_checkpoint_if_ready now t (Some ''es'') s3)"
  define s5 where "s5 = fst (publish_request now acc r)"
  have s5: "s5 = (if \<not> checkpoint_publication_still_pending s4 t then
      s4\<lparr>checkpoint_publication_requests :=
           fmdrop (checkpoint_publication_request_key default_metadata_namespace t)
             (checkpoint_publication_requests s4)\<rparr> else s4)"
    by (simp add: s5_def acc publish_request_def Let_def split_beta t_def [symmetric]
        s1_def [symmetric] s2_def [symmetric] s3_def [symmetric] s4_def [symmetric])
  have "publishes gen s s1" "publishes gen s1 s2" "publishes gen s2 s3" "publishes gen s3 s4"
    unfolding s1_def s2_def s3_def s4_def by (simp_all add: publishes_advance publishes_promote)
  then have "publishes gen s s4" by (rule publishes_trans [OF publishes_trans [OF publishes_trans]])
  moreover have "publishes gen s4 s5"
  proof -
    have cp: "commit_part s4 s5" "published_checkpoint_id s5 = published_checkpoint_id s4"
      by (simp_all add: s5 commit_part_def)
    have "active_stored s5" if "active_stored s4"
      by (rule active_stored_kept [OF that]) (use cp in \<open>simp_all add: commit_part_def checkpoints_grow_same\<close>)
    moreover have "request_pending t' s5" if "request_pending t' s4" for t'
    proof (cases "t' = t")
      case True
      with that have "checkpoint_publication_still_pending s4 t"
        by (simp add: checkpoint_publication_still_pending_def request_pending_def)
      with that show ?thesis by (simp add: s5)
    next
      case False
      with that show ?thesis
        by (auto simp: s5 request_pending_def checkpoint_publication_request_key_def)
    qed
    ultimately show ?thesis
      using cp commits_inv_part [OF _ cp(1)] by (simp add: publishes_def service_inv_def)
  qed
  ultimately have "publishes gen s s5" by (rule publishes_trans)
  then show ?thesis by (simp add: acc s5_def)
qed

lemma publishes_update_all: "publishes gen s (fst (update_all_checkpoints now order s))"
proof -
  have "publishes gen (fst acc) (fst (foldl (publish_request now) acc rs))" for rs acc
  proof (induction rs arbitrary: acc)
    case (Cons r rs)
    from publishes_trans [OF publishes_publish_request Cons.IH] show ?case by simp
  qed simp
  from this [of "(s, False)"] show ?thesis by (simp add: update_all_checkpoints_def)
qed

subsection \<open>Every step keeps the invariant\<close>

definition step_keeps :: "(nat \<Rightarrow> string) \<Rightarrow> service \<Rightarrow> service \<Rightarrow> bool" where
  "step_keeps gen s s' \<longleftrightarrow> service_inv gen s' \<and> (\<forall>t. request_pending t s \<longrightarrow> request_pending t s')"

lemma step_keeps_commit:
  assumes "keeps_commits gen s s'" "publication_kept s s'" "service_inv gen s"
  shows "step_keeps gen s s'"
proof -
  have "active_stored s'"
    by (rule active_stored_kept [of s])
      (use assms in \<open>simp_all add: service_inv_def keeps_commits_def publication_kept_def\<close>)
  with assms(1) request_pending_kept [OF assms(2)] show ?thesis
    by (simp add: step_keeps_def service_inv_def keeps_commits_def)
qed

lemma step_keeps_publishes: "publishes gen s s' \<Longrightarrow> service_inv gen s \<Longrightarrow> step_keeps gen s s'"
  by (simp add: step_keeps_def publishes_def)

lemma step_keeps_other:
  assumes "service_inv gen s" "commit_part s s'" "published_checkpoint_id s' = published_checkpoint_id s"
    "checkpoint_publication_requests s' = checkpoint_publication_requests s"
  shows "step_keeps gen s s'"
  using publishes_rest [OF assms(2-4)] assms(1) by (rule step_keeps_publishes)

lemma claim_extension_keeps:
  assumes run: "claim_extension_work_items now order e s = Inr (s', ws)" and inv: "service_inv gen s"
    and order: "iter_order order (es_items s)"
  shows "step_keeps gen s s'"
proof (cases "e = ''es''")
  case True
  from inv have wf: "es_registry_wf (extension_work_items s)" by (simp add: service_inv_def commits_inv_def)
  note items = es_registry_items [OF wf]
  define items' where "items' = fst (claim_loop (es_qualifies now) (es_lease now) order (es_items s))"
  have s': "s' = s\<lparr>extension_work_items := fmupd ''es'' items' (extension_work_items s)\<rparr>"
    using run True items(1)
    by (auto simp: claim_extension_work_items_def obind_def oret_def get_extension_work_items_def res_Inr
        items'_def split_beta Let_def)
  have look: "fmlookup items' t = map_option (\<lambda>w. if es_qualifies now w then es_lease now w else w) (fmlookup (es_items s) t)" for t
    using order claim_loop_lookup [of order "es_qualifies now" "es_lease now" "es_items s" t]
      iter_order_mem [OF order, of t]
    by (cases "fmlookup (es_items s) t") (auto simp: items'_def iter_order_def)
  have es': "es_items s' = items'" by (simp add: es_items_def s')
  have "fmpred (\<lambda>_ w. wf_files (ew_speedboat_files (ewt_work_item w)) \<and> wf_files (ew_iceberg_files (ewt_work_item w))) items'"
  proof (rule fmpredI)
    fix t w assume "fmlookup items' t = Some w"
    then obtain w0 where w0: "fmlookup (es_items s) t = Some w0" "ewt_work_item w = ewt_work_item w0"
      unfolding look by (auto split: if_splits)
    from items(2) [OF w0(1)] w0(2)
    show "wf_files (ew_speedboat_files (ewt_work_item w)) \<and> wf_files (ew_iceberg_files (ewt_work_item w))" by simp
  qed
  with wf have "es_registry_wf (extension_work_items s')" by (simp add: es_registry_wf_def s' fmpred_upd)
  moreover have "pending_es s' = pending_es s"
  proof
    show "pending_es s' t = pending_es s t" for t
      unfolding pending_es_def es' look by (cases "fmlookup (es_items s) t") auto
  qed
  ultimately have "commits_inv gen s'"
    using inv unfolding service_inv_def
    by (elim conjE) (rule commits_inv_pending [of gen s], simp_all add: s')
  then have "keeps_commits gen s s'" by (simp add: keeps_commits_def s' checkpoints_grow_same)
  moreover have "publication_kept s s'" by (simp add: publication_kept_def s')
  ultimately show ?thesis using inv by (rule step_keeps_commit)
next
  case False
  with run have "s' = s"
    by (auto simp: claim_extension_work_items_def obind_def oret_def get_extension_work_items_def res_Inr)
  with inv show ?thesis by (simp add: step_keeps_def)
qed

lemma queue_keeps: "service_inv gen s \<Longrightarrow> step_keeps gen s (queue_publication_request org t s)"
  using keeps_commits_queues [OF queue_publication_request_queues] kept_primitives(4)
  by (intro step_keeps_commit) (simp_all add: service_inv_def)

lemmas other_step_defs = commit_part_def compaction_commit_op_def cleanup_commit_op_def create_table_def
  upsert_table_metadata_def add_alias_def remove_alias_def create_table_template_def create_pipeline_def
  create_lifetime_policy_def claim_compaction_work_items_def claim_cleanup_work_items_def obind_def oret_def
  get_compaction_work_items_def get_cleanup_work_items_def res_Inr split_beta Let_def
  record_serving_node_activation_def record_artifact_readiness_def

lemma service_step_keeps:
  assumes "service_step gen hash w s s'" "id_source gen" "service_inv gen s"
  shows "step_keeps gen s s'"
  using assms(1)
proof cases
  case (speedboat c b)
  then show ?thesis
    using speedboat_keeps [OF speedboat(2) _ assms(2) speedboat(3)] kept_speedboat [OF speedboat(2)] assms(3)
    by (simp add: service_inv_def step_keeps_commit)
next
  case (iceberg t c b)
  then show ?thesis
    using iceberg_keeps [OF iceberg(2) _ assms(2) iceberg(3,4)] kept_iceberg [OF iceberg(2)] assms(3)
    by (simp add: service_inv_def step_keeps_commit)
next
  case (extension order t c b)
  then show ?thesis
    using extension_keeps [OF extension(2) _ extension(3-5)] kept_extension [OF extension(2)] assms(3)
    by (simp add: service_inv_def step_keeps_commit)
next
  case (claim_extension now order e ew)
  then show ?thesis using assms(3) by (intro claim_extension_keeps)
next
  case (queue r u)
  then show ?thesis using queue_keeps [OF assms(3)] by (auto simp: queue_checkpoint_publication_def)
next
  case (heartbeat now l u)
  then have "rest s' = rest s"
    by (auto simp: heartbeat_serving_node_def Let_def rest_def prune_expired_serving_node_leases_def)
  then show ?thesis using publishes_same_rest step_keeps_publishes [OF _ assms(3)] by blast
next
  case (plan now r u)
  let ?t = "sel_table_name (ccr_selector r)" let ?e = "sel_extension (ccr_selector r)"
  let ?s1 = "set_published_checkpoint Target ?t ?e (ccr_target_checkpoint_id r) s"
  have pub: "get_published_checkpoint_sync ?s1 Active t e = get_published_checkpoint_sync s Active t e" for t e
    using selector_role_inj [of Target ?t ?e Active t e] by (auto simp: get_published_checkpoint_sync_def)
  have "active_stored ?s1"
    by (rule active_stored_grow [of s]) (use assms(3) pub in
      \<open>simp_all add: service_inv_def checkpoints_grow_def set_published_checkpoint_def\<close>)
  moreover have "commit_part s ?s1" by (simp add: commit_part_def set_published_checkpoint_def)
  ultimately have "step_keeps gen s ?s1"
    using assms(3) commits_inv_part
    by (auto simp: step_keeps_def service_inv_def request_pending_def set_published_checkpoint_def)
  moreover have "publishes gen ?s1 (capture_cutover_membership_for_target now ?t ?e (ccr_target_checkpoint_id r) ?s1)"
    by (intro publishes_same_rest) simp
  ultimately show ?thesis
    using plan assms(3) by (auto simp: plan_checkpoint_cutover_def Let_def step_keeps_def publishes_def)
next
  case (cutover_state now t e st)
  then have "rest s' = rest s" by (auto simp: get_checkpoint_cutover_state_def Let_def split: option.splits)
  then show ?thesis using publishes_same_rest step_keeps_publishes [OF _ assms(3)] by blast
next
  case (publish now order b)
  then have "s' = fst (update_all_checkpoints now order s)"
    by (metis advance_published_checkpoints_def fst_conv sum.inject(2))
  then show ?thesis using publishes_update_all step_keeps_publishes [OF _ assms(3)] by simp
qed (rule step_keeps_other [OF assms(3)]; auto simp: other_step_defs split: option.splits)+

subsection \<open>Epochs along a run\<close>

definition epochs_grow :: "nat \<Rightarrow> service \<Rightarrow> service \<Rightarrow> bool" where
  "epochs_grow n s s' \<longleftrightarrow>
     (\<forall>k. \<exists>m \<le> n. epoch_of s' k = epoch_of s k + of_nat m \<and> (m = 0 \<longrightarrow> target_of s' k = target_of s k))"

lemma epochs_grow_same:
  assumes "checkpoint_cutover_epochs s' = checkpoint_cutover_epochs s"
    "cutover_membership_views s' = cutover_membership_views s"
  shows "epochs_grow 0 s s'"
  using assms by (simp add: epochs_grow_def epoch_of_def target_of_def)

lemma epochs_grow_steps: "(epoch_step ^^ m) s s' \<Longrightarrow> m \<le> n \<Longrightarrow> epochs_grow n s s'"
  unfolding epochs_grow_def by (meson epoch_steps order.trans)

lemma epochs_grow_trans:
  assumes "epochs_grow m a b" "epochs_grow n b c"
  shows "epochs_grow (m + n) a c"
  unfolding epochs_grow_def
proof
  fix k
  from assms(1) obtain i where i: "i \<le> m" "epoch_of b k = epoch_of a k + of_nat i"
    "i = 0 \<longrightarrow> target_of b k = target_of a k" unfolding epochs_grow_def by blast
  from assms(2) obtain j where j: "j \<le> n" "epoch_of c k = epoch_of b k + of_nat j"
    "j = 0 \<longrightarrow> target_of c k = target_of b k" unfolding epochs_grow_def by blast
  from i j show "\<exists>l \<le> m + n. epoch_of c k = epoch_of a k + of_nat l \<and> (l = 0 \<longrightarrow> target_of c k = target_of a k)"
    by (intro exI [of _ "i + j"]) (simp add: add.assoc)
qed

lemma epochs_grow_kept: "publication_kept s s' \<Longrightarrow> epochs_grow 0 s s'"
  by (intro epochs_grow_same) (simp_all add: publication_kept_def)

lemma service_step_epochs:
  assumes "service_step gen hash w s s'"
  shows "epochs_grow w s s'"
  using assms
proof cases
  case (speedboat c b)
  then show ?thesis using kept_speedboat epochs_grow_kept by blast
next
  case (iceberg t c b)
  then show ?thesis using kept_iceberg epochs_grow_kept by blast
next
  case (extension order t c b)
  then show ?thesis using kept_extension epochs_grow_kept by blast
next
  case (claim_extension now order e ew)
  then show ?thesis
    by (auto intro!: epochs_grow_same simp: claim_extension_work_items_def obind_def oret_def res_Inr
        get_extension_work_items_def split_beta Let_def split: if_splits option.splits)
next
  case (plan now r u)
  then have "(epoch_step ^^ Suc 0) s s'" using epoch_step_plan by (auto intro: relpowp_Suc_I)
  then show ?thesis unfolding plan(1) by (rule epochs_grow_steps) simp
next
  case (cutover_state now t e st)
  then obtain s1 where "epoch_step s s1" "epoch_step s1 s'" using epoch_step_cutover_state by blast
  then have "(epoch_step ^^ Suc (Suc 0)) s s'" by auto
  then show ?thesis unfolding cutover_state(1) by (rule epochs_grow_steps) simp
next
  case (publish now order b)
  then have "s' = fst (update_all_checkpoints now order s)"
    by (metis advance_published_checkpoints_def fst_conv sum.inject(2))
  with epoch_steps_update_all publish(1) epochs_grow_steps show ?thesis by metis
qed (auto intro!: epochs_grow_same simp: other_step_defs heartbeat_serving_node_def queue_checkpoint_publication_def
    queue_publication_request_def prune_expired_serving_node_leases_def split: option.splits)

lemma service_run_epochs: "service_run gen hash n s s' \<Longrightarrow> epochs_grow n s s'"
proof (induction rule: service_run.induct)
  case (next_step n s s1 w s2)
  from epochs_grow_trans [OF next_step.IH service_step_epochs [OF next_step.hyps(2)]] show ?case .
qed (simp add: epochs_grow_same)

subsection \<open>Properties of runs\<close>

lemma service_run_keeps:
  assumes "service_run gen hash n s s'" "id_source gen" "service_inv gen s"
  shows "service_inv gen s' \<and> (\<forall>t. request_pending t s \<longrightarrow> request_pending t s')"
  using assms
proof (induction rule: service_run.induct)
  case (next_step n s s1 w s2)
  then have IH: "service_inv gen s1" "\<forall>t. request_pending t s \<longrightarrow> request_pending t s1" by blast+
  from service_step_keeps [OF next_step.hyps(2) next_step.prems(1) IH(1)] IH(2) show ?case
    unfolding step_keeps_def by blast
qed simp

lemma service_inv_new: "service_inv gen (service_new n md)"
proof -
  have "published_checkpoint_id (service_new n md) = fmempty"
    by (simp add: service_new_def from_snapshot_def snapshot_default_def)
  then show ?thesis
    by (simp add: service_inv_def commits_inv_new active_stored_def get_published_checkpoint_sync_def)
qed

lemmas reachable_inv = service_run_keeps [OF _ _ service_inv_new, THEN conjunct1]

text \<open>A commit of a file that has no side files yet makes the table wait for extension work.\<close>

lemma commit_waits:
  assumes run: "speedboat_commit_type_commit gen hash ti None s = Inr s'"
    and inv: "commits_inv gen s" and ti: "wf_info ti" "p \<in> set (ti_files ti)"
    and new: "recent_file_extension_metadata_for s (ti_table_name ti) ''es'' p = None"
  shows "extension_work_key (ti_table_name ti) ''es'' \<in> fmdom' (checkpoints_needing_extension_work s')"
proof -
  let ?t = "ti_table_name ti" let ?id = "gen (id_seq s)"
  define c1 where "c1 old fs merged = \<lparr>tm_table_name = ?t, tm_original_checkpoint_id = None, tm_checkpoint_id = ?id,
    iceberg_metadata = iceberg_metadata old, speedboat_metadata = Some \<lparr>sm_files = fs\<rparr>,
    deletes_metadata = deletes_metadata old, extension_metadata = extension_metadata old, tm_schema = merged\<rparr>"
    for old :: table_metadata_checkpoint and fs merged
  from run obtain old fs merged c2 sb ice s1 where steps:
    "latest_checkpoint s ?t (unwrap_schema ti) = Inr old" "new_speedboat_files hash ti old = Inr fs"
    "try_fill_checkpoint_extension_metadata (draw_id s) ''es'' (c1 old fs merged) = Inr (c2, sb, ice)"
    "fill_extension_work_item gen ?t ''es'' ?id merged sb ice (insert_checkpoint ?t ?id c2 (draw_id s)) = Inr s1"
    "maybe_create_compaction_work_item gen c2 (set_latest_committed_checkpoint ?t None ?id s1) = Inr s'"
    by (auto simp: speedboat_commit_type_commit_def handle_compaction_def res_Inr Let_def c1_def)
  from steps(2) obtain schema where schema: "ti_schema ti = Some schema"
    by (auto simp: new_speedboat_files_def as_file_set_payload_def res_Inr Let_def split: option.splits)
  note wf_old = latest_checkpoint_wf [OF inv steps(1)]
  obtain fs' where "new_speedboat_files hash ti old = Inr fs'" "wf_files fs'"
    "set (file_paths fs') = set (speedboat_paths old) \<union> set (ti_files ti)"
    using ti(1) schema wf_old by (rule new_speedboat_files_wf)
  with steps(2) ti(2) have fs: "wf_files fs" "p \<in> set (file_paths fs)" by simp_all
  have wf1: "wf_checkpoint (c1 old fs merged)" using wf_old fs(1) by (simp add: c1_def wf_checkpoint_def)
  have sp: "p \<in> set (speedboat_paths (c1 old fs merged))" "tm_table_name (c1 old fs merged) = ?t"
    using fs(2) by (simp_all add: c1_def speedboat_paths_def)
  have new': "recent_file_extension_metadata_for (draw_id s) ?t ''es'' p = None"
    using new by (simp add: recent_file_extension_metadata_for_def draw_id_def)
  obtain tm' sb' ice' where "try_fill_checkpoint_extension_metadata (draw_id s) ''es'' (c1 old fs merged) = Inr (tm', sb', ice')"
    "wf_files sb'" "wf_files ice'" "set (file_paths sb') = {p \<in> set (speedboat_paths (c1 old fs merged)).
       recent_file_extension_metadata_for (draw_id s) (tm_table_name (c1 old fs merged)) ''es'' p = None}"
    using wf1 by (rule try_fill_wf)
  with steps(3) sp new' have sb: "wf_files sb" "wf_files ice" "p \<in> set (file_paths sb)" by simp_all
  have "es_registry_wf (extension_work_items (insert_checkpoint ?t ?id c2 (draw_id s)))"
    using inv by (simp add: commits_inv_def insert_checkpoint_def draw_id_def)
  from this sb(1,2) obtain s1' where
    "fill_extension_work_item gen ?t ''es'' ?id merged sb ice (insert_checkpoint ?t ?id c2 (draw_id s)) = Inr s1'"
    "checkpoints_needing_extension_work s1' =
      (if file_paths sb = [] \<and> file_paths ice = []
       then checkpoints_needing_extension_work (insert_checkpoint ?t ?id c2 (draw_id s))
       else checkpoints_needing_extension_work (note_extension_work ?t ''es'' ?id (insert_checkpoint ?t ?id c2 (draw_id s))))"
    by (rule fill_extension_work_item_wf)
  with steps(4) sb(3) have "checkpoints_needing_extension_work s1 =
      checkpoints_needing_extension_work (note_extension_work ?t ''es'' ?id (insert_checkpoint ?t ?id c2 (draw_id s)))"
    by auto
  then have "extension_work_key ?t ''es'' \<in> fmdom' (checkpoints_needing_extension_work s1)"
    by (simp add: note_extension_work_def Let_def)
  moreover have "publication_kept s1 s'"
    by (rule publication_kept_trans [OF kept_primitives(3) kept_maybe_create [OF steps(5)]])
  ultimately show ?thesis by (auto simp: publication_kept_def)
qed

text \<open>A fresh service after its first commit.\<close>

lemma sample_first_commit:
  obtains s where "service_run sample_ids (\<lambda>_. 0) 0 (service_new 0 ephemeral_default) s"
    "real_table_name s ''t'' = ''t''" "get_latest_materialized_checkpoint_sync s ''t'' None = Some ''1''"
    "request_pending ''t'' s" "publication_kept (service_new 0 ephemeral_default) s"
    "table_aliases s = fmempty" "get_latest_materialized_checkpoint_sync s ''t'' (Some ''es'') = None"
    "fmlookup (checkpoint_publication_requests s)
       (checkpoint_publication_request_key default_metadata_namespace ''t'') = Some (update_request_new ''t'')"
proof -
  let ?s = "service_new 0 ephemeral_default" let ?ti = "sample_info ''t'' [''a'']"
  have real: "real_table_name ?s (ti_table_name ?ti) = ti_table_name ?ti" by (simp add: real_table_name_def)
  have old: "latest_checkpoint ?s (ti_table_name ?ti) (Inr (PowdrrSchema [])) = Inr (fresh_checkpoint ''t'' (PowdrrSchema []))"
    by (simp add: latest_checkpoint_def get_latest_materialized_checkpoint_sync_def)
  have merged: "merge_from (tm_schema (fresh_checkpoint ''t'' (PowdrrSchema []))) (PowdrrSchema []) = Inr (PowdrrSchema [])"
    by (simp add: fresh_checkpoint_def)
  obtain s1 c where s1: "speedboat_commit_type_commit sample_ids (\<lambda>_. 0) ?ti None ?s = Inr s1"
    "commits_checkpoint sample_ids (ti_table_name ?ti) c ?s s1"
    by (rule speedboat_commit_type_commit_correct [OF commits_inv_new sample_ids_source real _ _ old merged]) simp_all
  let ?s' = "queue_publication_request default_metadata_namespace ''t'' s1"
  have run: "speedboat_commit_op sample_ids (\<lambda>_. 0) \<lparr>sc_type_files = [?ti], sc_compaction = None\<rparr> ?s = Inr (?s', True)"
    using s1(1) by (simp add: speedboat_commit_op_def speedboat_commit_info_def)
  have "service_run sample_ids (\<lambda>_. 0) (0 + 0) ?s ?s'"
    by (rule service_run.next_step [OF service_run.stop service_step.speedboat [OF run]])
      (simp add: real_table_name_def)
  moreover have "table_aliases ?s' = fmempty" "get_latest_materialized_checkpoint_sync ?s' ''t'' None = Some ''1''"
    "get_latest_materialized_checkpoint_sync ?s' ''t'' (Some ''es'') = None"
    using s1(2) by (simp_all add: commits_checkpoint_def latest_lookup real_table_name_def sample_ids_def
        queue_publication_request_def)
  moreover have "fmlookup (checkpoint_publication_requests ?s')
      (checkpoint_publication_request_key default_metadata_namespace ''t'') = Some (update_request_new ''t'')"
    by (simp add: queue_publication_request_def)
  moreover have "request_pending ''t'' ?s'"
    using commit_waits [OF s1(1) commits_inv_new, of "''a''"]
    by (simp add: request_pending_def recent_file_extension_metadata_for_def queue_publication_request_def fmlookup_dom'_iff)
  ultimately show thesis using that kept_speedboat [OF run] by (simp add: real_table_name_def)
qed




text \<open>
  The first commit made active: one node sends a heartbeat, the cutover state is read, which fixes
  the node as the required one, the two artifacts are reported ready, the node acknowledges the
  checkpoint at the epoch, and the publication tick promotes it.
\<close>

lemma sample_activation:
  obtains n s where "service_run sample_ids (\<lambda>_. 0) n (service_new 0 ephemeral_default) s"
    "get_published_checkpoint_sync s Active ''t'' None = Some ''1''"
proof (rule sample_first_commit)
  let ?run = "service_run sample_ids (\<lambda>_. 0)" let ?new = "service_new 0 ephemeral_default"
  fix s assume s: "?run 0 ?new s" "get_latest_materialized_checkpoint_sync s ''t'' None = Some ''1''"
    "publication_kept ?new s" "table_aliases s = fmempty"
    "get_latest_materialized_checkpoint_sync s ''t'' (Some ''es'') = None"
    "fmlookup (checkpoint_publication_requests s)
       (checkpoint_publication_request_key default_metadata_namespace ''t'') = Some (update_request_new ''t'')"
  let ?lease = "\<lparr>snl_node_id = ''n'', snl_membership_epoch = 0, snl_observed_at_ms = 0\<rparr>"
  let ?ready = "\<lambda>c. (sample_ack c)\<lparr>ara_checkpoint_id := ''1''\<rparr>"
  let ?ack = "\<lparr>sna_selector = selector_target ''t'' None, sna_node_id = ''n'', sna_epoch = 1,
    sna_checkpoint_id = ''1'', sna_activated_at_ms = 0\<rparr>"
  let ?view = "\<lparr>cmv_selector = selector_target ''t'' None, cmv_epoch = 1,
    cmv_target_checkpoint_id = ''1'', cmv_required_node_ids = [''n'']\<rparr>"
  let ?k = "selector_group_key ''t'' None"
  have new: "published_checkpoint_id s = fmempty" "checkpoint_cutover_epochs s = fmempty"
    "cutover_membership_views s = fmempty" "serving_node_leases s = fmempty"
    "serving_node_activations s = fmempty" "artifact_readiness_acks s = fmempty"
    using s(3) by (simp_all add: publication_kept_def service_new_def from_snapshot_def snapshot_default_def)
  define s1 where "s1 = s\<lparr>serving_node_leases := fmupd ''n'' ?lease fmempty\<rparr>"
  define s2 where "s2 = s1\<lparr>checkpoint_cutover_epochs := fmupd ?k 1 fmempty,
    cutover_membership_views := fmupd ?k ?view fmempty, serving_node_activations := fmempty\<rparr>"
  define s3 where "s3 = s2\<lparr>artifact_readiness_acks := fmupd ?k
    (fmupd SnapshotLookupMmap (?ready SnapshotLookupMmap) fmempty) fmempty\<rparr>"
  define s4 where "s4 = s3\<lparr>artifact_readiness_acks := fmupd ?k
    (fmupd SnapshotExactLookupMmap (?ready SnapshotExactLookupMmap)
      (fmupd SnapshotLookupMmap (?ready SnapshotLookupMmap) fmempty)) fmempty\<rparr>"
  define s5 where "s5 = s4\<lparr>serving_node_activations := fmupd ?k (fmupd ''n'' ?ack fmempty) fmempty\<rparr>"
  note defs = s5_def s4_def s3_def s2_def s1_def
  have latest: "get_latest_materialized_checkpoint_sync s1 t e = get_latest_materialized_checkpoint_sync s t e"
    "get_latest_materialized_checkpoint_sync s5 t e = get_latest_materialized_checkpoint_sync s t e" for t e
    by (simp_all add: get_latest_materialized_checkpoint_sync_def real_table_name_def defs split: option.split)
  have "heartbeat_serving_node 0 ?lease s = Inr (s1, ())"
    by (simp add: heartbeat_serving_node_def membership_defs Let_def s1_def new hm_retain_def)
  from service_run.next_step [OF s(1) service_step.heartbeat [OF this]] have r1: "?run 0 ?new s1" by simp
  have "capture_cutover_membership_for_target 0 ''t'' None ''1'' s1 = s2"
    by (simp add: capture_cutover_membership_for_target_def membership_defs Let_def s1_def s2_def new hm_retain_def
        lease_length_ms_def sorted_list_of_fset.rep_eq)
  moreover have "backfill_cutover_membership_for_target 0 ''t'' None ''1'' s2 = s2"
    by (simp add: backfill_cutover_membership_for_target_def get_cutover_membership_view_def s2_def)
  ultimately obtain st where "get_checkpoint_cutover_state 0 ''t'' None s1 = Inr (s2, st)"
    by (simp add: get_checkpoint_cutover_state_def latest s(2) Let_def)
  from service_run.next_step [OF r1 service_step.cutover_state [OF this]] have r2: "?run 2 ?new s2" by (simp add: numeral_2_eq_2)
  have "record_artifact_readiness (?ready SnapshotLookupMmap) s2 = Inr (s3, ())"
    by (simp add: record_artifact_readiness_def sample_ack_def selector_target_def s3_def s2_def s1_def new)
  from service_run.next_step [OF r2 service_step.readiness [OF this]] have r3: "?run 2 ?new s3" by simp
  have "record_artifact_readiness (?ready SnapshotExactLookupMmap) s3 = Inr (s4, ())"
    by (simp add: record_artifact_readiness_def sample_ack_def selector_target_def s4_def s3_def)
  from service_run.next_step [OF r3 service_step.readiness [OF this]] have r4: "?run 2 ?new s4" by simp
  have "record_serving_node_activation ?ack s4 = Inr (s5, ())"
    by (simp add: record_serving_node_activation_def selector_target_def defs new)
  from service_run.next_step [OF r4 service_step.activation [OF this]] have r5: "?run 2 ?new s5" by simp
  let ?order = "[checkpoint_publication_request_key default_metadata_namespace ''t'']"
  let ?p = "set_published_checkpoint Active ''t'' None ''1'' s5"
  let ?s6 = "fst (update_all_checkpoints 0 ?order s5)"
  have "advance_published_checkpoints 0 ?order s5 = Inr (?s6, snd (update_all_checkpoints 0 ?order s5))"
    by (simp add: advance_published_checkpoints_def)
  from service_run.next_step [OF r5 service_step.publish [OF this]] have r6: "?run 6 ?new ?s6" by simp
  have "advance_target_checkpoint 0 ''t'' None s5 = (s5, False)"
    by (simp add: advance_target_checkpoint_def latest s(2) get_cutover_membership_view_def
        capture_cutover_membership_for_target_def) (simp add: defs)
  moreover have "promote_active_checkpoint_if_ready 0 ''t'' None s5 = (?p, True)"
  proof -
    have "readiness_matches_target s5 ''t'' None ''1''"
      by (simp add: readiness_matches_target_def required_artifact_classes_def defs sample_ack_def)
    moreover have "get_published_checkpoint_sync s5 Active ''t'' None = None"
      by (simp add: get_published_checkpoint_sync_def defs new)
    moreover have "activation_matches_target 0 ''t'' None ''1'' s5 = (s5, True)"
      by (simp add: activation_matches_target_def backfill_cutover_membership_for_target_def
          maybe_reconfigure_cutover_membership_for_target_def membership_defs Let_def defs hm_retain_def lease_length_ms_def)
    ultimately show ?thesis by (simp add: promote_active_checkpoint_if_ready_def latest s(2))
  qed
  moreover have "get_latest_materialized_checkpoint_sync ?p ''t'' (Some ''es'') = None"
    using s(5) latest(2) [of "''t''" "Some ''es''"]
    by (simp add: get_latest_materialized_checkpoint_sync_def set_published_checkpoint_def real_table_name_def
        split: option.splits)
  moreover have "fmlookup (checkpoint_publication_requests s5) (hd ?order) = Some (update_request_new ''t'')"
    using s(6) by (simp add: defs)
  ultimately have "get_published_checkpoint_sync ?s6 Active ''t'' None = Some ''1''"
    by (simp add: update_all_checkpoints_def publish_request_def update_request_new_def Let_def
        advance_target_checkpoint_def promote_active_checkpoint_if_ready_def map_filter_simps
        get_published_checkpoint_sync_def set_published_checkpoint_def)
  with r6 that show thesis by blast
qed


text \<open>
  C29. Within fewer than \<open>2 ^ 64\<close> epoch draws a cutover epoch identifies its target: whatever steps
  a service takes, if the epoch of a table and extension is the same before and after, so is the
  checkpoint its membership view is for (the 64-bit counter has not wrapped).
\<close>

theorem epoch_identifies_target:
  assumes "service_run gen hash n s s'" "n < 2 ^ 64"
    and "hm_get_or 0 (checkpoint_cutover_epochs s') (selector_group_key t e) =
      hm_get_or 0 (checkpoint_cutover_epochs s) (selector_group_key t e)"
  shows "map_option cmv_target_checkpoint_id (get_cutover_membership_view s' t e) =
    map_option cmv_target_checkpoint_id (get_cutover_membership_view s t e)"
proof -
  let ?k = "selector_group_key t e"
  from service_run_epochs [OF assms(1)] obtain m where m: "m \<le> n"
    "epoch_of s' ?k = epoch_of s ?k + of_nat m" "m = 0 \<longrightarrow> target_of s' ?k = target_of s ?k"
    unfolding epochs_grow_def by blast
  from m(2) assms(3) have "(of_nat m :: u64) = 0" by (simp add: epoch_of_def)
  then have "m mod 2 ^ 64 = 0" by (simp add: word_of_nat_eq_0_iff dvd_eq_mod_eq_0)
  with m(1) assms(2) have "m = 0" by simp
  with m(3) show ?thesis by (simp add: target_of_def get_cutover_membership_view_def)
qed

lemma epoch_identifies_target_witness:
  "\<exists>s s'. service_run sample_ids (\<lambda>_. 0) 0 s s' \<and> s' \<noteq> s \<and>
     map_option cmv_target_checkpoint_id (get_cutover_membership_view s' ''t'' None) =
     map_option cmv_target_checkpoint_id (get_cutover_membership_view s ''t'' None)"
proof -
  let ?s = "service_new 0 ephemeral_default"
  let ?l = "\<lparr>snl_node_id = ''n'', snl_membership_epoch = 0, snl_observed_at_ms = 0\<rparr>"
  obtain s' where hb: "heartbeat_serving_node 0 ?l ?s = Inr (s', ())" by (simp add: heartbeat_serving_node_def Let_def)
  have "service_run sample_ids (\<lambda>_. 0) (0 + 0) ?s s'"
    by (rule service_run.next_step [OF service_run.stop service_step.heartbeat [OF hb]])
  then have run: "service_run sample_ids (\<lambda>_. 0) 0 ?s s'" by simp
  have "fmlookup (serving_node_leases ?s) ''n'' = None" "fmlookup (serving_node_leases s') ''n'' = Some ?l"
    "checkpoint_cutover_epochs s' = checkpoint_cutover_epochs ?s"
    using hb by (auto simp: heartbeat_serving_node_def prune_expired_serving_node_leases_def Let_def
        service_new_def from_snapshot_def snapshot_default_def)
  then show ?thesis using run epoch_identifies_target [OF run, of "''t''" None] by (intro exI [of _ ?s] exI [of _ s']) auto
qed

text \<open>
  C31. A publication request never drains: once a table has had a checkpoint wait for side files,
  its request stays in the queue in every later state, even when all extension work is done and
  the latest checkpoints are active, because the emptied waiting list is never removed.
\<close>

theorem publication_request_never_drains:
  assumes "service_run gen hash n (service_new m md) s" "id_source gen" "service_run gen hash n' s s'"
    and "hm_contains (checkpoints_needing_extension_work s) (extension_work_key t ''es'')"
    and "hm_contains (checkpoint_publication_requests s)
      (checkpoint_publication_request_key default_metadata_namespace t)"
  shows "hm_contains (checkpoint_publication_requests s')
    (checkpoint_publication_request_key default_metadata_namespace t)"
proof -
  have "request_pending t s" using assms(4,5) by (simp add: request_pending_def)
  with service_run_keeps [OF assms(3,2) reachable_inv [OF assms(1,2)]] show ?thesis
    by (simp add: request_pending_def)
qed

lemma publication_request_never_drains_witness:
  "\<exists>s s'. service_run sample_ids (\<lambda>_. 0) 0 (service_new 0 ephemeral_default) s \<and>
     service_run sample_ids (\<lambda>_. 0) 4 s s' \<and>
     hm_contains (checkpoint_publication_requests s')
       (checkpoint_publication_request_key default_metadata_namespace ''t'')"
proof (rule sample_first_commit)
  fix s assume s: "service_run sample_ids (\<lambda>_. 0) 0 (service_new 0 ephemeral_default) s" "request_pending ''t'' s"
  let ?s' = "fst (update_all_checkpoints 0 [''k''] s)"
  have "service_run sample_ids (\<lambda>_. 0) (0 + 4 * length [''k'']) s ?s'"
    by (rule service_run.next_step [OF service_run.stop
          service_step.publish [where b = "snd (update_all_checkpoints 0 [''k''] s)"]])
      (simp add: advance_published_checkpoints_def)
  then have run: "service_run sample_ids (\<lambda>_. 0) 4 s ?s'" by simp
  from publication_request_never_drains [OF s(1) sample_ids_source run, of "''t''"] s run show ?thesis
    by (auto simp: request_pending_def)
qed

end
