(* ===== verification/Raft_Service.thy ===== *)
theory Raft_Service
  imports Service_Run "HOL-Library.Option_ord"
begin

section \<open>The replicated metadata service\<close>

text \<open>
  \<^verbatim>\<open>service_lib/src/raft_service_impl.rs\<close>: the metadata service replicated with Raft. The whole
  service is one value of the replicated key-value store: a write restores the ephemeral service
  from the stored snapshot, runs the operation on it and stores the new snapshot; a read restores
  it after a linearizability check. Raft itself, its in-memory store and the JSON encoding are
  external crates: \<open>raft_env\<close> are the calls the code makes of them, on a state \<open>'r\<close> of the
  replication group, and the laws \<open>memstore_applies\<close>, \<open>json_restores\<close>, \<open>orders_ok\<close> and
  \<open>linearizable_keeps\<close> are what it relies on. One of them is the store's rule for retries: a
  write with the serial number of the client's last write is not applied again.

  On the node that does the writes the replicated service is the ephemeral service: every run of
  acknowledged writes is a run of it, and every read returns what it returns. A node whose counter
  meets the last serial number of another node acknowledges a write that is dropped.
\<close>

subsection \<open>The external calls\<close>

record raft_service_config =
  rc_cluster_name :: string
  rc_node_id :: u64
  rc_advertise_address :: string
  rc_bootstrap :: bool
  rc_peers :: "(u64, string) hash_map"

datatype initialize_result = Init_Ok | Init_Not_Allowed | Init_Api_Error string | Init_Fatal string

record 'r raft_env =
  re_ensure_linearizable :: "'r \<Rightarrow> 'r \<times> (string + unit)"
  re_client_status :: "'r \<Rightarrow> string \<Rightarrow> string option"
  re_client_serial :: "'r \<Rightarrow> string \<Rightarrow> u64 option"
  re_client_write :: "string \<Rightarrow> u64 \<Rightarrow> string \<Rightarrow> 'r \<Rightarrow> 'r \<times> (string + unit)"
  re_current_leader :: "'r \<Rightarrow> u64 option"
  re_initialize :: "u64 list \<Rightarrow> 'r \<Rightarrow> 'r \<times> initialize_result"
  re_to_json :: "service_snapshot \<Rightarrow> string + string"
  re_from_json :: "string \<Rightarrow> string + service_snapshot"
  re_key_order :: "service_snapshot \<Rightarrow> string list"
  re_extension_order :: "service \<Rightarrow> string option list"

record 'r raft_service =
  rf_mode :: test_processing_mode
  rf_config :: raft_service_config
  rf_raft :: 'r
  rf_write_serial :: u64
  rf_peer_addresses :: "(u64, string) hash_map"
  rf_id_seq :: nat

definition service_state_key :: string where
  "service_state_key = ''__powdrr_service_state__''"

definition raft_fatal_error :: "string \<Rightarrow> error" where
  "raft_fatal_error e = Service_Api_Error (''Raft fatal error: '' @ e)"

definition raft_api_error :: "string \<Rightarrow> error" where
  "raft_api_error e = Service_Api_Error (''Raft API error: '' @ e)"

subsection \<open>Construction and leadership\<close>

definition with_own_address :: "raft_service_config \<Rightarrow> raft_service_config" where
  "with_own_address config =
     (if hm_contains (rc_peers config) (rc_node_id config) then config
      else config\<lparr>rc_peers := fmupd (rc_node_id config) (rc_advertise_address config) (rc_peers config)\<rparr>)"

text \<open>
  \<open>validated\<close> is the outcome of validating the Raft configuration, \<open>started\<close> of starting the
  Raft node.
\<close>

definition new_with_network_factory ::
    "raft_service_config \<Rightarrow> test_processing_mode \<Rightarrow> string + unit \<Rightarrow> string + 'r \<Rightarrow> nat \<Rightarrow> 'r raft_service res" where
  "new_with_network_factory config md validated started seq =
     (let config' = with_own_address config in
      case validated of
        Inl e \<Rightarrow> Inl (Service_Api_Error (''Invalid Raft config: '' @ e))
      | Inr _ \<Rightarrow>
          (case started of
             Inl e \<Rightarrow> Inl (raft_fatal_error e)
           | Inr raft \<Rightarrow>
               Inr \<lparr>rf_mode = md, rf_config = config', rf_raft = raft, rf_write_serial = 0,
                    rf_peer_addresses = rc_peers config', rf_id_seq = seq\<rparr>))"

definition raft_service_new ::
    "raft_service_config \<Rightarrow> test_processing_mode \<Rightarrow> string + unit \<Rightarrow> string + 'r \<Rightarrow> nat \<Rightarrow> 'r raft_service res" where
  "raft_service_new config = new_with_network_factory (with_own_address config)"

definition bootstrap_cluster_if_needed :: "'r raft_env \<Rightarrow> 'r raft_service \<Rightarrow> 'r raft_service \<times> unit res" where
  "bootstrap_cluster_if_needed env rs =
     (if \<not> rc_bootstrap (rf_config rs) then (rs, Inr ())
      else
        (let (raft', outcome) = re_initialize env (sorted_list_of_fset (fmdom (rf_peer_addresses rs))) (rf_raft rs);
             rs' = rs\<lparr>rf_raft := raft'\<rparr> in
         case outcome of
           Init_Ok \<Rightarrow> (rs', Inr ())
         | Init_Not_Allowed \<Rightarrow> (rs', Inr ())
         | Init_Api_Error e \<Rightarrow> (rs', Inl (raft_api_error e))
         | Init_Fatal e \<Rightarrow> (rs', Inl (raft_fatal_error e))))"

definition current_leader_id :: "'r raft_env \<Rightarrow> 'r raft_service \<Rightarrow> u64 option" where
  "current_leader_id env rs = re_current_leader env (rf_raft rs)"

definition current_leader_address :: "'r raft_env \<Rightarrow> 'r raft_service \<Rightarrow> string option" where
  "current_leader_address env rs = Option.bind (current_leader_id env rs) (fmlookup (rf_peer_addresses rs))"

definition forward_base_url :: "'r raft_env \<Rightarrow> 'r raft_service \<Rightarrow> string option" where
  "forward_base_url env rs =
     (case current_leader_id env rs of
        Some leader_id \<Rightarrow>
          if leader_id \<noteq> rc_node_id (rf_config rs)
          then map_option (\<lambda>address. ''http://'' @ address) (fmlookup (rf_peer_addresses rs) leader_id)
          else None
      | None \<Rightarrow> None)"

definition is_local_leader :: "'r raft_env \<Rightarrow> 'r raft_service \<Rightarrow> bool" where
  "is_local_leader env rs \<longleftrightarrow> current_leader_id env rs = Some (rc_node_id (rf_config rs))"

subsection \<open>Reading and writing the replicated state\<close>

definition read_snapshot_state :: "'r raft_env \<Rightarrow> 'r raft_service \<Rightarrow> service_snapshot res" where
  "read_snapshot_state env rs =
     (case re_client_status env (rf_raft rs) service_state_key of
        Some serialized \<Rightarrow>
          (case re_from_json env serialized of
             Inl e \<Rightarrow> Inl (Service_Api_Error (''Failed to deserialize replicated service state: '' @ e))
           | Inr snapshot \<Rightarrow> Inr snapshot)
      | None \<Rightarrow> Inr snapshot_default)"

definition write_snapshot_state ::
    "'r raft_env \<Rightarrow> service_snapshot \<Rightarrow> 'r raft_service \<Rightarrow> 'r raft_service \<times> unit res" where
  "write_snapshot_state env snapshot rs =
     (case re_to_json env snapshot of
        Inl e \<Rightarrow> (rs, Inl (Service_Api_Error (''Failed to serialize replicated service state: '' @ e)))
      | Inr serialized \<Rightarrow>
          (let serial = rf_write_serial rs + 1;
               (raft', outcome) = re_client_write env service_state_key serial serialized (rf_raft rs);
               rs' = rs\<lparr>rf_raft := raft', rf_write_serial := serial\<rparr> in
           case outcome of
             Inl e \<Rightarrow> (rs', Inl (raft_api_error e))
           | Inr _ \<Rightarrow> (rs', Inr ())))"

definition restored :: "'r raft_env \<Rightarrow> 'r raft_service \<Rightarrow> service_snapshot \<Rightarrow> service" where
  "restored env rs snapshot = from_snapshot (re_key_order env snapshot) (rf_id_seq rs) (rf_mode rs) snapshot"

text \<open>The macros the operations are written with.\<close>

definition raft_read_state ::
    "'r raft_env \<Rightarrow> (service, 'a) op \<Rightarrow> 'r raft_service \<Rightarrow> 'r raft_service \<times> 'a res" where
  "raft_read_state env body rs =
     (let (raft', outcome) = re_ensure_linearizable env (rf_raft rs);
          rs' = rs\<lparr>rf_raft := raft'\<rparr> in
      case outcome of
        Inl e \<Rightarrow> (rs', Inl (raft_api_error e))
      | Inr _ \<Rightarrow>
          (case read_snapshot_state env rs' of
             Inl e \<Rightarrow> (rs', Inl e)
           | Inr snapshot \<Rightarrow>
               (case body (restored env rs' snapshot) of
                  Inl e \<Rightarrow> (rs', Inl e)
                | Inr (state, x) \<Rightarrow> (rs'\<lparr>rf_id_seq := id_seq state\<rparr>, Inr x))))"

definition raft_write_state ::
    "'r raft_env \<Rightarrow> (service, 'a) op \<Rightarrow> 'r raft_service \<Rightarrow> 'r raft_service \<times> 'a res" where
  "raft_write_state env body rs =
     (case read_snapshot_state env rs of
        Inl e \<Rightarrow> (rs, Inl e)
      | Inr snapshot \<Rightarrow>
          (case body (restored env rs snapshot) of
             Inl e \<Rightarrow> (rs, Inl e)
           | Inr (state, x) \<Rightarrow>
               (case write_snapshot_state env (snapshot_state (re_extension_order env state) state)
                       (rs\<lparr>rf_id_seq := id_seq state\<rparr>) of
                  (rs', Inl e) \<Rightarrow> (rs', Inl e)
                | (rs', Inr _) \<Rightarrow> (rs', Inr x))))"

subsection \<open>The operations\<close>

type_synonym ('r, 'a) raft_op = "'r raft_service \<Rightarrow> 'r raft_service \<times> 'a res"

definition raft_add_checkpoint ::
    "'r raft_env \<Rightarrow> (nat \<Rightarrow> string) \<Rightarrow> string list \<Rightarrow> table_metadata_checkpoint \<Rightarrow> ('r, unit) raft_op" where
  "raft_add_checkpoint env gen order metadata = raft_write_state env (add_checkpoint gen order metadata)"

definition raft_get_all_iceberg_tables ::
    "'r raft_env \<Rightarrow> string list \<Rightarrow> ('r, string list) raft_op" where
  "raft_get_all_iceberg_tables env order = raft_read_state env (get_all_iceberg_tables order)"

definition raft_create_table ::
    "'r raft_env \<Rightarrow> create_table_t \<Rightarrow> ('r, bool) raft_op" where
  "raft_create_table env ct = raft_write_state env (create_table ct)"

definition raft_upsert_table_metadata ::
    "'r raft_env \<Rightarrow> create_table_t \<Rightarrow> ('r, bool) raft_op" where
  "raft_upsert_table_metadata env ct = raft_write_state env (upsert_table_metadata ct)"

definition raft_describe_table ::
    "'r raft_env \<Rightarrow> string \<Rightarrow> ('r, table_description option) raft_op" where
  "raft_describe_table env name = raft_read_state env (describe_table name)"

definition raft_add_alias ::
    "'r raft_env \<Rightarrow> string \<Rightarrow> string \<Rightarrow> ('r, bool) raft_op" where
  "raft_add_alias env t a = raft_write_state env (add_alias t a)"

definition raft_remove_alias ::
    "'r raft_env \<Rightarrow> string \<Rightarrow> string \<Rightarrow> ('r, bool) raft_op" where
  "raft_remove_alias env t a = raft_write_state env (remove_alias t a)"

definition raft_create_table_template ::
    "'r raft_env \<Rightarrow> string \<Rightarrow> create_index_template_body \<Rightarrow> ('r, bool) raft_op" where
  "raft_create_table_template env name template = raft_write_state env (create_table_template name template)"

definition raft_describe_table_template ::
    "'r raft_env \<Rightarrow> string \<Rightarrow> ('r, create_index_template_body option) raft_op" where
  "raft_describe_table_template env name = raft_read_state env (describe_table_template name)"

definition raft_create_pipeline ::
    "'r raft_env \<Rightarrow> string \<Rightarrow> pipeline_definition \<Rightarrow> ('r, bool) raft_op" where
  "raft_create_pipeline env name pipeline = raft_write_state env (create_pipeline name pipeline)"

definition raft_describe_pipeline ::
    "'r raft_env \<Rightarrow> string \<Rightarrow> ('r, pipeline_definition option) raft_op" where
  "raft_describe_pipeline env name = raft_read_state env (describe_pipeline name)"

definition raft_create_lifetime_policy ::
    "'r raft_env \<Rightarrow> string \<Rightarrow> ilm_policy_definition \<Rightarrow> ('r, bool) raft_op" where
  "raft_create_lifetime_policy env name policy = raft_write_state env (create_lifetime_policy name policy)"

definition raft_describe_lifetime_policy ::
    "'r raft_env \<Rightarrow> string \<Rightarrow> ('r, ilm_policy_definition option) raft_op" where
  "raft_describe_lifetime_policy env name = raft_read_state env (describe_lifetime_policy name)"

definition raft_speedboat_commit ::
    "'r raft_env \<Rightarrow> (nat \<Rightarrow> string) \<Rightarrow> (string \<Rightarrow> u64) \<Rightarrow> speedboat_commit \<Rightarrow> ('r, bool) raft_op" where
  "raft_speedboat_commit env gen hash commit = raft_write_state env (speedboat_commit_op gen hash commit)"

definition raft_iceberg_commit ::
    "'r raft_env \<Rightarrow> (nat \<Rightarrow> string) \<Rightarrow> string \<Rightarrow> iceberg_commit \<Rightarrow> ('r, bool) raft_op" where
  "raft_iceberg_commit env gen t commit = raft_write_state env (iceberg_commit_op gen t commit)"

definition raft_extension_commit ::
    "'r raft_env \<Rightarrow> string list \<Rightarrow> string \<Rightarrow> extension_commit \<Rightarrow> ('r, bool) raft_op" where
  "raft_extension_commit env order t commit = raft_write_state env (extension_commit_op order t commit)"

definition raft_compaction_commit ::
    "'r raft_env \<Rightarrow> string \<Rightarrow> compaction_commit \<Rightarrow> ('r, bool) raft_op" where
  "raft_compaction_commit env t commit = raft_write_state env (compaction_commit_op t commit)"

definition raft_cleanup_commit ::
    "'r raft_env \<Rightarrow> cleanup_commit \<Rightarrow> ('r, bool) raft_op" where
  "raft_cleanup_commit env commit = raft_write_state env (cleanup_commit_op commit)"

definition raft_get_latest_committed_checkpoint ::
    "'r raft_env \<Rightarrow> string \<Rightarrow> string option \<Rightarrow> ('r, string option) raft_op" where
  "raft_get_latest_committed_checkpoint env t e = raft_read_state env (get_latest_committed_checkpoint t e)"

definition raft_get_published_active_checkpoint ::
    "'r raft_env \<Rightarrow> string \<Rightarrow> string option \<Rightarrow> ('r, string option) raft_op" where
  "raft_get_published_active_checkpoint env t e = raft_read_state env (default_get_published_active_checkpoint get_published_checkpoint_record t e)"

definition raft_get_checkpoint ::
    "'r raft_env \<Rightarrow> checkpoint_descriptor \<Rightarrow> ('r, table_metadata_checkpoint option) raft_op" where
  "raft_get_checkpoint env d = raft_read_state env (get_checkpoint d)"

definition raft_get_latest_target_checkpoint ::
    "'r raft_env \<Rightarrow> string \<Rightarrow> string option \<Rightarrow> ('r, string option) raft_op" where
  "raft_get_latest_target_checkpoint env t e =
     raft_read_state env
       (default_get_latest_target_checkpoint get_published_checkpoint_record get_latest_committed_checkpoint t e)"

definition raft_get_checkpoint_cutover_state ::
    "'r raft_env \<Rightarrow> millis \<Rightarrow> string \<Rightarrow> string option \<Rightarrow> ('r, checkpoint_cutover_state) raft_op" where
  "raft_get_checkpoint_cutover_state env now t e = raft_read_state env (get_checkpoint_cutover_state now t e)"

definition raft_heartbeat_serving_node ::
    "'r raft_env \<Rightarrow> millis \<Rightarrow> serving_node_lease \<Rightarrow> ('r, unit) raft_op" where
  "raft_heartbeat_serving_node env now lease = raft_write_state env (heartbeat_serving_node now lease)"

definition raft_record_serving_node_activation ::
    "'r raft_env \<Rightarrow> serving_node_activation_ack \<Rightarrow> ('r, unit) raft_op" where
  "raft_record_serving_node_activation env ack = raft_write_state env (record_serving_node_activation ack)"

definition raft_list_serving_node_activations ::
    "'r raft_env \<Rightarrow> string list \<Rightarrow> string \<Rightarrow> string option \<Rightarrow> ('r, serving_node_activation_ack list) raft_op" where
  "raft_list_serving_node_activations env order t e = raft_read_state env (list_serving_node_activations order t e)"

definition raft_record_artifact_readiness ::
    "'r raft_env \<Rightarrow> artifact_readiness_ack \<Rightarrow> ('r, unit) raft_op" where
  "raft_record_artifact_readiness env ack = raft_write_state env (record_artifact_readiness ack)"

definition raft_list_artifact_readiness ::
    "'r raft_env \<Rightarrow> ((artifact_class, artifact_readiness_ack) hash_map \<Rightarrow> artifact_class list) \<Rightarrow> string \<Rightarrow> string option \<Rightarrow> ('r, artifact_readiness_ack list) raft_op" where
  "raft_list_artifact_readiness env order t e = raft_read_state env (list_artifact_readiness order t e)"

definition raft_get_extension_work_items ::
    "'r raft_env \<Rightarrow> millis \<Rightarrow> string list \<Rightarrow> string \<Rightarrow> ('r, extension_work_item list) raft_op" where
  "raft_get_extension_work_items env now order ext = raft_write_state env (get_extension_work_items now order ext)"

definition raft_get_compaction_work_items ::
    "'r raft_env \<Rightarrow> millis \<Rightarrow> string list \<Rightarrow> ('r, (string \<times> compaction_work_item) list) raft_op" where
  "raft_get_compaction_work_items env now order = raft_write_state env (get_compaction_work_items now order)"

definition raft_get_cleanup_work_items ::
    "'r raft_env \<Rightarrow> millis \<Rightarrow> ('r, cleanup_work_item list) raft_op" where
  "raft_get_cleanup_work_items env now = raft_write_state env (get_cleanup_work_items now)"

definition raft_queue_checkpoint_publication ::
    "'r raft_env \<Rightarrow> checkpoint_update_request \<Rightarrow> ('r, unit) raft_op" where
  "raft_queue_checkpoint_publication env request = raft_write_state env (queue_checkpoint_publication request)"

definition raft_get_published_checkpoint_record ::
    "'r raft_env \<Rightarrow> published_checkpoint_selector \<Rightarrow> ('r, published_checkpoint_record option) raft_op" where
  "raft_get_published_checkpoint_record env selector = raft_read_state env (get_published_checkpoint_record selector)"

definition raft_plan_checkpoint_cutover ::
    "'r raft_env \<Rightarrow> millis \<Rightarrow> checkpoint_cutover_request \<Rightarrow> ('r, unit) raft_op" where
  "raft_plan_checkpoint_cutover env now request = raft_write_state env (plan_checkpoint_cutover now request)"

definition raft_update_all_checkpoints ::
    "'r raft_env \<Rightarrow> millis \<Rightarrow> string list \<Rightarrow> ('r, bool) raft_op" where
  "raft_update_all_checkpoints env now order rs =
     (if \<not> is_local_leader env rs then (rs, Inr False)
      else raft_write_state env (advance_published_checkpoints now order) rs)"

text \<open>The rest of the store interface is built from these.\<close>

definition raft_map :: "('a \<Rightarrow> 'b) \<Rightarrow> ('r, 'a) raft_op \<Rightarrow> ('r, 'b) raft_op" where
  "raft_map f m rs = (let (rs', r) = m rs in (rs', rmap f r))"

definition raft_get_checkpoint_metadata ::
    "'r raft_env \<Rightarrow> checkpoint_descriptor \<Rightarrow> ('r, table_metadata_checkpoint option) raft_op" where
  "raft_get_checkpoint_metadata env d = raft_get_checkpoint env d"

definition raft_claim_extension_work_items ::
    "'r raft_env \<Rightarrow> millis \<Rightarrow> string list \<Rightarrow> string \<Rightarrow> ('r, claimed_extension_work_item list) raft_op" where
  "raft_claim_extension_work_items env now order ext =
     raft_map (map (\<lambda>w. \<lparr>cew_claim = Leased, cew_work_item = w\<rparr>)) (raft_get_extension_work_items env now order ext)"

definition raft_claim_compaction_work_items ::
    "'r raft_env \<Rightarrow> millis \<Rightarrow> string list \<Rightarrow> ('r, claimed_compaction_work_item list) raft_op" where
  "raft_claim_compaction_work_items env now order =
     raft_map (map (\<lambda>(t, w). \<lparr>ccw_claim = Leased, ccw_table_name = t, ccw_work_item = w\<rparr>))
       (raft_get_compaction_work_items env now order)"

definition raft_claim_cleanup_work_items ::
    "'r raft_env \<Rightarrow> millis \<Rightarrow> ('r, claimed_cleanup_work_item list) raft_op" where
  "raft_claim_cleanup_work_items env now =
     raft_map (map (\<lambda>w. \<lparr>clw_claim = Leased, clw_work_item = w\<rparr>)) (raft_get_cleanup_work_items env now)"

definition raft_advance_published_checkpoints ::
    "'r raft_env \<Rightarrow> millis \<Rightarrow> string list \<Rightarrow> ('r, bool) raft_op" where
  "raft_advance_published_checkpoints env now order = raft_update_all_checkpoints env now order"

subsection \<open>States that survive saving\<close>

definition saveable :: "service \<Rightarrow> bool" where
  "saveable s \<longleftrightarrow> Some [] \<notin> fmdom' (latest_committed_checkpoint_id s) \<and> extension_work_items s \<noteq> fmempty"

definition save_kept :: "service \<Rightarrow> service \<Rightarrow> bool" where
  "save_kept s s' \<longleftrightarrow> mode s' = mode s \<and>
     (\<forall>e \<in> fmdom' (latest_committed_checkpoint_id s').
        e \<in> fmdom' (latest_committed_checkpoint_id s) \<or> e = None \<or> e = Some ''es'')"

lemma save_kept_publication: "publication_kept s s' \<Longrightarrow> save_kept s s'"
  by (simp add: save_kept_def publication_kept_def)

lemma save_kept_part: "commit_part s s' \<Longrightarrow> save_kept s s'"
  by (simp add: save_kept_def commit_part_def)

lemma service_step_save_kept:
  assumes "service_step gen hash w s s'"
  shows "save_kept s s'"
  using assms
proof cases
  case (speedboat c b)
  then show ?thesis using kept_speedboat save_kept_publication by blast
next
  case (iceberg t c b)
  then show ?thesis using kept_iceberg save_kept_publication by blast
next
  case (extension order t c b)
  then show ?thesis using kept_extension save_kept_publication by blast
next
  case (claim_extension now order e ew)
  then show ?thesis
    by (auto simp: save_kept_def claim_extension_work_items_def obind_def oret_def res_Inr
        get_extension_work_items_def split_beta Let_def split: if_splits option.splits)
next
  case (heartbeat now l u)
  then have "rest s' = rest s"
    by (auto simp: heartbeat_serving_node_def Let_def rest_def prune_expired_serving_node_leases_def)
  then show ?thesis using commit_part_rest save_kept_part by blast
next
  case (plan now r u)
  let ?s1 = "set_published_checkpoint Target (sel_table_name (ccr_selector r)) (sel_extension (ccr_selector r))
      (ccr_target_checkpoint_id r) s"
  have "commit_part s ?s1" by (simp add: commit_part_def set_published_checkpoint_def)
  moreover have "commit_part ?s1 (capture_cutover_membership_for_target now (sel_table_name (ccr_selector r))
      (sel_extension (ccr_selector r)) (ccr_target_checkpoint_id r) ?s1)"
    by (rule commit_part_rest) simp
  ultimately show ?thesis
    using plan save_kept_part commit_part_trans commit_part_refl
    by (auto simp: plan_checkpoint_cutover_def Let_def split: if_splits)
next
  case (cutover_state now t e st)
  then have "rest s' = rest s" by (auto simp: get_checkpoint_cutover_state_def Let_def split: option.splits)
  then show ?thesis using commit_part_rest save_kept_part by blast
next
  case (publish now order b)
  then have "s' = fst (update_all_checkpoints now order s)"
    by (metis advance_published_checkpoints_def fst_conv sum.inject(2))
  then show ?thesis using publishes_update_all [of gen s now order] save_kept_part by (simp add: publishes_def)
qed (auto simp: save_kept_def other_step_defs queue_checkpoint_publication_def queue_publication_request_def
    split: option.splits)

lemma service_step_saveable:
  assumes "service_step gen hash w s s'" "id_source gen" "service_inv gen s" "saveable s"
  shows "saveable s'" "mode s' = mode s" "service_inv gen s'"
proof -
  from service_step_keeps [OF assms(1-3)] show inv: "service_inv gen s'" by (simp add: step_keeps_def)
  then have "es_registry_wf (extension_work_items s')" by (simp add: service_inv_def commits_inv_def)
  from es_registry_items(1) [OF this] have "extension_work_items s' \<noteq> fmempty" by auto
  with service_step_save_kept [OF assms(1)] assms(4) show "saveable s'" by (auto simp: saveable_def save_kept_def)
  from service_step_save_kept [OF assms(1)] show "mode s' = mode s" by (simp add: save_kept_def)
qed

lemma saveable_new: "saveable (service_new n md)"
  by (simp add: saveable_def service_new_def from_snapshot_def snapshot_default_def
      deserialize_latest_committed_checkpoint_id_def rekey_def)

subsection \<open>What the service relies on\<close>

text \<open>
  The in-memory store applies a committed write unless the client's last write had the same serial
  number, and remembers the number.
\<close>

definition memstore_applies :: "'r raft_env \<Rightarrow> bool" where
  "memstore_applies env \<longleftrightarrow>
     (\<forall>key serial status r r'. re_client_write env key serial status r = (r', Inr ()) \<longrightarrow>
        re_client_serial env r' key = Some serial \<and>
        re_client_status env r' key =
          (if re_client_serial env r key = Some serial then re_client_status env r key else Some status))"

text \<open>What was written as JSON is read back.\<close>

definition json_restores :: "'r raft_env \<Rightarrow> bool" where
  "json_restores env \<longleftrightarrow> (\<forall>snapshot text. re_to_json env snapshot = Inr text \<longrightarrow> re_from_json env text = Inr snapshot)"

definition orders_ok :: "'r raft_env \<Rightarrow> bool" where
  "orders_ok env \<longleftrightarrow>
     (\<forall>snapshot. iter_order (re_key_order env snapshot) (sn_latest_committed_checkpoint_id snapshot)) \<and>
     (\<forall>s. iter_order (re_extension_order env s) (latest_committed_checkpoint_id s))"

text \<open>On the node that did every write, the check finds nothing to catch up with.\<close>

definition linearizable_keeps :: "'r raft_env \<Rightarrow> bool" where
  "linearizable_keeps env \<longleftrightarrow>
     (\<forall>r r' outcome. re_ensure_linearizable env r = (r', outcome) \<longrightarrow>
        re_client_status env r' service_state_key = re_client_status env r service_state_key)"

definition raft_env_ok :: "'r raft_env \<Rightarrow> bool" where
  "raft_env_ok env \<longleftrightarrow> memstore_applies env \<and> json_restores env \<and> orders_ok env \<and> linearizable_keeps env"

subsection \<open>A write is a step of the ephemeral service\<close>

text \<open>\<open>holds env rs s\<close>: the replicated state, read on this node, is the service \<open>s\<close>.\<close>

definition holds :: "'r raft_env \<Rightarrow> 'r raft_service \<Rightarrow> service \<Rightarrow> bool" where
  "holds env rs s \<longleftrightarrow> (\<exists>snapshot. read_snapshot_state env rs = Inr snapshot \<and> restored env rs snapshot = s)"

text \<open>No other node has written: the last serial number is this node's.\<close>

definition only_writer :: "'r raft_env \<Rightarrow> 'r raft_service \<Rightarrow> bool" where
  "only_writer env rs \<longleftrightarrow>
     re_client_serial env (rf_raft rs) service_state_key \<in> {None, Some (rf_write_serial rs)}"

lemma holds_unique: "holds env rs s \<Longrightarrow> holds env rs s' \<Longrightarrow> s' = s"
  by (auto simp: holds_def)

lemma raft_write_state_Inr:
  assumes "raft_write_state env body rs = (rs', Inr x)" "holds env rs s"
  obtains state js raft' where
    "body s = Inr (state, x)" "re_to_json env (snapshot_state (re_extension_order env state) state) = Inr js"
    "re_client_write env service_state_key (rf_write_serial rs + 1) js (rf_raft rs) = (raft', Inr ())"
    "rs' = rs\<lparr>rf_id_seq := id_seq state, rf_raft := raft', rf_write_serial := rf_write_serial rs + 1\<rparr>"
  using assms that
  by (auto simp: raft_write_state_def holds_def write_snapshot_state_def Let_def split: sum.splits prod.splits)

lemma raft_write_applies:
  assumes run: "raft_write_state env body rs = (rs', Inr x)" and env: "raft_env_ok env"
    and hold: "holds env rs s" and sole: "only_writer env rs" and md: "mode s = rf_mode rs"
    and save: "\<And>s' y. body s = Inr (s', y) \<Longrightarrow> saveable s' \<and> mode s' = mode s"
  shows "\<exists>s'. body s = Inr (s', x) \<and> holds env rs' s' \<and> only_writer env rs' \<and> rf_mode rs' = rf_mode rs"
proof -
  from raft_write_state_Inr [OF run hold] obtain state js raft' where
    body: "body s = Inr (state, x)"
    and json: "re_to_json env (snapshot_state (re_extension_order env state) state) = Inr js"
    and applied: "re_client_write env service_state_key (rf_write_serial rs + 1) js (rf_raft rs) = (raft', Inr ())"
    and rs': "rs' = rs\<lparr>rf_id_seq := id_seq state, rf_raft := raft', rf_write_serial := rf_write_serial rs + 1\<rparr>" .
  let ?sn = "snapshot_state (re_extension_order env state) state"
  from sole have "re_client_serial env (rf_raft rs) service_state_key \<noteq> Some (rf_write_serial rs + 1)"
    by (auto simp: only_writer_def)
  with env applied have stored: "re_client_status env raft' service_state_key = Some js"
    "re_client_serial env raft' service_state_key = Some (rf_write_serial rs + 1)"
    by (auto simp: raft_env_ok_def memstore_applies_def)
  from stored(1) env json have read: "read_snapshot_state env rs' = Inr ?sn"
    by (simp add: read_snapshot_state_def rs' raft_env_ok_def json_restores_def)
  from save [OF body] md have st: "saveable state" "mode state = rf_mode rs" by auto
  from env have "iter_order (re_extension_order env state) (latest_committed_checkpoint_id state)"
    "iter_order (re_key_order env ?sn) (sn_latest_committed_checkpoint_id ?sn)"
    by (auto simp: raft_env_ok_def orders_ok_def)
  from snapshot_restores [OF this] st have "restored env rs' ?sn = state"
    by (simp add: restored_def rs' saveable_def)
  with read have "holds env rs' state" by (auto simp: holds_def)
  with body stored(2) show ?thesis by (auto simp: only_writer_def rs')
qed

lemma raft_read_answers:
  assumes "raft_read_state env body rs = (rs', Inr x)" "linearizable_keeps env" "holds env rs s"
  shows "\<exists>s'. body s = Inr (s', x)"
proof -
  obtain raft' outcome where lin: "re_ensure_linearizable env (rf_raft rs) = (raft', outcome)" by fastforce
  let ?rs = "rs\<lparr>rf_raft := raft'\<rparr>"
  from assms(2) lin have "re_client_status env raft' service_state_key = re_client_status env (rf_raft rs) service_state_key"
    by (auto simp: linearizable_keeps_def)
  then have "read_snapshot_state env ?rs = read_snapshot_state env rs" by (simp add: read_snapshot_state_def)
  with assms(3) obtain snapshot where "read_snapshot_state env ?rs = Inr snapshot" "restored env ?rs snapshot = s"
    by (auto simp: holds_def restored_def)
  with assms(1) lin show ?thesis
    by (auto simp: raft_read_state_def Let_def split: sum.splits prod.splits)
qed

subsection \<open>Runs of writes\<close>

text \<open>
  An acknowledged write whose operation is a step of the ephemeral service at the state the node
  holds, its result left out. \<open>raft_writes\<close> below says that the operations of the service are such
  writes.
\<close>

definition without_result :: "(service, 'a) op \<Rightarrow> (service, unit) op" where
  "without_result body s = rmap (\<lambda>(s', _). (s', ())) (body s)"

lemma raft_write_without_result:
  assumes "raft_write_state env body rs = (rs', Inr x)"
  shows "raft_write_state env (without_result body) rs = (rs', Inr ())"
  using assms
  by (auto simp: raft_write_state_def without_result_def split: sum.splits prod.splits)

inductive raft_step ::
    "'r raft_env \<Rightarrow> (nat \<Rightarrow> string) \<Rightarrow> (string \<Rightarrow> u64) \<Rightarrow> nat \<Rightarrow> 'r raft_service \<Rightarrow> 'r raft_service \<Rightarrow> bool"
  for env gen hash where
  acknowledged: "raft_write_state env body rs = (rs', Inr ()) \<Longrightarrow> holds env rs s \<Longrightarrow>
    (\<And>s' y. body s = Inr (s', y) \<Longrightarrow> service_step gen hash w s s') \<Longrightarrow> raft_step env gen hash w rs rs'"

inductive raft_run ::
    "'r raft_env \<Rightarrow> (nat \<Rightarrow> string) \<Rightarrow> (string \<Rightarrow> u64) \<Rightarrow> nat \<Rightarrow> 'r raft_service \<Rightarrow> 'r raft_service \<Rightarrow> bool"
  for env gen hash where
  none: "raft_run env gen hash 0 rs rs"
| more: "raft_run env gen hash n rs rs1 \<Longrightarrow> raft_step env gen hash w rs1 rs2 \<Longrightarrow> raft_run env gen hash (n + w) rs rs2"

lemma raft_step_operation:
  assumes "raft_write_state env body rs = (rs', Inr x)" "holds env rs s"
    "\<And>s' y. body s = Inr (s', y) \<Longrightarrow> service_step gen hash w s s'"
  shows "raft_step env gen hash w rs rs'"
  by (rule raft_step.acknowledged [OF raft_write_without_result [OF assms(1)] assms(2)])
    (use assms(3) in \<open>auto simp: without_result_def rmap_eq_Inr\<close>)

lemma raft_writes:
  assumes "holds env rs s"
  shows "raft_create_table env ct rs = (rs', Inr b) \<Longrightarrow> raft_step env gen hash 0 rs rs'"
    and "raft_speedboat_commit env gen hash sc rs = (rs', Inr b) \<Longrightarrow>
      \<forall>ti \<in> set (sc_type_files sc). wf_info ti \<and> real_table_name s (ti_table_name ti) = ti_table_name ti \<Longrightarrow>
      raft_step env gen hash 0 rs rs'"
    and "raft_iceberg_commit env gen t ic rs = (rs', Inr b) \<Longrightarrow> wf_files (im_files (ic_metadata ic)) \<Longrightarrow>
      real_table_name s t = t \<Longrightarrow> raft_step env gen hash 0 rs rs'"
    and "raft_extension_commit env order t ec rs = (rs', Inr b) \<Longrightarrow> ec_extension ec = ''es'' \<Longrightarrow>
      iter_order order (ec_files ec) \<Longrightarrow> real_table_name s t = t \<Longrightarrow> raft_step env gen hash 0 rs rs'"
    and "raft_compaction_commit env t cc rs = (rs', Inr b) \<Longrightarrow> raft_step env gen hash 0 rs rs'"
    and "raft_cleanup_commit env cl rs = (rs', Inr b) \<Longrightarrow> raft_step env gen hash 0 rs rs'"
    and "raft_heartbeat_serving_node env now lease rs = (rs', Inr u) \<Longrightarrow> raft_step env gen hash 0 rs rs'"
    and "raft_record_serving_node_activation env ack rs = (rs', Inr u) \<Longrightarrow> raft_step env gen hash 0 rs rs'"
    and "raft_record_artifact_readiness env ready rs = (rs', Inr u) \<Longrightarrow> raft_step env gen hash 0 rs rs'"
    and "raft_queue_checkpoint_publication env q rs = (rs', Inr u) \<Longrightarrow> raft_step env gen hash 0 rs rs'"
    and "raft_plan_checkpoint_cutover env now pr rs = (rs', Inr u) \<Longrightarrow> raft_step env gen hash 1 rs rs'"
  unfolding raft_create_table_def raft_speedboat_commit_def raft_iceberg_commit_def raft_extension_commit_def
    raft_compaction_commit_def raft_cleanup_commit_def raft_heartbeat_serving_node_def
    raft_record_serving_node_activation_def raft_record_artifact_readiness_def
    raft_queue_checkpoint_publication_def raft_plan_checkpoint_cutover_def
  by (erule raft_step_operation [OF _ assms], blast intro: service_step.intros)+

lemma raft_publishes:
  assumes "holds env rs s" "raft_update_all_checkpoints env now order rs = (rs', Inr b)" "is_local_leader env rs"
  shows "raft_step env gen hash (4 * length order) rs rs'"
  by (rule raft_step_operation [OF _ assms(1)])
    (use assms in \<open>auto simp: raft_update_all_checkpoints_def intro: service_step.publish\<close>)

lemma raft_step_simulates:
  assumes "raft_step env gen hash w rs rs'" "raft_env_ok env" "id_source gen"
    "holds env rs s" "only_writer env rs" "mode s = rf_mode rs" "service_inv gen s" "saveable s"
  shows "\<exists>s'. service_step gen hash w s s' \<and> holds env rs' s' \<and> only_writer env rs' \<and> mode s' = rf_mode rs' \<and>
      service_inv gen s' \<and> saveable s'"
  using assms(1)
proof cases
  case (acknowledged body s0)
  with holds_unique [OF assms(4)] have step: "body s = Inr (s', y) \<Longrightarrow> service_step gen hash w s s'" for s' y by blast
  have "\<exists>s'. body s = Inr (s', ()) \<and> holds env rs' s' \<and> only_writer env rs' \<and> rf_mode rs' = rf_mode rs"
    by (rule raft_write_applies [OF acknowledged(1) assms(2,4,5,6)])
      (use service_step_saveable [OF step assms(3,7,8)] in blast)
  then obtain s' where s': "body s = Inr (s', ())" "holds env rs' s'" "only_writer env rs'" "rf_mode rs' = rf_mode rs"
    by blast
  with service_step_saveable [OF step [OF s'(1)] assms(3,7,8)] step [OF s'(1)] assms(6) show ?thesis by auto
qed

lemma raft_run_simulates:
  assumes "raft_run env gen hash n rs rs'" "raft_env_ok env" "id_source gen"
    "holds env rs s" "only_writer env rs" "mode s = rf_mode rs" "service_inv gen s" "saveable s"
  shows "\<exists>s'. service_run gen hash n s s' \<and> holds env rs' s' \<and> only_writer env rs' \<and> mode s' = rf_mode rs' \<and>
      service_inv gen s' \<and> saveable s'"
  using assms
proof (induction rule: raft_run.induct)
  case (none rs)
  then show ?case using service_run.stop by blast
next
  case (more n rs rs1 w rs2)
  then obtain s1 where s1: "service_run gen hash n s s1" "holds env rs1 s1" "only_writer env rs1" "mode s1 = rf_mode rs1"
    "service_inv gen s1" "saveable s1" by blast
  from raft_step_simulates [OF more.hyps(2) more.prems(1,2) s1(2-6)] service_run.next_step [OF s1(1)]
  show ?case by blast
qed

lemma fresh_holds:
  assumes "re_client_status env (rf_raft rs) service_state_key = None" "orders_ok env"
  shows "holds env rs (service_new (rf_id_seq rs) (rf_mode rs))"
proof -
  from assms(2) have "iter_order (re_key_order env snapshot_default) (sn_latest_committed_checkpoint_id snapshot_default)"
    by (auto simp: orders_ok_def)
  then have "re_key_order env snapshot_default = []"
    by (simp add: iter_order_def snapshot_default_def)
  with assms(1) show ?thesis
    by (simp add: holds_def read_snapshot_state_def restored_def service_new_def)
qed


text \<open>
  C32. An acknowledged write can be lost. The serial numbers of writes are counted per node from
  zero, and the store drops a write whose number is the last one it has seen from the service,
  whichever node wrote it: when the counter of a node is one below that number, its next write
  reports success and leaves the replicated state as it was.
\<close>

theorem acknowledged_write_is_dropped:
  assumes "memstore_applies env" "raft_write_state env body rs = (rs', Inr x)" "holds env rs s"
    "re_client_serial env (rf_raft rs) service_state_key = Some (rf_write_serial rs + 1)"
  shows "read_snapshot_state env rs' = read_snapshot_state env rs"
proof -
  from raft_write_state_Inr [OF assms(2,3)] obtain state js raft' where
    "body s = Inr (state, x)" "re_to_json env (snapshot_state (re_extension_order env state) state) = Inr js"
    and applied: "re_client_write env service_state_key (rf_write_serial rs + 1) js (rf_raft rs) = (raft', Inr ())"
    and rs': "rs' = rs\<lparr>rf_id_seq := id_seq state, rf_raft := raft', rf_write_serial := rf_write_serial rs + 1\<rparr>" .
  from applied assms(1,4)
  have "re_client_status env raft' service_state_key = re_client_status env (rf_raft rs) service_state_key"
    by (auto simp: memstore_applies_def)
  with rs' show ?thesis by (simp add: read_snapshot_state_def)
qed

subsection \<open>Instances\<close>

text \<open>
  A group of one node: the store is a map from clients to the last serial number and the status,
  and two snapshots have an encoding.
\<close>

definition sample_env :: "service_snapshot \<Rightarrow> (string, u64 \<times> string) hash_map raft_env" where
  "sample_env sn =
     \<lparr>re_ensure_linearizable = (\<lambda>r. (r, Inr ())),
      re_client_status = (\<lambda>r key. map_option snd (fmlookup r key)),
      re_client_serial = (\<lambda>r key. map_option fst (fmlookup r key)),
      re_client_write = (\<lambda>key serial status r.
        (if map_option fst (fmlookup r key) = Some serial then r else fmupd key (serial, status) r, Inr ())),
      re_current_leader = (\<lambda>_. Some 1),
      re_initialize = (\<lambda>_ r. (r, Init_Ok)),
      re_to_json = (\<lambda>x. if x = snapshot_default then Inr ''0'' else if x = sn then Inr ''1'' else Inl ''unsupported''),
      re_from_json = (\<lambda>t. if t = ''0'' then Inr snapshot_default else if t = ''1'' then Inr sn else Inl ''unknown''),
      re_key_order = (\<lambda>x. sorted_list_of_fset (fmdom (sn_latest_committed_checkpoint_id x))),
      re_extension_order = (\<lambda>s. sorted_list_of_fset (fmdom (latest_committed_checkpoint_id s)))\<rparr>"

lemma sample_env_ok: "raft_env_ok (sample_env sn)"
  by (auto simp: raft_env_ok_def memstore_applies_def json_restores_def orders_ok_def linearizable_keeps_def
      sample_env_def iter_order_def fmdom'_alt_def sorted_list_of_fset.rep_eq split: if_splits)

definition sample_table :: create_table_t where
  "sample_table = \<lparr>crt_name = ''t'', crt_tags = fmempty, crt_serving = None, crt_support = None,
     crt_dynamodb = None, crt_mongodb = None, crt_redis = None\<rparr>"

definition sample_created :: service where
  "sample_created = (service_new 0 ephemeral_default)
     \<lparr>tables := fmupd ''t'' (from_create_table sample_table) fmempty, not_compacted_checkpoint_ids := fmupd ''t'' [] fmempty\<rparr>"

definition sample_node :: "(string, u64 \<times> string) hash_map \<Rightarrow> (string, u64 \<times> string) hash_map raft_service" where
  "sample_node store =
     \<lparr>rf_mode = ephemeral_default,
      rf_config = \<lparr>rc_cluster_name = ''c'', rc_node_id = 1, rc_advertise_address = ''n1'', rc_bootstrap = True,
        rc_peers = fmupd 1 ''n1'' fmempty\<rparr>,
      rf_raft = store, rf_write_serial = 0, rf_peer_addresses = fmupd 1 ''n1'' fmempty, rf_id_seq = 0\<rparr>"

abbreviation sample_group :: "(string, u64 \<times> string) hash_map raft_env" where
  "sample_group \<equiv> sample_env (snapshot_state [] sample_created)"

lemma sample_creates: "create_table sample_table (service_new 0 ephemeral_default) = Inr (sample_created, True)"
  by (simp add: create_table_def sample_created_def service_new_def from_snapshot_def snapshot_default_def
      sample_table_def from_create_table_def)

lemma sample_snapshot_new: "snapshot_state [] sample_created \<noteq> snapshot_default"
proof
  assume "snapshot_state [] sample_created = snapshot_default"
  then have "sn_tables (snapshot_state [] sample_created) = sn_tables snapshot_default" by simp
  then show False by (simp add: snapshot_state_def snapshot_default_def sample_created_def)
qed

lemma sample_orders: "re_extension_order sample_group sample_created = []" "re_key_order sample_group snapshot_default = []"
  by (simp_all add: sample_env_def sample_created_def service_new_def from_snapshot_def snapshot_default_def
      deserialize_latest_committed_checkpoint_id_def rekey_def sorted_list_of_fset.rep_eq)

lemma sample_restored:
  "restored sample_group (sample_node store) snapshot_default = service_new 0 ephemeral_default"
  unfolding restored_def sample_orders by (simp add: sample_node_def service_new_def)

lemma sample_first_write:
  assumes "read_snapshot_state sample_group (sample_node store) = Inr snapshot_default"
  shows "\<exists>rs'. raft_create_table sample_group sample_table (sample_node store) = (rs', Inr True)"
proof -
  have json: "re_to_json sample_group (snapshot_state [] sample_created) = Inr ''1''"
    using sample_snapshot_new by (simp add: sample_env_def)
  obtain raft' where "re_client_write sample_group service_state_key 1 ''1'' store = (raft', Inr ())"
    by (simp add: sample_env_def)
  moreover have "rf_raft (sample_node store) = store" "rf_write_serial (sample_node store) = 0"
    by (simp_all add: sample_node_def)
  ultimately show ?thesis
    using assms json
    by (simp add: raft_create_table_def raft_write_state_def sample_restored sample_creates sample_orders(1)
        write_snapshot_state_def)
qed


text \<open>
  Another node wrote with serial number 1; the first write of this node, which creates a table, is
  acknowledged, and the table is not there.
\<close>

lemma acknowledged_write_is_dropped_witness:
  "\<exists>rs'. raft_create_table sample_group sample_table (sample_node (fmupd service_state_key (1, ''0'') fmempty)) = (rs', Inr True) \<and>
     read_snapshot_state sample_group rs' = Inr snapshot_default \<and>
     fmlookup (sn_tables snapshot_default) ''t'' = None"
proof -
  let ?rs = "sample_node (fmupd service_state_key (1, ''0'') fmempty)"
  have read: "read_snapshot_state sample_group ?rs = Inr snapshot_default"
    by (simp add: read_snapshot_state_def sample_env_def sample_node_def)
  then obtain rs' where create: "raft_create_table sample_group sample_table ?rs = (rs', Inr True)"
    using sample_first_write by blast
  have hold: "holds sample_group ?rs (service_new 0 ephemeral_default)"
    using read sample_restored by (auto simp: holds_def)
  have "re_client_serial sample_group (rf_raft ?rs) service_state_key = Some (rf_write_serial ?rs + 1)"
    by (simp add: sample_env_def sample_node_def)
  from acknowledged_write_is_dropped [OF _ create [unfolded raft_create_table_def] hold this] sample_env_ok read create
  show ?thesis by (auto simp: raft_env_ok_def snapshot_default_def)
qed

end
