(* ===== verification/Query_Path.thy ===== *)
theory Query_Path
  imports Checkpoint Catalog "HOL-Library.Multiset"
begin

section \<open>Predicates, read plans and pruning by statistics\<close>

text \<open>
  \<^verbatim>\<open>query_core/src/query_path.rs\<close>, \<^verbatim>\<open>read_plan.rs\<close> and \<^verbatim>\<open>serving_plan.rs\<close>: the
  predicates of a query, the plan built from a request, and the decision from the column
  statistics of a file or of a row group whether any of its rows can satisfy the predicates.
  \<open>matches_predicate\<close> is the meaning of a predicate on the value of a row, with numbers compared
  by their exact value, as the query engine does; \<open>describes_column\<close> is what Iceberg promises of
  column statistics. Pruning compares numbers in double precision instead: the lemmas show that a
  file with a matching row is nevertheless kept, provided the operands of strict bounds are exact
  in double precision.
\<close>

subsection \<open>Predicates and plans\<close>

record serving_predicate =
  svp_field :: string
  svp_eq :: "json option"
  svp_in_values :: "json list option"
  svp_gt :: "json option"
  svp_gte :: "json option"
  svp_lt :: "json option"
  svp_lte :: "json option"

record serving_sort =
  svs_field :: string
  svs_descending :: bool

record serving_request_plan =
  srp_select :: "string list option"
  srp_filters :: "serving_predicate list"
  srp_aggregate :: "serving_aggregate_spec option"
  srp_order_by :: "serving_sort list"
  srp_limit :: "nat option"
  srp_allow_slow_path :: bool
  srp_explain :: bool

datatype serving_query_classification = FastPath | SlowPath | Rejected

record read_predicate =
  rp_field :: string
  rp_eq :: "json option"
  rp_in_values :: "json list option"
  rp_gt :: "json option"
  rp_gte :: "json option"
  rp_lt :: "json option"
  rp_lte :: "json option"

record read_sort =
  rs_field :: string
  rs_descending :: bool

record read_plan =
  rpl_select :: "string list option"
  rpl_filters :: "read_predicate list"
  rpl_aggregate :: "serving_aggregate_spec option"
  rpl_order_by :: "read_sort list"
  rpl_limit :: "nat option"
  rpl_offset :: nat
  rpl_search_after :: "json list option"
  rpl_allow_slow_path :: bool
  rpl_explain :: bool

record query_predicate =
  qp_field :: string
  qp_eq :: "json option"
  qp_in_values :: "json list option"
  qp_gt :: "json option"
  qp_gte :: "json option"
  qp_lt :: "json option"
  qp_lte :: "json option"

definition normalized_limit :: "nat \<Rightarrow> nat \<Rightarrow> read_plan \<Rightarrow> nat" where
  "normalized_limit default_limit max_limit plan =
     min (case rpl_limit plan of Some l \<Rightarrow> l | None \<Rightarrow> default_limit) max_limit"

definition uses_exact_filters :: "read_plan \<Rightarrow> bool" where
  "uses_exact_filters plan \<longleftrightarrow>
     list_ex (\<lambda>p. rp_eq p \<noteq> None \<or> rp_in_values p \<noteq> None) (rpl_filters plan)"

definition uses_range_filters :: "read_plan \<Rightarrow> bool" where
  "uses_range_filters plan \<longleftrightarrow>
     list_ex (\<lambda>p. rp_gt p \<noteq> None \<or> rp_gte p \<noteq> None \<or> rp_lt p \<noteq> None \<or> rp_lte p \<noteq> None)
       (rpl_filters plan)"

definition base_extension_suffixes :: "read_plan \<Rightarrow> bool \<Rightarrow> string list" where
  "base_extension_suffixes plan calculate_score = (if calculate_score then [''search_index''] else [])"

definition exact_extension_suffixes :: "read_plan \<Rightarrow> string list" where
  "exact_extension_suffixes plan = (if uses_exact_filters plan then [''exact_index''] else [])"

definition read_predicate_from :: "serving_predicate \<Rightarrow> read_predicate" where
  "read_predicate_from p =
     \<lparr>rp_field = svp_field p, rp_eq = svp_eq p, rp_in_values = svp_in_values p, rp_gt = svp_gt p,
      rp_gte = svp_gte p, rp_lt = svp_lt p, rp_lte = svp_lte p\<rparr>"

definition query_predicate_from :: "read_predicate \<Rightarrow> query_predicate" where
  "query_predicate_from p =
     \<lparr>qp_field = rp_field p, qp_eq = rp_eq p, qp_in_values = rp_in_values p, qp_gt = rp_gt p,
      qp_gte = rp_gte p, qp_lt = rp_lt p, qp_lte = rp_lte p\<rparr>"

definition read_sort_from :: "serving_sort \<Rightarrow> read_sort" where
  "read_sort_from s = \<lparr>rs_field = svs_field s, rs_descending = svs_descending s\<rparr>"

definition read_plan_from :: "serving_request_plan \<Rightarrow> read_plan" where
  "read_plan_from plan =
     \<lparr>rpl_select = srp_select plan, rpl_filters = map read_predicate_from (srp_filters plan),
      rpl_aggregate = srp_aggregate plan, rpl_order_by = map read_sort_from (srp_order_by plan),
      rpl_limit = srp_limit plan, rpl_offset = 0, rpl_search_after = None,
      rpl_allow_slow_path = srp_allow_slow_path plan, rpl_explain = srp_explain plan\<rparr>"

subsection \<open>Grouping files by schema\<close>

text \<open>
  \<open>add_to_group P x groups\<close> pushes \<open>x\<close> to the first group whose first element satisfies \<open>P\<close>,
  and opens a new group at the end when there is none.
\<close>

fun add_to_group :: "('a \<Rightarrow> bool) \<Rightarrow> 'a \<Rightarrow> 'a list list \<Rightarrow> 'a list list" where
  "add_to_group P x [] = [[x]]"
| "add_to_group P x (g # gs) =
     (if (case g of [] \<Rightarrow> False | e # _ \<Rightarrow> P e) then (g @ [x]) # gs else g # add_to_group P x gs)"

definition group_files_by_schema :: "file_descriptor list \<Rightarrow> file_descriptor list list" where
  "group_files_by_schema files =
     foldl (\<lambda>groups file. add_to_group (\<lambda>existing. fd_schema existing = fd_schema file) file groups)
       [] files"

subsection \<open>Comparison and pruning\<close>

datatype ordering = Less | Equal | Greater

definition cmp :: "'a::linorder \<Rightarrow> 'a \<Rightarrow> ordering" where
  "cmp a b = (if a < b then Less else if a = b then Equal else Greater)"

fun compare_scalar_values :: "json \<Rightarrow> json \<Rightarrow> ordering option" where
  "compare_scalar_values (JNumber l) (JNumber r) = Some (cmp (as_f64 l) (as_f64 r))"
| "compare_scalar_values (JString l) (JString r) = Some (cmp l r)"
| "compare_scalar_values (JBool l) (JBool r) = Some (cmp l r)"
| "compare_scalar_values _ _ = None"

definition column_is_all_null :: "iceberg_column_stats \<Rightarrow> u64 option \<Rightarrow> bool" where
  "column_is_all_null column_stats record_count =
     (case (cs_null_count column_stats, record_count) of
        (Some nulls, Some records) \<Rightarrow> nulls \<ge> records
      | _ \<Rightarrow> False)"

text \<open>\<open>excluded x bound bad\<close>: both are given and they compare as one of \<open>bad\<close>.\<close>

definition excluded :: "json option \<Rightarrow> json option \<Rightarrow> ordering list \<Rightarrow> bool" where
  "excluded x bound bad =
     (case (x, bound) of
        (Some v, Some b) \<Rightarrow> (case compare_scalar_values v b of Some c \<Rightarrow> c \<in> set bad | None \<Rightarrow> False)
      | _ \<Rightarrow> False)"

definition equality_may_match :: "iceberg_column_stats \<Rightarrow> u64 option \<Rightarrow> json \<Rightarrow> bool" where
  "equality_may_match cs record_count value =
     (if column_is_all_null cs record_count then False
      else if excluded (Some value) (cs_lower_bound cs) [Less] then False
      else if excluded (Some value) (cs_upper_bound cs) [Greater] then False
      else True)"

definition range_may_match :: "iceberg_column_stats \<Rightarrow> u64 option \<Rightarrow> query_predicate \<Rightarrow> bool" where
  "range_may_match cs record_count p =
     (if column_is_all_null cs record_count then False
      else if excluded (cs_upper_bound cs) (qp_gt p) [Less, Equal] then False
      else if excluded (cs_upper_bound cs) (qp_gte p) [Less] then False
      else if excluded (cs_lower_bound cs) (qp_lt p) [Greater, Equal] then False
      else if excluded (cs_lower_bound cs) (qp_lte p) [Greater] then False
      else True)"

definition predicate_may_match_stats ::
    "iceberg_column_stats \<Rightarrow> u64 option \<Rightarrow> query_predicate \<Rightarrow> bool" where
  "predicate_may_match_stats cs record_count p =
     (case qp_eq p of
        Some v \<Rightarrow> equality_may_match cs record_count v
      | None \<Rightarrow>
          (case qp_in_values p of
             Some vs \<Rightarrow> list_ex (equality_may_match cs record_count) vs
           | None \<Rightarrow> range_may_match cs record_count p))"

definition predicate_may_match_file :: "iceberg_file_stats \<Rightarrow> query_predicate \<Rightarrow> bool" where
  "predicate_may_match_file st p =
     (case find (\<lambda>cs. cs_field_name cs = qp_field p) (st_columns st) of
        None \<Rightarrow> True
      | Some cs \<Rightarrow> predicate_may_match_stats cs (st_record_count st) p)"

definition predicate_may_match_row_group :: "iceberg_row_group_stats \<Rightarrow> query_predicate \<Rightarrow> bool" where
  "predicate_may_match_row_group rg p =
     (case find (\<lambda>cs. cs_field_name cs = qp_field p) (rg_columns rg) of
        None \<Rightarrow> True
      | Some cs \<Rightarrow> predicate_may_match_stats cs (rg_record_count rg) p)"

definition file_may_match_predicates :: "iceberg_file_stats \<Rightarrow> query_predicate list \<Rightarrow> bool" where
  "file_may_match_predicates st ps = list_all (predicate_may_match_file st) ps"

definition row_group_may_match_predicates ::
    "iceberg_row_group_stats \<Rightarrow> query_predicate list \<Rightarrow> bool" where
  "row_group_may_match_predicates rg ps = list_all (predicate_may_match_row_group rg) ps"

subsection \<open>Grouping loses no file\<close>

lemma concat_add_to_group: "mset (concat (add_to_group P x gs)) = add_mset x (mset (concat gs))"
  by (induction P x gs rule: add_to_group.induct) (auto split: list.splits)

lemma add_to_group_nonempty: "[] \<notin> set gs \<Longrightarrow> [] \<notin> set (add_to_group P x gs)"
  by (induction P x gs rule: add_to_group.induct) (auto split: list.splits)

lemma foldl_groups:
  "mset (concat (foldl (\<lambda>gs x. add_to_group (P x) x gs) gs0 xs)) = mset (concat gs0) + mset xs"
  by (induction xs arbitrary: gs0) (simp_all add: concat_add_to_group)

lemma group_files_mset: "mset (concat (group_files_by_schema files)) = mset files"
  using foldl_groups [of "\<lambda>file existing. fd_schema existing = fd_schema file" "[]" files]
  by (simp add: group_files_by_schema_def)

subsection \<open>The meaning of a predicate\<close>

fun sql_compare :: "json \<Rightarrow> json \<Rightarrow> ordering option" where
  "sql_compare (JNumber l) (JNumber r) = Some (cmp (exact l) (exact r))"
| "sql_compare (JString l) (JString r) = Some (cmp l r)"
| "sql_compare (JBool l) (JBool r) = Some (cmp l r)"
| "sql_compare _ _ = None"

definition sql_holds :: "json \<Rightarrow> ordering list \<Rightarrow> json option \<Rightarrow> bool" where
  "sql_holds v good operand =
     (case operand of
        None \<Rightarrow> True
      | Some x \<Rightarrow> (case sql_compare v x of None \<Rightarrow> False | Some c \<Rightarrow> c \<in> set good))"

definition matches_predicate :: "query_predicate \<Rightarrow> json \<Rightarrow> bool" where
  "matches_predicate p v =
     (case qp_eq p of
        Some x \<Rightarrow> sql_compare v x = Some Equal
      | None \<Rightarrow>
          (case qp_in_values p of
             Some xs \<Rightarrow> list_ex (\<lambda>x. sql_compare v x = Some Equal) xs
           | None \<Rightarrow> sql_holds v [Greater] (qp_gt p) \<and> sql_holds v [Greater, Equal] (qp_gte p) \<and>
               sql_holds v [Less] (qp_lt p) \<and> sql_holds v [Less, Equal] (qp_lte p)))"

definition has_operator :: "query_predicate \<Rightarrow> bool" where
  "has_operator p \<longleftrightarrow> qp_eq p \<noteq> None \<or> qp_in_values p \<noteq> None \<or> qp_gt p \<noteq> None \<or>
     qp_gte p \<noteq> None \<or> qp_lt p \<noteq> None \<or> qp_lte p \<noteq> None"

definition row_value :: "json_map \<Rightarrow> string \<Rightarrow> json" where
  "row_value row field = (case jm_get row field of Some v \<Rightarrow> v | None \<Rightarrow> JNull)"

definition row_matches :: "query_predicate list \<Rightarrow> json_map \<Rightarrow> bool" where
  "row_matches ps row = list_all (\<lambda>p. matches_predicate p (row_value row (qp_field p))) ps"

text \<open>
  A float of \<^verbatim>\<open>serde_json\<close> is a double: below \<open>2 ^ 53\<close> in magnitude, or an integer that double
  precision represents.
\<close>

fun double_json :: "json \<Rightarrow> bool" where
  "double_json (JNumber (Float r)) \<longleftrightarrow>
     \<bar>r\<bar> < 2 ^ 53 \<or> (of_int \<lfloor>r\<rfloor> = r \<and> f64_of_int \<lfloor>r\<rfloor> = r)"
| "double_json _ \<longleftrightarrow> True"

fun exact_json :: "json \<Rightarrow> bool" where
  "exact_json (JNumber n) \<longleftrightarrow> fits_f64 n"
| "exact_json _ \<longleftrightarrow> True"

definition opt_all :: "('a \<Rightarrow> bool) \<Rightarrow> 'a option \<Rightarrow> bool" where
  "opt_all P x = (case x of None \<Rightarrow> True | Some v \<Rightarrow> P v)"

text \<open>
  What statistics promise of the values of a column: the counts are the numbers of nulls and of
  rows, and every value that is not null lies between the bounds.
\<close>

definition describes_column :: "iceberg_column_stats \<Rightarrow> u64 option \<Rightarrow> json list \<Rightarrow> bool" where
  "describes_column cs record_count vs \<longleftrightarrow>
     opt_all (\<lambda>n. unat n = length (filter (\<lambda>v. v = JNull) vs)) (cs_null_count cs) \<and>
     opt_all (\<lambda>n. unat n = length vs) record_count \<and>
     (\<forall>v \<in> set vs. v \<noteq> JNull \<longrightarrow>
        sql_holds v [Greater, Equal] (cs_lower_bound cs) \<and> sql_holds v [Less, Equal] (cs_upper_bound cs))"

definition bounds_ok :: "iceberg_column_stats \<Rightarrow> bool" where
  "bounds_ok cs \<longleftrightarrow> opt_all double_json (cs_lower_bound cs) \<and> opt_all double_json (cs_upper_bound cs)"

text \<open>The bound a strict comparison is decided by is exact in double precision.\<close>

definition strict_exact :: "query_predicate \<Rightarrow> iceberg_column_stats \<Rightarrow> bool" where
  "strict_exact p cs \<longleftrightarrow> (qp_gt p \<noteq> None \<longrightarrow> opt_all exact_json (cs_upper_bound cs)) \<and>
     (qp_lt p \<noteq> None \<longrightarrow> opt_all exact_json (cs_lower_bound cs))"

definition operands_ok :: "query_predicate \<Rightarrow> bool" where
  "operands_ok p \<longleftrightarrow> has_operator p \<and>
     opt_all double_json (qp_eq p) \<and> opt_all (list_all double_json) (qp_in_values p) \<and>
     opt_all (\<lambda>v. double_json v \<and> exact_json v) (qp_gt p) \<and> opt_all double_json (qp_gte p) \<and>
     opt_all (\<lambda>v. double_json v \<and> exact_json v) (qp_lt p) \<and> opt_all double_json (qp_lte p)"

subsection \<open>Double precision keeps the order\<close>

lemma cmp_simps [simp]:
  "cmp a b = Less \<longleftrightarrow> a < b" "cmp a b = Equal \<longleftrightarrow> a = b" "cmp a b = Greater \<longleftrightarrow> b < a"
  by (auto simp: cmp_def)

lemma f64_of_int_le_double:
  assumes "double_json (JNumber (Float r))" "of_int i \<le> r"
  shows "f64_of_int i \<le> r"
proof (cases "\<bar>r\<bar> < 2 ^ 53")
  case True
  show ?thesis
  proof (cases "\<bar>i\<bar> \<le> 2 ^ 53")
    case True
    with assms(2) show ?thesis by (simp add: f64_of_int_exact)
  next
    case False
    have "of_int i < (2 ^ 53 :: rat)" using assms(2) True by linarith
    then have "i < 2 ^ 53" by (metis of_int_less_iff of_int_numeral of_int_power)
    with False have "i \<le> - (2 ^ 53)" by linarith
    then have "f64_of_int i \<le> f64_of_int (- (2 ^ 53))" by (rule f64_of_int_mono)
    also have "\<dots> = of_int (- (2 ^ 53))" by (rule f64_of_int_exact) simp
    also have "\<dots> \<le> r" using True by simp
    finally show ?thesis .
  qed
next
  case False
  with assms(1) have r: "of_int \<lfloor>r\<rfloor> = r" "f64_of_int \<lfloor>r\<rfloor> = r" by auto
  from assms(2) have "i \<le> \<lfloor>r\<rfloor>" by (simp add: le_floor_iff)
  from f64_of_int_mono [OF this] r(2) show ?thesis by simp
qed

lemma double_le_f64_of_int:
  assumes "double_json (JNumber (Float r))" "r \<le> of_int i"
  shows "r \<le> f64_of_int i"
proof (cases "\<bar>r\<bar> < 2 ^ 53")
  case True
  show ?thesis
  proof (cases "\<bar>i\<bar> \<le> 2 ^ 53")
    case True
    with assms(2) show ?thesis by (simp add: f64_of_int_exact)
  next
    case False
    have "- (2 ^ 53) < (of_int i :: rat)" using assms(2) True by linarith
    then have "- (2 ^ 53) < i" by (metis of_int_less_iff of_int_minus of_int_numeral of_int_power)
    with False have "2 ^ 53 \<le> i" by linarith
    then have "f64_of_int (2 ^ 53) \<le> f64_of_int i" by (rule f64_of_int_mono)
    moreover have "f64_of_int (2 ^ 53) = of_int (2 ^ 53)" by (rule f64_of_int_exact) simp
    moreover have "r \<le> of_int (2 ^ 53)" using True by simp
    ultimately show ?thesis by linarith
  qed
next
  case False
  with assms(1) have r: "of_int \<lfloor>r\<rfloor> = r" "f64_of_int \<lfloor>r\<rfloor> = r" by auto
  from assms(2) r(1) have "\<lfloor>r\<rfloor> \<le> i" by (metis of_int_le_iff)
  from f64_of_int_mono [OF this] r(2) show ?thesis by simp
qed

lemma number_integer_or_float:
  obtains i where "exact n = of_int i" "as_f64 n = f64_of_int i" | r where "n = Float r"
  by (cases n) (simp_all del: of_int_uint)

lemma as_f64_mono:
  assumes "double_json (JNumber a)" "double_json (JNumber b)" "exact a \<le> exact b"
  shows "as_f64 a \<le> as_f64 b"
proof (rule number_integer_or_float [of a]; rule number_integer_or_float [of b])
  fix i j assume "exact a = of_int i" "as_f64 a = f64_of_int i" "exact b = of_int j" "as_f64 b = f64_of_int j"
  with assms(3) f64_of_int_mono [of i j] show ?thesis by simp
qed (use assms f64_of_int_le_double double_le_f64_of_int in \<open>auto simp del: double_json.simps\<close>)

text \<open>
  An exact comparison is refined by the one in double precision: the same result, or \<open>Equal\<close>.
\<close>

lemma compare_weak:
  assumes "sql_compare a b = Some c" "double_json a" "double_json b"
  shows "\<exists>c'. compare_scalar_values a b = Some c' \<and> (c' = c \<or> c' = Equal \<and> c \<noteq> Equal)"
proof (cases "\<exists>l r. a = JNumber l \<and> b = JNumber r")
  case True
  then obtain l r where ab: "a = JNumber l" "b = JNumber r" by blast
  with assms have "cmp (exact l) (exact r) = c" by simp
  then show ?thesis using ab assms as_f64_mono [of l r] as_f64_mono [of r l]
    by (cases c) (auto simp del: double_json.simps)
next
  case False
  with assms(1) have "compare_scalar_values a b = Some c"
    by (cases "(a, b)" rule: sql_compare.cases) auto
  then show ?thesis by simp
qed

lemma compare_exact: "exact_json a \<Longrightarrow> exact_json b \<Longrightarrow> compare_scalar_values a b = sql_compare a b"
  by (cases "(a, b)" rule: sql_compare.cases) (auto simp: as_f64_exact)

lemma sql_compare_Some:
  "sql_compare a b = Some c \<longleftrightarrow>
     (\<exists>l r. a = JNumber l \<and> b = JNumber r \<and> cmp (exact l) (exact r) = c) \<or>
     (\<exists>l r. a = JString l \<and> b = JString r \<and> cmp l r = c) \<or>
     (\<exists>l r. a = JBool l \<and> b = JBool r \<and> cmp l r = c)"
  by (cases "(a, b)" rule: sql_compare.cases) auto

lemma sql_compare_subst: "sql_compare v x = Some Equal \<Longrightarrow> sql_compare v b = Some c \<Longrightarrow> sql_compare x b = Some c"
  by (cases v; auto simp: sql_compare_Some)+

lemma sql_compare_strict:
  "sql_compare v x = Some Greater \<Longrightarrow> sql_compare v b = Some Less \<or> sql_compare v b = Some Equal \<Longrightarrow>
     sql_compare b x = Some Greater"
  "sql_compare v x = Some Less \<Longrightarrow> sql_compare v b = Some Greater \<or> sql_compare v b = Some Equal \<Longrightarrow>
     sql_compare b x = Some Less"
  by (cases v; auto simp: sql_compare_Some)+

lemma sql_compare_weak:
  "sql_compare v x = Some Greater \<or> sql_compare v x = Some Equal \<Longrightarrow>
   sql_compare v b = Some Less \<or> sql_compare v b = Some Equal \<Longrightarrow>
     sql_compare b x = Some Greater \<or> sql_compare b x = Some Equal"
  "sql_compare v x = Some Less \<or> sql_compare v x = Some Equal \<Longrightarrow>
   sql_compare v b = Some Greater \<or> sql_compare v b = Some Equal \<Longrightarrow>
     sql_compare b x = Some Less \<or> sql_compare b x = Some Equal"
  by (cases v; auto simp: sql_compare_Some)+

subsection \<open>A matching value is not pruned\<close>

lemma describes_not_all_null:
  assumes "describes_column cs rc vs" "v \<in> set vs" "v \<noteq> JNull"
  shows "\<not> column_is_all_null cs rc"
proof -
  have "length (filter (\<lambda>v. v = JNull) vs) < length vs"
    using assms(2,3) by (meson length_filter_less)
  then show ?thesis
    using assms(1) by (auto simp: column_is_all_null_def describes_column_def opt_all_def word_le_nat_alt
        split: option.splits)
qed

lemma sql_holds_simps:
  "sql_holds v good (Some x) \<longleftrightarrow> (\<exists>c. sql_compare v x = Some c \<and> c \<in> set good)" "sql_holds v good None"
  by (auto simp: sql_holds_def split: option.split)

lemma opt_all_simps [simp]: "opt_all P None" "opt_all P (Some x) = P x"
  by (simp_all add: opt_all_def)

lemma describes_bounds:
  assumes "describes_column cs rc vs" "v \<in> set vs" "v \<noteq> JNull"
  shows "cs_lower_bound cs = Some b \<Longrightarrow> sql_compare v b = Some Greater \<or> sql_compare v b = Some Equal"
    "cs_upper_bound cs = Some b \<Longrightarrow> sql_compare v b = Some Less \<or> sql_compare v b = Some Equal"
  using assms by (auto simp: describes_column_def sql_holds_simps)

lemma excluded_iff:
  "excluded x b bad \<longleftrightarrow> (\<exists>v w c. x = Some v \<and> b = Some w \<and> compare_scalar_values v w = Some c \<and> c \<in> set bad)"
  by (auto simp: excluded_def split: option.splits)

lemma equality_sound:
  assumes "describes_column cs rc vs" "v \<in> set vs" "bounds_ok cs" "double_json x" "sql_compare v x = Some Equal"
  shows "equality_may_match cs rc x"
proof -
  from assms(5) have v: "v \<noteq> JNull" by auto
  note bounds = describes_bounds [OF assms(1,2) v]
  have "\<not> excluded (Some x) (cs_lower_bound cs) [Less]"
  proof
    assume "excluded (Some x) (cs_lower_bound cs) [Less]"
    then obtain b where b: "cs_lower_bound cs = Some b" "compare_scalar_values x b = Some Less"
      by (auto simp: excluded_iff)
    from bounds(1) [OF b(1)] sql_compare_subst [OF assms(5)]
    have "sql_compare x b = Some Greater \<or> sql_compare x b = Some Equal" by blast
    with compare_weak [of x b] assms(3,4) b show False by (auto simp: bounds_ok_def)
  qed
  moreover have "\<not> excluded (Some x) (cs_upper_bound cs) [Greater]"
  proof
    assume "excluded (Some x) (cs_upper_bound cs) [Greater]"
    then obtain b where b: "cs_upper_bound cs = Some b" "compare_scalar_values x b = Some Greater"
      by (auto simp: excluded_iff)
    from bounds(2) [OF b(1)] sql_compare_subst [OF assms(5)]
    have "sql_compare x b = Some Less \<or> sql_compare x b = Some Equal" by blast
    with compare_weak [of x b] assms(3,4) b show False by (auto simp: bounds_ok_def)
  qed
  ultimately show ?thesis
    using describes_not_all_null [OF assms(1,2) v] by (simp add: equality_may_match_def)
qed

text \<open>
  The four bounds of a range. \<open>weak\<close> operands only need to be doubles, strict ones have to be
  exact together with the bound they are compared with.
\<close>

lemma not_excluded_weak:
  assumes "double_json b" "double_json x"
  shows "sql_compare b x = Some Greater \<or> sql_compare b x = Some Equal \<Longrightarrow> \<not> excluded (Some b) (Some x) [Less]"
    "sql_compare b x = Some Less \<or> sql_compare b x = Some Equal \<Longrightarrow> \<not> excluded (Some b) (Some x) [Greater]"
  using compare_weak [OF _ assms] by (auto simp: excluded_iff)

lemma not_excluded_strict:
  assumes "sql_compare b x = Some c" "exact_json b" "exact_json x" "c \<notin> set bad"
  shows "\<not> excluded (Some b) (Some x) bad"
  using compare_exact [OF assms(2,3)] assms(1,4) by (auto simp: excluded_iff)

lemma excluded_None [simp]: "\<not> excluded None b bad" "\<not> excluded a None bad"
  by (simp_all add: excluded_iff)

lemma range_sound:
  assumes "describes_column cs rc vs" "v \<in> set vs" "bounds_ok cs" "operands_ok p" "strict_exact p cs"
    and "matches_predicate p v" "qp_eq p = None" "qp_in_values p = None"
  shows "range_may_match cs rc p"
proof -
  from assms(4,6-8) have v: "v \<noteq> JNull"
    by (auto simp: matches_predicate_def operands_ok_def has_operator_def sql_holds_simps)
  note bounds = describes_bounds [OF assms(1,2) v]
  from assms(6-8) have m: "sql_holds v [Greater] (qp_gt p)" "sql_holds v [Greater, Equal] (qp_gte p)"
    "sql_holds v [Less] (qp_lt p)" "sql_holds v [Less, Equal] (qp_lte p)"
    by (simp_all add: matches_predicate_def)
  have "\<not> excluded (cs_upper_bound cs) (qp_gt p) [Less, Equal]"
  proof (cases "cs_upper_bound cs"; cases "qp_gt p")
    fix b x assume bx: "cs_upper_bound cs = Some b" "qp_gt p = Some x"
    with m(1) have "sql_compare v x = Some Greater" by (simp add: sql_holds_simps)
    from not_excluded_strict [OF sql_compare_strict(1) [OF this bounds(2) [OF bx(1)]]] assms(4,5) bx show ?thesis
      by (simp add: operands_ok_def strict_exact_def)
  qed simp_all
  moreover have "\<not> excluded (cs_lower_bound cs) (qp_lt p) [Greater, Equal]"
  proof (cases "cs_lower_bound cs"; cases "qp_lt p")
    fix b x assume bx: "cs_lower_bound cs = Some b" "qp_lt p = Some x"
    with m(3) have "sql_compare v x = Some Less" by (simp add: sql_holds_simps)
    from not_excluded_strict [OF sql_compare_strict(2) [OF this bounds(1) [OF bx(1)]]] assms(4,5) bx show ?thesis
      by (simp add: operands_ok_def strict_exact_def)
  qed simp_all
  moreover have "\<not> excluded (cs_upper_bound cs) (qp_gte p) [Less]"
  proof (cases "cs_upper_bound cs"; cases "qp_gte p")
    fix b x assume bx: "cs_upper_bound cs = Some b" "qp_gte p = Some x"
    with m(2) have "sql_compare v x = Some Greater \<or> sql_compare v x = Some Equal" by (auto simp: sql_holds_simps)
    from not_excluded_weak(1) [OF _ _ sql_compare_weak(1) [OF this bounds(2) [OF bx(1)]]] assms(3,4) bx show ?thesis
      by (simp add: bounds_ok_def operands_ok_def)
  qed simp_all
  moreover have "\<not> excluded (cs_lower_bound cs) (qp_lte p) [Greater]"
  proof (cases "cs_lower_bound cs"; cases "qp_lte p")
    fix b x assume bx: "cs_lower_bound cs = Some b" "qp_lte p = Some x"
    with m(4) have "sql_compare v x = Some Less \<or> sql_compare v x = Some Equal" by (auto simp: sql_holds_simps)
    from not_excluded_weak(2) [OF _ _ sql_compare_weak(2) [OF this bounds(1) [OF bx(1)]]] assms(3,4) bx show ?thesis
      by (simp add: bounds_ok_def operands_ok_def)
  qed simp_all
  ultimately show ?thesis
    using describes_not_all_null [OF assms(1,2) v] by (simp add: range_may_match_def)
qed

lemma stats_sound:
  assumes "describes_column cs rc vs" "v \<in> set vs" "bounds_ok cs" "operands_ok p" "strict_exact p cs"
    and "matches_predicate p v"
  shows "predicate_may_match_stats cs rc p"
proof (cases "qp_eq p")
  case (Some x)
  with assms equality_sound [OF assms(1-3)] show ?thesis
    by (simp add: predicate_may_match_stats_def matches_predicate_def operands_ok_def)
next
  case eq: None
  show ?thesis
  proof (cases "qp_in_values p")
    case (Some xs)
    with eq assms(6) obtain x where "x \<in> set xs" "sql_compare v x = Some Equal"
      by (auto simp: matches_predicate_def list_ex_iff)
    with eq Some assms(4) equality_sound [OF assms(1-3), of x] show ?thesis
      by (auto simp: predicate_may_match_stats_def operands_ok_def list_all_iff list_ex_iff)
  next
    case None
    with eq range_sound [OF assms] show ?thesis by (simp add: predicate_may_match_stats_def)
  qed
qed

text \<open>The statistics of a list of columns describe rows when each column does.\<close>

definition describes_columns ::
    "iceberg_column_stats list \<Rightarrow> u64 option \<Rightarrow> json_map list \<Rightarrow> bool" where
  "describes_columns columns rc rows \<longleftrightarrow>
     (\<forall>cs \<in> set columns. describes_column cs rc (map (\<lambda>row. row_value row (cs_field_name cs)) rows))"

definition usable_columns :: "query_predicate list \<Rightarrow> iceberg_column_stats list \<Rightarrow> bool" where
  "usable_columns ps columns \<longleftrightarrow> (\<forall>cs \<in> set columns. bounds_ok cs \<and>
     (\<forall>p \<in> set ps. qp_field p = cs_field_name cs \<longrightarrow> strict_exact p cs))"

lemma columns_sound:
  assumes "describes_columns columns rc rows" "row \<in> set rows" "row_matches ps row"
    and "list_all operands_ok ps" "usable_columns ps columns" "p \<in> set ps"
    and "find (\<lambda>cs. cs_field_name cs = qp_field p) columns = Some cs"
  shows "predicate_may_match_stats cs rc p"
proof -
  from assms(7) have cs: "cs \<in> set columns" "cs_field_name cs = qp_field p"
    by (auto simp: find_Some_iff)
  show ?thesis
  proof (rule stats_sound)
    show "describes_column cs rc (map (\<lambda>row. row_value row (cs_field_name cs)) rows)"
      using assms(1) cs(1) by (simp add: describes_columns_def)
    show "row_value row (qp_field p) \<in> set (map (\<lambda>row. row_value row (cs_field_name cs)) rows)"
      using assms(2) cs(2) by auto
    show "bounds_ok cs" "strict_exact p cs"
      using assms(5,6) cs by (auto simp: usable_columns_def)
    show "operands_ok p" "matches_predicate p (row_value row (qp_field p))"
      using assms(3,4,6) by (auto simp: list_all_iff row_matches_def)
  qed
qed

lemma file_sound:
  assumes "describes_columns (st_columns st) (st_record_count st) rows" "row \<in> set rows" "row_matches ps row"
    and "list_all operands_ok ps" "usable_columns ps (st_columns st)"
  shows "file_may_match_predicates st ps"
  using columns_sound [OF assms]
  by (auto simp: file_may_match_predicates_def predicate_may_match_file_def list_all_iff split: option.split)

lemma row_group_sound:
  assumes "describes_columns (rg_columns rg) (rg_record_count rg) rows" "row \<in> set rows" "row_matches ps row"
    and "list_all operands_ok ps" "usable_columns ps (rg_columns rg)"
  shows "row_group_may_match_predicates rg ps"
  using columns_sound [OF assms]
  by (auto simp: row_group_may_match_predicates_def predicate_may_match_row_group_def list_all_iff split: option.split)

end
