(* ===== verification/Serving_Prune.thy ===== *)
theory Serving_Prune
  imports Query_Path
begin

section \<open>The files a serving query reads\<close>

text \<open>
  The pruning stage of \<^verbatim>\<open>query_runtime/src/lakehouse_serving.rs\<close>: \<^verbatim>\<open>prune_candidate_files\<close>
  goes through the Iceberg files of a checkpoint and keeps those that identity partition values,
  file statistics and row group statistics do not rule out, with the accounting that admission
  control reads. The cache of row group statistics (\<^verbatim>\<open>query_lib/src/data_access.rs\<close>) is an
  argument: only its number of entries per file is looked at here. The property: a file with a row
  that satisfies the filters of the request is selected.
\<close>

subsection \<open>Artifacts and accounting\<close>

definition artifact_bloom_filter :: string where "artifact_bloom_filter = ''bloom-filter''"
definition artifact_file_stats :: string where "artifact_file_stats = ''file-stats''"
definition artifact_page_index :: string where "artifact_page_index = ''page-index''"
definition artifact_partition_spec :: string where "artifact_partition_spec = ''partition-spec''"
definition artifact_row_group_stats :: string where "artifact_row_group_stats = ''row-group-stats''"

record pruned_file_selection =
  pfs_selected_files :: "file_descriptor list"
  pfs_files_selected :: nat
  pfs_row_groups_considered :: nat
  pfs_row_groups_selected :: nat
  pfs_estimated_bytes :: u64
  pfs_artifacts_used :: "string list"
  pfs_metadata_files_cached :: nat
  pfs_metadata_row_groups_cached :: nat
  pfs_page_index_row_groups_selected :: nat
  pfs_bloom_filter_row_groups_selected :: nat

definition pruned_default :: pruned_file_selection where
  "pruned_default =
     \<lparr>pfs_selected_files = [], pfs_files_selected = 0, pfs_row_groups_considered = 0,
      pfs_row_groups_selected = 0, pfs_estimated_bytes = 0, pfs_artifacts_used = [],
      pfs_metadata_files_cached = 0, pfs_metadata_row_groups_cached = 0,
      pfs_page_index_row_groups_selected = 0, pfs_bloom_filter_row_groups_selected = 0\<rparr>"

definition push_unique_string :: "string list \<Rightarrow> string \<Rightarrow> string list" where
  "push_unique_string values v = (if v \<in> set values then values else sort (values @ [v]))"

definition record_artifact_usage :: "string \<Rightarrow> pruned_file_selection \<Rightarrow> pruned_file_selection" where
  "record_artifact_usage artifact_name pruned =
     pruned\<lparr>pfs_artifacts_used := push_unique_string (pfs_artifacts_used pruned) artifact_name\<rparr>"

type_synonym row_group_cache = "(string, iceberg_row_group_stats list) hash_map"

definition cached_row_group_count :: "row_group_cache \<Rightarrow> string \<Rightarrow> nat option" where
  "cached_row_group_count cache file_path = map_option length (fmlookup cache file_path)"

definition cached_parquet_row_group_stats_coverage :: "row_group_cache \<Rightarrow> string list \<Rightarrow> nat \<times> nat" where
  "cached_parquet_row_group_stats_coverage cache paths =
     foldl (\<lambda>(files, row_groups) path.
         case cached_row_group_count cache path of
           Some n \<Rightarrow> (files + 1, row_groups + n)
         | None \<Rightarrow> (files, row_groups)) (0, 0) paths"

definition record_metadata_cache_coverage ::
    "row_group_cache \<Rightarrow> string \<Rightarrow> pruned_file_selection \<Rightarrow> pruned_file_selection" where
  "record_metadata_cache_coverage cache file_path pruned =
     (let (files, row_groups) = cached_parquet_row_group_stats_coverage cache [file_path] in
      pruned\<lparr>pfs_metadata_files_cached := pfs_metadata_files_cached pruned + files,
             pfs_metadata_row_groups_cached := pfs_metadata_row_groups_cached pruned + row_groups\<rparr>)"

definition record_file_stats_artifact_usage ::
    "iceberg_file_stats \<Rightarrow> read_plan \<Rightarrow> pruned_file_selection \<Rightarrow> pruned_file_selection" where
  "record_file_stats_artifact_usage st request pruned =
     (if rpl_filters request = [] then pruned
      else if list_ex (\<lambda>p. list_ex (\<lambda>cs. cs_field_name cs = rp_field p) (st_columns st)) (rpl_filters request)
      then record_artifact_usage artifact_file_stats pruned
      else pruned)"

definition record_page_pruning_coverage ::
    "iceberg_row_group_stats list \<Rightarrow> read_plan \<Rightarrow> pruned_file_selection \<Rightarrow> pruned_file_selection" where
  "record_page_pruning_coverage matching request pruned =
     (if rpl_filters request = [] then pruned
      else
        (let p1 = pruned\<lparr>pfs_page_index_row_groups_selected :=
               pfs_page_index_row_groups_selected pruned + length (filter rg_page_index_present matching)\<rparr>;
             p2 = (if pfs_page_index_row_groups_selected p1 > 0
                   then record_artifact_usage artifact_page_index p1 else p1);
             p3 = p2\<lparr>pfs_bloom_filter_row_groups_selected :=
               pfs_bloom_filter_row_groups_selected p2 + length (filter rg_bloom_filter_present matching)\<rparr> in
         if pfs_bloom_filter_row_groups_selected p3 > 0
         then record_artifact_usage artifact_bloom_filter p3 else p3))"

subsection \<open>Partition values\<close>

definition partition_range_may_match :: "json \<Rightarrow> read_predicate \<Rightarrow> bool" where
  "partition_range_may_match v p =
     (if excluded (Some v) (rp_gt p) [Less, Equal] then False
      else if excluded (Some v) (rp_gte p) [Less] then False
      else if excluded (Some v) (rp_lt p) [Greater, Equal] then False
      else if excluded (Some v) (rp_lte p) [Greater] then False
      else True)"

definition partition_predicate_may_match_file ::
    "iceberg_file_stats \<Rightarrow> read_predicate \<Rightarrow> (bool \<times> string) option" where
  "partition_predicate_may_match_file st p =
     (case find (\<lambda>pv. pv_source_field_name pv = rp_field p \<and> pv_transform pv = ''identity'')
             (st_partition_values st) of
        None \<Rightarrow> None
      | Some pv \<Rightarrow>
          (case pv_value pv of
             None \<Rightarrow> None
           | Some v \<Rightarrow>
               Some (case rp_eq p of
                       Some x \<Rightarrow> compare_scalar_values x v = Some Equal
                     | None \<Rightarrow>
                         (case rp_in_values p of
                            Some xs \<Rightarrow> list_ex (\<lambda>x. compare_scalar_values x v = Some Equal) xs
                          | None \<Rightarrow> partition_range_may_match v p),
                     artifact_partition_spec @ '':'' @ pv_field_name pv)))"

text \<open>The loop over the filters; it returns at the first one a partition value rules out.\<close>

fun partition_filters_loop ::
    "iceberg_file_stats \<Rightarrow> read_predicate list \<Rightarrow> pruned_file_selection \<Rightarrow> pruned_file_selection \<times> bool" where
  "partition_filters_loop st [] pruned = (pruned, True)"
| "partition_filters_loop st (p # ps) pruned =
     (case partition_predicate_may_match_file st p of
        None \<Rightarrow> partition_filters_loop st ps pruned
      | Some (may_match, artifact_name) \<Rightarrow>
          (let pruned' = record_artifact_usage artifact_name pruned in
           if may_match then partition_filters_loop st ps pruned' else (pruned', False)))"

definition partition_values_may_match_request ::
    "iceberg_file_stats \<Rightarrow> read_plan \<Rightarrow> pruned_file_selection \<Rightarrow> pruned_file_selection \<times> bool" where
  "partition_values_may_match_request st request pruned =
     partition_filters_loop st (rpl_filters request) pruned"

subsection \<open>The pruning loop\<close>

definition serving_request_predicates :: "read_plan \<Rightarrow> query_predicate list" where
  "serving_request_predicates request = map query_predicate_from (rpl_filters request)"

definition file_may_match_request :: "iceberg_file_stats \<Rightarrow> read_plan \<Rightarrow> bool" where
  "file_may_match_request st request = file_may_match_predicates st (serving_request_predicates request)"

definition row_group_may_match_request :: "iceberg_row_group_stats \<Rightarrow> read_plan \<Rightarrow> bool" where
  "row_group_may_match_request rg request =
     row_group_may_match_predicates rg (serving_request_predicates request)"

definition select_whole_file ::
    "row_group_cache \<Rightarrow> file_descriptor \<Rightarrow> pruned_file_selection \<Rightarrow> pruned_file_selection" where
  "select_whole_file cache file pruned =
     (let p1 = pruned\<lparr>pfs_estimated_bytes := pfs_estimated_bytes pruned + fd_size file,
                      pfs_files_selected := pfs_files_selected pruned + 1\<rparr>;
          p2 = record_metadata_cache_coverage cache (fd_path file) p1 in
      p2\<lparr>pfs_selected_files := pfs_selected_files p2 @ [file]\<rparr>)"

definition prune_file ::
    "row_group_cache \<Rightarrow> (string, iceberg_file_stats) hash_map \<Rightarrow> read_plan \<Rightarrow>
     pruned_file_selection \<Rightarrow> file_descriptor \<Rightarrow> pruned_file_selection" where
  "prune_file cache file_stats request pruned file =
     (case fmlookup file_stats (fd_path file) of
        None \<Rightarrow> select_whole_file cache file pruned
      | Some st \<Rightarrow>
          (let (p1, may_match) = partition_values_may_match_request st request pruned in
           if \<not> may_match then p1
           else if st_row_groups st = [] then
             (let p2 = record_file_stats_artifact_usage st request p1 in
              if file_may_match_request st request then select_whole_file cache file p2 else p2)
           else
             (let p2 = p1\<lparr>pfs_row_groups_considered :=
                            pfs_row_groups_considered p1 + length (st_row_groups st)\<rparr>;
                  matching = filter (\<lambda>rg. row_group_may_match_request rg request) (st_row_groups st) in
              if matching = [] then p2
              else
                (let p3 = (if rpl_filters request \<noteq> []
                           then record_artifact_usage artifact_row_group_stats p2 else p2);
                     p4 = p3\<lparr>pfs_files_selected := pfs_files_selected p3 + 1,
                             pfs_row_groups_selected := pfs_row_groups_selected p3 + length matching,
                             pfs_estimated_bytes := pfs_estimated_bytes p3 +
                               sum_list (map rg_compressed_bytes matching)\<rparr>;
                     p5 = record_page_pruning_coverage matching request p4;
                     p6 = record_metadata_cache_coverage cache (fd_path file) p5 in
                 p6\<lparr>pfs_selected_files := pfs_selected_files p6 @ [file]\<rparr>))))"

definition prune_candidate_files ::
    "row_group_cache \<Rightarrow> file_descriptor list \<Rightarrow> (string, iceberg_file_stats) hash_map \<Rightarrow> read_plan \<Rightarrow>
     pruned_file_selection" where
  "prune_candidate_files cache files file_stats request =
     foldl (prune_file cache file_stats request) pruned_default files"

subsection \<open>What the statistics of a file promise\<close>

definition describes_file :: "iceberg_file_stats \<Rightarrow> json_map list \<Rightarrow> bool" where
  "describes_file st rows \<longleftrightarrow>
     describes_columns (st_columns st) (st_record_count st) rows \<and>
     (\<forall>pv \<in> set (st_partition_values st). pv_transform pv = ''identity'' \<longrightarrow>
        opt_all (\<lambda>x. \<forall>row \<in> set rows. row_value row (pv_source_field_name pv) = JNull \<or>
          sql_compare (row_value row (pv_source_field_name pv)) x = Some Equal) (pv_value pv)) \<and>
     (st_row_groups st = [] \<or>
      (\<exists>parts. concat parts = rows \<and>
         list_all2 (\<lambda>rg part. describes_columns (rg_columns rg) (rg_record_count rg) part)
           (st_row_groups st) parts))"

definition usable_file :: "query_predicate list \<Rightarrow> iceberg_file_stats \<Rightarrow> bool" where
  "usable_file ps st \<longleftrightarrow>
     usable_columns ps (st_columns st) \<and>
     (\<forall>rg \<in> set (st_row_groups st). usable_columns ps (rg_columns rg)) \<and>
     (\<forall>pv \<in> set (st_partition_values st). opt_all (\<lambda>x. double_json x \<and>
        (\<forall>p \<in> set ps. qp_field p = pv_source_field_name pv \<longrightarrow>
           qp_gt p \<noteq> None \<or> qp_lt p \<noteq> None \<longrightarrow> exact_json x)) (pv_value pv))"

subsection \<open>A file with a matching row is kept\<close>

text \<open>The accounting functions leave the selection alone.\<close>

lemma accounting_selected [simp]:
  "pfs_selected_files (record_artifact_usage a p) = pfs_selected_files p"
  "pfs_selected_files (record_metadata_cache_coverage c f p) = pfs_selected_files p"
  "pfs_selected_files (record_file_stats_artifact_usage st r p) = pfs_selected_files p"
  "pfs_selected_files (record_page_pruning_coverage m r p) = pfs_selected_files p"
  by (simp_all add: record_artifact_usage_def record_metadata_cache_coverage_def
      record_file_stats_artifact_usage_def record_page_pruning_coverage_def Let_def split: prod.split)

lemma accounting_counts [simp]:
  "pfs_files_selected (record_artifact_usage a p) = pfs_files_selected p"
  "pfs_files_selected (record_metadata_cache_coverage c f p) = pfs_files_selected p"
  "pfs_files_selected (record_file_stats_artifact_usage st r p) = pfs_files_selected p"
  "pfs_files_selected (record_page_pruning_coverage m r p) = pfs_files_selected p"
  by (simp_all add: record_artifact_usage_def record_metadata_cache_coverage_def
      record_file_stats_artifact_usage_def record_page_pruning_coverage_def Let_def split: prod.split)

lemma partition_loop_selected [simp]:
  "pfs_selected_files (fst (partition_filters_loop st ps p)) = pfs_selected_files p"
  "pfs_files_selected (fst (partition_filters_loop st ps p)) = pfs_files_selected p"
  by (induction st ps p rule: partition_filters_loop.induct) (auto simp: Let_def split: option.splits prod.splits)

lemma partition_loop_decides:
  "snd (partition_filters_loop st ps p) \<longleftrightarrow>
     (\<forall>f \<in> set ps. \<forall>b a. partition_predicate_may_match_file st f = Some (b, a) \<longrightarrow> b)"
  by (induction st ps p rule: partition_filters_loop.induct) (auto simp: Let_def split: option.splits prod.splits)

text \<open>Whether a file is selected.\<close>

definition keeps_file :: "(string, iceberg_file_stats) hash_map \<Rightarrow> read_plan \<Rightarrow> file_descriptor \<Rightarrow> bool" where
  "keeps_file file_stats request file \<longleftrightarrow>
     (case fmlookup file_stats (fd_path file) of
        None \<Rightarrow> True
      | Some st \<Rightarrow>
          (\<forall>f \<in> set (rpl_filters request). \<forall>b a. partition_predicate_may_match_file st f = Some (b, a) \<longrightarrow> b) \<and>
          (if st_row_groups st = [] then file_may_match_request st request
           else list_ex (\<lambda>rg. row_group_may_match_request rg request) (st_row_groups st)))"

lemma select_whole_file_simps [simp]:
  "pfs_selected_files (select_whole_file cache file p) = pfs_selected_files p @ [file]"
  "pfs_files_selected (select_whole_file cache file p) = pfs_files_selected p + 1"
  by (simp_all add: select_whole_file_def Let_def)

lemma prune_file_selected:
  "pfs_selected_files (prune_file cache stats request p file) =
     pfs_selected_files p @ (if keeps_file stats request file then [file] else [])"
  "pfs_files_selected (prune_file cache stats request p file) =
     pfs_files_selected p + (if keeps_file stats request file then 1 else 0)"
  by (auto simp: prune_file_def keeps_file_def partition_values_may_match_request_def Let_def split_beta
      partition_loop_decides filter_empty_conv list_ex_iff split: option.split)

lemma prune_selects:
  "pfs_selected_files (foldl (prune_file cache stats request) p files) =
     pfs_selected_files p @ filter (keeps_file stats request) files"
  "pfs_files_selected (foldl (prune_file cache stats request) p files) =
     pfs_files_selected p + length (filter (keeps_file stats request) files)"
  by (induction files arbitrary: p) (simp_all add: prune_file_selected)

lemma partition_sound:
  assumes "describes_file st rows" "row \<in> set rows" "row_matches (serving_request_predicates request) row"
    and "list_all operands_ok (serving_request_predicates request)"
    and "usable_file (serving_request_predicates request) st"
    and f: "f \<in> set (rpl_filters request)" "partition_predicate_may_match_file st f = Some (b, a)"
  shows b
proof -
  let ?p = "query_predicate_from f" let ?v = "row_value row (rp_field f)"
  from f(2) obtain pv where found: "find (\<lambda>pv. pv_source_field_name pv = rp_field f \<and>
      pv_transform pv = ''identity'') (st_partition_values st) = Some pv"
    by (auto simp: partition_predicate_may_match_file_def split: option.splits)
  with f(2) obtain x where x: "pv_value pv = Some x"
    by (auto simp: partition_predicate_may_match_file_def split: option.splits)
  with f(2) found have b: "b = (case rp_eq f of
        Some y \<Rightarrow> compare_scalar_values y x = Some Equal
      | None \<Rightarrow> (case rp_in_values f of
          Some ys \<Rightarrow> list_ex (\<lambda>y. compare_scalar_values y x = Some Equal) ys
        | None \<Rightarrow> partition_range_may_match x f))"
    by (simp add: partition_predicate_may_match_file_def)
  from found x have pv: "pv \<in> set (st_partition_values st)" "pv_source_field_name pv = rp_field f"
    "pv_transform pv = ''identity''" "pv_value pv = Some x"
    by (auto simp: find_Some_iff)
  from f(1) have p: "?p \<in> set (serving_request_predicates request)" by (simp add: serving_request_predicates_def)
  with assms(3,4) have ok: "operands_ok ?p" and m: "matches_predicate ?p ?v"
    by (auto simp: row_matches_def list_all_iff query_predicate_from_def)
  from assms(5) pv p have x: "double_json x" "rp_gt f \<noteq> None \<or> rp_lt f \<noteq> None \<Longrightarrow> exact_json x"
    by (auto simp: usable_file_def query_predicate_from_def dest!: bspec)
  from ok m have "?v \<noteq> JNull"
    by (auto simp: matches_predicate_def operands_ok_def has_operator_def sql_holds_simps query_predicate_from_def
        list_ex_iff split: option.splits)
  with assms(1,2) pv have v: "sql_compare ?v x = Some Equal"
    by (auto simp: describes_file_def dest!: bspec)
  have eq: "compare_scalar_values y x = Some Equal" if "sql_compare ?v y = Some Equal" "double_json y" for y
    using compare_weak [OF sql_compare_subst [OF that(1) v] that(2) x(1)] by auto
  have cmp: "sql_compare x y = Some c" if "sql_compare ?v y = Some c" for y c
    using sql_compare_subst [OF v that] .
  show ?thesis
  proof (cases "rp_eq f = None \<and> rp_in_values f = None")
    case True
    then have h: "sql_holds x [Greater] (rp_gt f)" "sql_holds x [Greater, Equal] (rp_gte f)"
      "sql_holds x [Less] (rp_lt f)" "sql_holds x [Less, Equal] (rp_lte f)"
      using m cmp by (auto simp: matches_predicate_def query_predicate_from_def sql_holds_def split: option.splits)
    have "\<not> excluded (Some x) (rp_gt f) [Less, Equal]"
      using h(1) x ok not_excluded_strict [of x]
      by (cases "rp_gt f") (auto simp: sql_holds_simps operands_ok_def query_predicate_from_def)
    moreover have "\<not> excluded (Some x) (rp_lt f) [Greater, Equal]"
      using h(3) x ok not_excluded_strict [of x]
      by (cases "rp_lt f") (auto simp: sql_holds_simps operands_ok_def query_predicate_from_def)
    moreover have "\<not> excluded (Some x) (rp_gte f) [Less]"
      using h(2) x(1) ok not_excluded_weak(1) [of x]
      by (cases "rp_gte f") (auto simp: sql_holds_simps operands_ok_def query_predicate_from_def)
    moreover have "\<not> excluded (Some x) (rp_lte f) [Greater]"
      using h(4) x(1) ok not_excluded_weak(2) [of x]
      by (cases "rp_lte f") (auto simp: sql_holds_simps operands_ok_def query_predicate_from_def)
    ultimately show ?thesis using True by (simp add: b partition_range_may_match_def)
  next
    case False
    with m ok eq show ?thesis
      by (auto simp: b matches_predicate_def operands_ok_def query_predicate_from_def list_ex_iff list_all_iff
          split: option.splits)
  qed
qed

lemma row_groups_sound:
  assumes "list_all2 (\<lambda>rg part. describes_columns (rg_columns rg) (rg_record_count rg) part) rgs parts"
    and "row \<in> set (concat parts)" "row_matches ps row" "list_all operands_ok ps"
    and "\<forall>rg \<in> set rgs. usable_columns ps (rg_columns rg)"
  shows "\<exists>rg \<in> set rgs. row_group_may_match_predicates rg ps \<and>
    (\<exists>part. describes_columns (rg_columns rg) (rg_record_count rg) part \<and> row \<in> set part)"
  using assms
proof (induction rule: list_all2_induct)
  case Nil
  then show ?case by simp
next
  case (Cons rg rgs part parts)
  show ?case
  proof (cases "row \<in> set part")
    case True
    with Cons row_group_sound [of rg part row ps] show ?thesis by auto
  next
    case False
    with Cons show ?thesis by auto
  qed
qed

lemma keeps_matching_file:
  assumes "opt_all (\<lambda>st. describes_file st rows \<and> usable_file (serving_request_predicates request) st)
      (fmlookup file_stats (fd_path file))"
    and "row \<in> set rows" "row_matches (serving_request_predicates request) row"
    and "list_all operands_ok (serving_request_predicates request)"
  shows "keeps_file file_stats request file"
proof (cases "fmlookup file_stats (fd_path file)")
  case None
  then show ?thesis by (simp add: keeps_file_def)
next
  case (Some st)
  with assms(1) have st: "describes_file st rows" "usable_file (serving_request_predicates request) st" by simp_all
  have "file_may_match_request st request" if "st_row_groups st = []"
    unfolding file_may_match_request_def
    by (rule file_sound) (use st assms in \<open>auto simp: describes_file_def usable_file_def\<close>)
  moreover have "list_ex (\<lambda>rg. row_group_may_match_request rg request) (st_row_groups st)" if "st_row_groups st \<noteq> []"
  proof -
    from st that obtain parts where "concat parts = rows"
      "list_all2 (\<lambda>rg part. describes_columns (rg_columns rg) (rg_record_count rg) part) (st_row_groups st) parts"
      by (auto simp: describes_file_def)
    with row_groups_sound [of "st_row_groups st" parts row "serving_request_predicates request"] assms(2-4) st(2) show ?thesis
      by (auto simp: list_ex_iff row_group_may_match_request_def usable_file_def)
  qed
  ultimately show ?thesis
    using Some partition_sound [OF st(1) assms(2-4) st(2)] by (auto simp: keeps_file_def)
qed

text \<open>
  C33. Pruning is sound: a file that holds a row satisfying every filter of the request is selected,
  whether it is judged by its partition values, its file statistics or its row group statistics, or
  has none; and the number of files that admission control is told is the number selected. The
  statistics describe the rows of the file as Iceberg promises, floats are doubles, and what is
  compared strictly (\<^verbatim>\<open>gt\<close>, \<^verbatim>\<open>lt\<close>) is exact in double precision.
\<close>

theorem pruning_keeps_matching_files:
  assumes "file \<in> set files"
    and "opt_all (\<lambda>st. describes_file st rows \<and> usable_file (serving_request_predicates request) st)
      (fmlookup file_stats (fd_path file))"
    and "row \<in> set rows" "row_matches (serving_request_predicates request) row"
    and "list_all operands_ok (serving_request_predicates request)"
  shows "file \<in> set (pfs_selected_files (prune_candidate_files cache files file_stats request)) \<and>
    pfs_files_selected (prune_candidate_files cache files file_stats request) =
      length (pfs_selected_files (prune_candidate_files cache files file_stats request))"
  using assms(1) keeps_matching_file [OF assms(2-5)]
  by (simp add: prune_candidate_files_def prune_selects pruned_default_def)

definition sample_file :: file_descriptor where
  "sample_file = \<lparr>fd_path = ''f'', fd_schema = PowdrrSchema [], fd_size = 10\<rparr>"

definition sample_column :: "json \<Rightarrow> json \<Rightarrow> iceberg_column_stats" where
  "sample_column lower upper = \<lparr>cs_field_id = 1, cs_field_name = ''a'', cs_null_count = Some 0,
     cs_lower_bound = Some lower, cs_upper_bound = Some upper\<rparr>"

definition sample_stats :: "json \<Rightarrow> json \<Rightarrow> iceberg_file_stats" where
  "sample_stats lower upper =
     \<lparr>st_file_path = ''f'', st_record_count = Some 2, st_columns = [sample_column lower upper],
      st_partition_values = [],
      st_row_groups = [\<lparr>rg_index = 0, rg_record_count = Some 2, rg_compressed_bytes = 10,
        rg_page_index_present = False, rg_bloom_filter_present = False,
        rg_columns = [sample_column lower upper]\<rparr>]\<rparr>"

text \<open>The request \<open>a > x\<close>.\<close>

definition sample_request :: "json \<Rightarrow> read_plan" where
  "sample_request x =
     \<lparr>rpl_select = None, rpl_filters = [\<lparr>rp_field = ''a'', rp_eq = None, rp_in_values = None,
        rp_gt = Some x, rp_gte = None, rp_lt = None, rp_lte = None\<rparr>],
      rpl_aggregate = None, rpl_order_by = [], rpl_limit = None, rpl_offset = 0,
      rpl_search_after = None, rpl_allow_slow_path = False, rpl_explain = False\<rparr>"

lemmas sample_query_defs = sample_file_def sample_column_def sample_stats_def sample_request_def

abbreviation jint :: "int \<Rightarrow> json" where
  "jint i \<equiv> JNumber (Pos_Int (word_of_int i))"

lemma sample_describes:
  "describes_file (sample_stats (jint 1) (jint 5)) [[(''a'', jint 1)], [(''a'', jint 5)]]"
  unfolding describes_file_def
proof (intro conjI disjI2 exI)
  show "concat [[[(''a'', jint 1)], [(''a'', jint 5)]]] = [[(''a'', jint 1)], [(''a'', jint 5)]]" by simp
qed (auto simp: sample_query_defs describes_columns_def describes_column_def row_value_def sql_holds_simps)

lemma pruning_keeps_matching_files_witness:
  "sample_file \<in> set (pfs_selected_files (prune_candidate_files fmempty [sample_file]
     (fmupd ''f'' (sample_stats (jint 1) (jint 5)) fmempty) (sample_request (jint 3))))"
proof -
  have "row_matches (serving_request_predicates (sample_request (jint 3))) [(''a'', jint 5)]"
    by (simp add: row_matches_def serving_request_predicates_def sample_query_defs query_predicate_from_def
        matches_predicate_def row_value_def sql_holds_simps)
  moreover have "list_all operands_ok (serving_request_predicates (sample_request (jint 3)))"
    by (simp add: serving_request_predicates_def sample_query_defs query_predicate_from_def operands_ok_def
        has_operator_def)
  moreover have "usable_file (serving_request_predicates (sample_request (jint 3))) (sample_stats (jint 1) (jint 5))"
    by (simp add: usable_file_def usable_columns_def strict_exact_def bounds_ok_def sample_query_defs)
  ultimately show ?thesis
    using pruning_keeps_matching_files [of sample_file "[sample_file]" "[[(''a'', jint 1)], [(''a'', jint 5)]]"
        "sample_request (jint 3)" "fmupd ''f'' (sample_stats (jint 1) (jint 5)) fmempty" "[(''a'', jint 5)]" fmempty]
      sample_describes
    by (simp add: sample_file_def)
qed

definition sample_big :: json where
  "sample_big = jint (2 ^ 53 + 1)"

text \<open>
  C37. Without exactness pruning drops matching rows: a file whose statistics are right, with the
  single bound \<open>2 ^ 53 + 1\<close>, is not read for the request \<open>a > 2 ^ 53\<close> although its row satisfies
  it, because both numbers are the same in double precision.
\<close>

theorem strict_bound_prunes_matching_row:
  "describes_file (sample_stats sample_big sample_big) [[(''a'', sample_big)], [(''a'', sample_big)]] \<and>
    row_matches (serving_request_predicates (sample_request (jint (2 ^ 53)))) [(''a'', sample_big)] \<and>
    pfs_selected_files (prune_candidate_files cache [sample_file] (fmupd ''f'' (sample_stats sample_big sample_big) fmempty)
      (sample_request (jint (2 ^ 53)))) = []"
proof (intro conjI)
  show "describes_file (sample_stats sample_big sample_big) [[(''a'', sample_big)], [(''a'', sample_big)]]"
    unfolding describes_file_def
  proof (intro conjI disjI2 exI)
    show "concat [[[(''a'', sample_big)], [(''a'', sample_big)]]] = [[(''a'', sample_big)], [(''a'', sample_big)]]" by simp
  qed (auto simp: sample_big_def sample_query_defs describes_columns_def describes_column_def row_value_def sql_holds_simps)
  show "row_matches (serving_request_predicates (sample_request (jint (2 ^ 53)))) [(''a'', sample_big)]"
    by (simp add: sample_big_def row_matches_def serving_request_predicates_def sample_query_defs query_predicate_from_def
        matches_predicate_def row_value_def sql_holds_simps)
  have "f64_of_int (2 ^ 53 + 1) = f64_of_int (2 ^ 53)" by (simp add: f64_of_int_def f64_of_nat_def f64_shift.simps)
  then show "pfs_selected_files (prune_candidate_files cache [sample_file] (fmupd ''f'' (sample_stats sample_big sample_big) fmempty)
      (sample_request (jint (2 ^ 53)))) = []"
    by (simp add: prune_candidate_files_def prune_file_selected pruned_default_def keeps_file_def sample_query_defs
        partition_predicate_may_match_file_def row_group_may_match_request_def row_group_may_match_predicates_def predicate_may_match_row_group_def
        predicate_may_match_stats_def range_may_match_def excluded_def serving_request_predicates_def
        query_predicate_from_def sample_big_def)
qed

end
