(* ===== verification/Serving_Topk.thy ===== *)
theory Serving_Topk
  imports Serving_Prune
begin

section \<open>Ordered queries and the early stop of top-k\<close>

text \<open>
  The execution stage of \<^verbatim>\<open>query_runtime/src/lakehouse_serving.rs\<close> for row queries. A query
  runs once per group of files with the same schema (\<^verbatim>\<open>query_lib/src/query_execution.rs\<close>
  groups them), and the rows of the groups are merged, sorted and cut to the limit. With an
  order and no recent segments the groups run one after the other, best bound first, and the loop
  stops when the next group cannot improve the result. Running one group is the job of the query
  engine: it is the parameter \<open>exec\<close>, and its contract is that the rows it returns contain a
  best-\<open>k\<close> selection of the matching rows of its files. \<open>render\<close> is the JSON text
  \<^verbatim>\<open>serde_json\<close> prints for values of different kinds.

  The result is a best-\<open>k\<close> selection of all matching rows, whatever the groups complete in. The
  descending order needs that no sort value is null: the bound of a group ignores nulls, which a
  descending sort puts first.
\<close>

subsection \<open>Comparison of rows\<close>

fun compare_values :: "(json \<Rightarrow> string) \<Rightarrow> json \<Rightarrow> json \<Rightarrow> ordering" where
  "compare_values render JNull JNull = Equal"
| "compare_values render JNull _ = Greater"
| "compare_values render _ JNull = Less"
| "compare_values render (JNumber l) (JNumber r) = cmp (as_f64 l) (as_f64 r)"
| "compare_values render (JString l) (JString r) = cmp l r"
| "compare_values render (JBool l) (JBool r) = cmp l r"
| "compare_values render l r = cmp (render l) (render r)"

fun ordering_reverse :: "ordering \<Rightarrow> ordering" where
  "ordering_reverse Less = Greater"
| "ordering_reverse Equal = Equal"
| "ordering_reverse Greater = Less"

definition compare_row_values ::
    "(json \<Rightarrow> string) \<Rightarrow> json option \<Rightarrow> json option \<Rightarrow> bool \<Rightarrow> ordering" where
  "compare_row_values render l r descending =
     (let ordering = compare_values render (case l of Some v \<Rightarrow> v | None \<Rightarrow> JNull)
                       (case r of Some v \<Rightarrow> v | None \<Rightarrow> JNull) in
      if descending then ordering_reverse ordering else ordering)"

definition compare_sort_values :: "(json \<Rightarrow> string) \<Rightarrow> json \<Rightarrow> json \<Rightarrow> bool \<Rightarrow> ordering" where
  "compare_sort_values render l r descending = compare_row_values render (Some l) (Some r) descending"

definition json_get :: "json \<Rightarrow> string \<Rightarrow> json option" where
  "json_get v field = (case v of JObject m \<Rightarrow> jm_get m field | _ \<Rightarrow> None)"

definition compare_rows :: "(json \<Rightarrow> string) \<Rightarrow> string \<Rightarrow> bool \<Rightarrow> json \<Rightarrow> json \<Rightarrow> ordering" where
  "compare_rows render field descending l r =
     compare_row_values render (json_get l field) (json_get r field) descending"

text \<open>The stable \<^verbatim>\<open>sort_by\<close> of the standard library.\<close>

fun insert_by :: "('a \<Rightarrow> 'a \<Rightarrow> ordering) \<Rightarrow> 'a \<Rightarrow> 'a list \<Rightarrow> 'a list" where
  "insert_by c x [] = [x]"
| "insert_by c x (y # ys) = (if c x y = Greater then y # insert_by c x ys else x # y # ys)"

definition sort_by :: "('a \<Rightarrow> 'a \<Rightarrow> ordering) \<Rightarrow> 'a list \<Rightarrow> 'a list" where
  "sort_by c xs = foldr (insert_by c) xs []"

definition usize_max :: nat where "usize_max = 2 ^ 64 - 1"

definition merge_rows :: "(json \<Rightarrow> string) \<Rightarrow> read_plan \<Rightarrow> nat \<Rightarrow> json list \<Rightarrow> json list \<Rightarrow> json list" where
  "merge_rows render request limit rows new_rows =
     (let all = rows @ new_rows in
      case rpl_order_by request of
        s # _ \<Rightarrow> take limit (sort_by (compare_rows render (rs_field s) (rs_descending s)) all)
      | [] \<Rightarrow>
          (let unsorted_cap = max (min (limit * 4) usize_max) limit in
           if length all > unsorted_cap then take unsorted_cap all else all))"

subsection \<open>Bounds of files and groups\<close>

definition sort_order_supports_field :: "iceberg_sort_field list \<Rightarrow> string \<Rightarrow> bool" where
  "sort_order_supports_field sort_order sort_field =
     (case sort_order of
        [] \<Rightarrow> False
      | f # _ \<Rightarrow> sf_source_field_name f = sort_field \<and> sf_transform f = ''identity'')"

definition partition_value_sort_bound :: "iceberg_file_stats \<Rightarrow> string \<Rightarrow> json option" where
  "partition_value_sort_bound st sort_field =
     Option.bind (find (\<lambda>pv. pv_source_field_name pv = sort_field \<and> pv_transform pv = ''identity'')
       (st_partition_values st)) pv_value"

definition column_sort_bound :: "iceberg_column_stats \<Rightarrow> u64 option \<Rightarrow> bool \<Rightarrow> json option" where
  "column_sort_bound cs record_count descending =
     (if column_is_all_null cs record_count then Some JNull
      else if descending then cs_upper_bound cs else cs_lower_bound cs)"

definition file_level_sort_bound ::
    "iceberg_file_stats \<Rightarrow> iceberg_sort_field list \<Rightarrow> string \<Rightarrow> bool \<Rightarrow> json option" where
  "file_level_sort_bound st sort_order sort_field descending =
     (case find (\<lambda>cs. cs_field_name cs = sort_field) (st_columns st) of
        None \<Rightarrow> if sort_order_supports_field sort_order sort_field
                then partition_value_sort_bound st sort_field else None
      | Some cs \<Rightarrow> column_sort_bound cs (st_record_count st) descending)"

definition row_group_sort_bound :: "iceberg_row_group_stats \<Rightarrow> string \<Rightarrow> bool \<Rightarrow> json option" where
  "row_group_sort_bound rg sort_field descending =
     (case find (\<lambda>cs. cs_field_name cs = sort_field) (rg_columns rg) of
        None \<Rightarrow> None
      | Some cs \<Rightarrow> column_sort_bound cs (rg_record_count rg) descending)"

text \<open>
  The loop both bounds use: the best candidate so far, and \<open>None\<close> as soon as one element has no
  candidate. \<open>Some None\<close> is the loop over nothing.
\<close>

fun best_bound_loop ::
    "(json \<Rightarrow> string) \<Rightarrow> bool \<Rightarrow> ('a \<Rightarrow> json option) \<Rightarrow> json option \<Rightarrow> 'a list \<Rightarrow> json option option" where
  "best_bound_loop render descending bound best [] = Some best"
| "best_bound_loop render descending bound best (x # xs) =
     (case bound x of
        None \<Rightarrow> None
      | Some candidate \<Rightarrow>
          best_bound_loop render descending bound
            (if (case best of
                   Some b \<Rightarrow> compare_sort_values render candidate b descending = Less
                 | None \<Rightarrow> True)
             then Some candidate else best) xs)"

definition file_sort_bound ::
    "(json \<Rightarrow> string) \<Rightarrow> (string, iceberg_file_stats) hash_map \<Rightarrow> iceberg_sort_field list \<Rightarrow> read_plan \<Rightarrow>
     string \<Rightarrow> bool \<Rightarrow> file_descriptor \<Rightarrow> json option" where
  "file_sort_bound render file_stats sort_order request sort_field descending file =
     (case fmlookup file_stats (fd_path file) of
        None \<Rightarrow> None
      | Some st \<Rightarrow>
          if st_row_groups st \<noteq> [] then
            (let matching = filter (\<lambda>rg. row_group_may_match_request rg request) (st_row_groups st) in
             if matching = [] then None
             else
               (case best_bound_loop render descending
                       (\<lambda>rg. row_group_sort_bound rg sort_field descending) None matching of
                  None \<Rightarrow> file_level_sort_bound st sort_order sort_field descending
                | Some best \<Rightarrow> best))
          else file_level_sort_bound st sort_order sort_field descending)"

definition file_group_sort_bound ::
    "(json \<Rightarrow> string) \<Rightarrow> (string, iceberg_file_stats) hash_map \<Rightarrow> iceberg_sort_field list \<Rightarrow> read_plan \<Rightarrow>
     string \<Rightarrow> bool \<Rightarrow> file_descriptor list \<Rightarrow> json option" where
  "file_group_sort_bound render file_stats sort_order request sort_field descending files =
     (case best_bound_loop render descending
             (file_sort_bound render file_stats sort_order request sort_field descending) None files of
        None \<Rightarrow> None
      | Some best \<Rightarrow> best)"

record ordered_file_group =
  ofg_files :: "file_descriptor list"
  ofg_best_case_sort_value :: json

fun collect_options :: "'a option list \<Rightarrow> 'a list option" where
  "collect_options [] = Some []"
| "collect_options (x # xs) =
     (case x of None \<Rightarrow> None | Some v \<Rightarrow> map_option (Cons v) (collect_options xs))"

definition ordered_file_groups_for_top_k ::
    "(json \<Rightarrow> string) \<Rightarrow> file_descriptor list \<Rightarrow> (string, iceberg_file_stats) hash_map \<Rightarrow>
     iceberg_sort_field list \<Rightarrow> read_plan \<Rightarrow> string \<Rightarrow> bool \<Rightarrow> ordered_file_group list option" where
  "ordered_file_groups_for_top_k render files file_stats sort_order request sort_field descending =
     map_option
       (sort_by (\<lambda>l r. compare_sort_values render (ofg_best_case_sort_value l)
          (ofg_best_case_sort_value r) descending))
       (collect_options (map (\<lambda>group.
          map_option (\<lambda>bound. \<lparr>ofg_files = group, ofg_best_case_sort_value = bound\<rparr>)
            (file_group_sort_bound render file_stats sort_order request sort_field descending group))
          (group_files_by_schema files)))"

definition remaining_groups_cannot_beat_kth_row ::
    "(json \<Rightarrow> string) \<Rightarrow> json list \<Rightarrow> json \<Rightarrow> string \<Rightarrow> bool \<Rightarrow> nat \<Rightarrow> bool" where
  "remaining_groups_cannot_beat_kth_row render rows next_best sort_field descending limit =
     (if limit = 0 \<or> length rows < limit then False
      else
        (case json_get (rows ! (limit - 1)) sort_field of
           None \<Rightarrow> False
         | Some kth \<Rightarrow> compare_sort_values render next_best kth descending = Greater))"

subsection \<open>Execution\<close>

datatype query_storage_kind = Iceberg | Speedboat

record query_extension_file_spec =
  qe_suffix :: string
  qe_file_path :: string

record query_input_file =
  qif_file :: file_descriptor
  qif_storage :: query_storage_kind
  qif_extensions :: "query_extension_file_spec list"

definition group_query_input_files_by_schema :: "query_input_file list \<Rightarrow> query_input_file list list" where
  "group_query_input_files_by_schema files =
     foldl (\<lambda>groups file. add_to_group (\<lambda>existing.
          qif_storage existing = qif_storage file \<and>
          fd_schema (qif_file existing) = fd_schema (qif_file file) \<and>
          sort (map qe_suffix (qif_extensions existing)) = sort (map qe_suffix (qif_extensions file)))
        file groups) [] files"

definition iceberg_query_inputs :: "file_descriptor list \<Rightarrow> query_input_file list" where
  "iceberg_query_inputs files =
     map (\<lambda>f. \<lparr>qif_file = f, qif_storage = Iceberg, qif_extensions = []\<rparr>) files"

definition speedboat_query_inputs :: "file_descriptor list \<Rightarrow> query_input_file list" where
  "speedboat_query_inputs files =
     map (\<lambda>f. \<lparr>qif_file = f, qif_storage = Speedboat, qif_extensions = []\<rparr>) files"

definition serving_query_input_groups ::
    "file_descriptor list \<Rightarrow> file_descriptor list \<Rightarrow> query_input_file list list" where
  "serving_query_input_groups files speedboat_files =
     group_query_input_files_by_schema (iceberg_query_inputs files @ speedboat_query_inputs speedboat_files)"

text \<open>\<open>completion\<close> is the order in which the concurrent group queries complete.\<close>

definition execute_parallel_plan ::
    "(json \<Rightarrow> string) \<Rightarrow> (query_input_file list list \<Rightarrow> query_input_file list list) \<Rightarrow>
     (query_input_file list \<Rightarrow> json list res) \<Rightarrow> file_descriptor list \<Rightarrow> file_descriptor list \<Rightarrow>
     read_plan \<Rightarrow> nat \<Rightarrow> json list res" where
  "execute_parallel_plan render completion exec files speedboat_files request limit =
     foldm (\<lambda>rows group. rmap (merge_rows render request limit rows) (exec group)) []
       (completion (serving_query_input_groups files speedboat_files))"

fun top_k_loop ::
    "(json \<Rightarrow> string) \<Rightarrow> (query_input_file list \<Rightarrow> json list res) \<Rightarrow> read_plan \<Rightarrow> read_sort \<Rightarrow> nat \<Rightarrow>
     json list \<Rightarrow> ordered_file_group list \<Rightarrow> json list res" where
  "top_k_loop render exec request s limit rows [] = Inr rows"
| "top_k_loop render exec request s limit rows (g # gs) =
     rbind (exec (iceberg_query_inputs (ofg_files g))) (\<lambda>new_rows.
       let rows' = merge_rows render request limit rows new_rows in
       if (case gs of
             [] \<Rightarrow> False
           | next_group # _ \<Rightarrow> remaining_groups_cannot_beat_kth_row render rows'
               (ofg_best_case_sort_value next_group) (rs_field s) (rs_descending s) limit)
       then Inr rows'
       else top_k_loop render exec request s limit rows' gs)"

definition execute_ordered_top_k_plan ::
    "(json \<Rightarrow> string) \<Rightarrow> (query_input_file list \<Rightarrow> json list res) \<Rightarrow> ordered_file_group list \<Rightarrow>
     read_plan \<Rightarrow> nat \<Rightarrow> json list res" where
  "execute_ordered_top_k_plan render exec groups request limit =
     (case rpl_order_by request of
        [] \<Rightarrow> Inr []
      | s # _ \<Rightarrow> top_k_loop render exec request s limit [] groups)"

text \<open>The last part of \<^verbatim>\<open>execute_plan\<close>: a row query that no lookup artifact answers.\<close>

definition execute_plan_scan ::
    "(json \<Rightarrow> string) \<Rightarrow> (query_input_file list list \<Rightarrow> query_input_file list list) \<Rightarrow>
     (query_input_file list \<Rightarrow> json list res) \<Rightarrow> file_descriptor list \<Rightarrow> file_descriptor list \<Rightarrow>
     (string, iceberg_file_stats) hash_map \<Rightarrow> iceberg_sort_field list \<Rightarrow> read_plan \<Rightarrow> nat \<Rightarrow> json list res" where
  "execute_plan_scan render completion exec files speedboat_files file_stats sort_order request limit =
     (case (if speedboat_files = [] then
              (case rpl_order_by request of
                 [] \<Rightarrow> None
               | s # _ \<Rightarrow> ordered_file_groups_for_top_k render files file_stats sort_order request
                   (rs_field s) (rs_descending s))
            else None) of
        Some ordered_groups \<Rightarrow> execute_ordered_top_k_plan render exec ordered_groups request limit
      | None \<Rightarrow> execute_parallel_plan render completion exec files speedboat_files request limit)"

subsection \<open>Best-k selections\<close>

text \<open>
  \<open>is_top_k c k rs M\<close>: \<open>rs\<close> is sorted, consists of \<open>k\<close> elements of \<open>M\<close> (all, if there are fewer),
  and none of the others is better. \<open>holds_top_k\<close> is what has to be true of an unsorted list for
  it to contain such a selection: an element it leaves out has \<open>k\<close> in the list that are no worse.
\<close>

definition is_top_k :: "('a \<Rightarrow> 'a \<Rightarrow> ordering) \<Rightarrow> nat \<Rightarrow> 'a list \<Rightarrow> 'a multiset \<Rightarrow> bool" where
  "is_top_k c k rs M \<longleftrightarrow> sorted_wrt (\<lambda>x y. c x y \<noteq> Greater) rs \<and> mset rs \<subseteq># M \<and>
     length rs = min k (size M) \<and> (\<forall>x \<in> set rs. \<forall>y \<in># M - mset rs. c x y \<noteq> Greater)"

definition holds_top_k :: "('a \<Rightarrow> 'a \<Rightarrow> ordering) \<Rightarrow> nat \<Rightarrow> 'a list \<Rightarrow> 'a multiset \<Rightarrow> bool" where
  "holds_top_k c k rs M \<longleftrightarrow> mset rs \<subseteq># M \<and>
     (\<forall>y \<in># M - mset rs. k \<le> length (filter (\<lambda>x. c x y \<noteq> Greater) rs))"

lemma mset_insert_by [simp]: "mset (insert_by c x xs) = add_mset x (mset xs)"
  by (induction c x xs rule: insert_by.induct) simp_all

lemma mset_sort_by [simp]: "mset (sort_by c xs) = mset xs"
  by (induction xs) (simp_all add: sort_by_def)

lemma set_sort_by [simp]: "set (sort_by c xs) = set xs"
  by (metis mset_sort_by set_mset_mset)

lemma length_sort_by [simp]: "length (sort_by c xs) = length xs"
  by (metis mset_sort_by size_mset)

lemma holds_top_k_empty [simp]: "holds_top_k c k [] {#}"
  by (simp add: holds_top_k_def)

lemma holds_top_k_split:
  "holds_top_k c k rs M \<longleftrightarrow>
     (\<exists>rest. M = mset rs + rest \<and> (\<forall>y \<in># rest. k \<le> length (filter (\<lambda>x. c x y \<noteq> Greater) rs)))"
  by (auto simp: holds_top_k_def mset_subset_eq_exists_conv)

lemma holds_top_k_append:
  assumes "holds_top_k c k rs M" "holds_top_k c k rs' M'"
  shows "holds_top_k c k (rs @ rs') (M + M')"
proof -
  from assms obtain R R' where "M = mset rs + R" "\<forall>y \<in># R. k \<le> length (filter (\<lambda>x. c x y \<noteq> Greater) rs)"
    "M' = mset rs' + R'" "\<forall>y \<in># R'. k \<le> length (filter (\<lambda>x. c x y \<noteq> Greater) rs')"
    by (auto simp: holds_top_k_split)
  then show ?thesis unfolding holds_top_k_split by (intro exI [of _ "R + R'"]) (auto intro: trans_le_add1 trans_le_add2)
qed

lemma is_top_k_holds:
  assumes "is_top_k c k rs M"
  shows "holds_top_k c k rs M"
proof -
  from assms have sub: "mset rs \<subseteq># M" and len: "length rs = min k (size M)"
    and le: "\<And>x y. x \<in> set rs \<Longrightarrow> y \<in># M - mset rs \<Longrightarrow> c x y \<noteq> Greater"
    by (auto simp: is_top_k_def)
  have "k \<le> length (filter (\<lambda>x. c x y \<noteq> Greater) rs)" if y: "y \<in># M - mset rs" for y
  proof -
    from y have "size (M - mset rs) \<noteq> 0" by auto
    with sub have "length rs \<noteq> size M" by (simp add: size_Diff_submset)
    moreover have "filter (\<lambda>x. c x y \<noteq> Greater) rs = rs" using le [OF _ y] by (simp add: filter_id_conv)
    ultimately show ?thesis using len by simp
  qed
  with sub show ?thesis by (simp add: holds_top_k_def)
qed

text \<open>The interface of a comparison that orders the elements of \<open>A\<close>.\<close>

locale ordered_rows =
  fixes c :: "'a \<Rightarrow> 'a \<Rightarrow> ordering" and A :: "'a set"
  assumes swap: "x \<in> A \<Longrightarrow> y \<in> A \<Longrightarrow> c x y = Greater \<Longrightarrow> c y x \<noteq> Greater"
    and chain: "x \<in> A \<Longrightarrow> y \<in> A \<Longrightarrow> z \<in> A \<Longrightarrow> c x y \<noteq> Greater \<Longrightarrow> c y z \<noteq> Greater \<Longrightarrow> c x z \<noteq> Greater"
begin

lemma sorted_insert_by:
  assumes "sorted_wrt (\<lambda>x y. c x y \<noteq> Greater) ys" "insert x (set ys) \<subseteq> A"
  shows "sorted_wrt (\<lambda>x y. c x y \<noteq> Greater) (insert_by c x ys)"
  using assms
proof (induction ys)
  case (Cons y ys)
  have set: "set (insert_by c x ys) = insert x (set ys)" by (metis mset_insert_by set_mset_add_mset_insert set_mset_mset)
  show ?case
  proof (cases "c x y = Greater")
    case True
    with Cons swap [of x y] set show ?thesis by auto
  next
    case False
    with Cons chain [of x y] show ?thesis by auto
  qed
qed simp

lemma sorted_sort_by: "set xs \<subseteq> A \<Longrightarrow> sorted_wrt (\<lambda>x y. c x y \<noteq> Greater) (sort_by c xs)"
proof (induction xs)
  case (Cons x xs)
  then have "sorted_wrt (\<lambda>x y. c x y \<noteq> Greater) (insert_by c x (sort_by c xs))"
    by (intro sorted_insert_by) simp_all
  then show ?case by (simp add: sort_by_def)
qed (simp add: sort_by_def)

text \<open>In a sorted list the elements below \<open>y\<close> come first.\<close>

lemma sorted_prefix:
  assumes "sorted_wrt (\<lambda>x y. c x y \<noteq> Greater) s" "insert y (set s) \<subseteq> A"
    and "k \<le> length (filter (\<lambda>x. c x y \<noteq> Greater) s)" "x \<in> set (take k s)"
  shows "c x y \<noteq> Greater"
  using assms
proof (induction s arbitrary: k)
  case (Cons z s)
  show ?case
  proof (cases "c z y = Greater")
    case True
    with Cons.prems(1,2) chain [of z _ y] have "filter (\<lambda>x. c x y \<noteq> Greater) (z # s) = []"
      by (auto simp: filter_empty_conv)
    with Cons.prems(3,4) show ?thesis by simp
  next
    case False
    with Cons show ?thesis by (cases k) auto
  qed
qed simp

lemma top_k_of_holds:
  assumes "holds_top_k c k rs M" "set_mset M \<subseteq> A"
  shows "is_top_k c k (take k (sort_by c rs)) M"
proof -
  let ?s = "sort_by c rs"
  from assms(1) obtain rest where M: "M = mset rs + rest"
    and rest: "\<And>y. y \<in># rest \<Longrightarrow> k \<le> length (filter (\<lambda>x. c x y \<noteq> Greater) rs)"
    by (auto simp: holds_top_k_split)
  have sorted: "sorted_wrt (\<lambda>x y. c x y \<noteq> Greater) ?s" using sorted_sort_by [of rs] assms(2) M by simp
  then have "sorted_wrt (\<lambda>x y. c x y \<noteq> Greater) (take k ?s @ drop k ?s)" by simp
  then have halves: "sorted_wrt (\<lambda>x y. c x y \<noteq> Greater) (take k ?s)"
    "\<forall>x \<in> set (take k ?s). \<forall>y \<in> set (drop k ?s). c x y \<noteq> Greater"
    unfolding sorted_wrt_append by blast+
  have split: "mset rs = mset (take k ?s) + mset (drop k ?s)"
    by (metis append_take_drop_id mset_append mset_sort_by)
  have counts: "length (filter P ?s) = length (filter P rs)" for P
    by (metis mset_filter mset_sort_by size_mset)
  have "c x y \<noteq> Greater" if "x \<in> set (take k ?s)" "y \<in># mset (drop k ?s) + rest" for x y
  proof (cases "y \<in># rest")
    case True
    with that(1) rest [OF True] counts sorted sorted_prefix [of ?s y k x] assms(2) M show ?thesis by auto
  next
    case False
    with that halves(2) show ?thesis by auto
  qed
  moreover have "length (take k ?s) = min k (size M)"
  proof (cases "rest = {#}")
    case False
    then obtain y where "y \<in># rest" by auto
    from rest [OF this] have "k \<le> length rs" using length_filter_le order_trans by blast
    then show ?thesis by (simp add: M)
  qed (simp add: M)
  ultimately show ?thesis
    using halves(1) unfolding is_top_k_def by (auto simp: M split)
qed

text \<open>A full selection stays one when nothing better is added.\<close>

lemma top_k_extend:
  assumes "is_top_k c k rs M" "length rs = k" "0 < k" "set_mset (M + N) \<subseteq> A"
    and "\<And>y. y \<in># N \<Longrightarrow> c (rs ! (k - 1)) y \<noteq> Greater"
  shows "is_top_k c k rs (M + N)"
proof -
  from assms(1) have sub: "mset rs \<subseteq># M" and sorted: "sorted_wrt (\<lambda>x y. c x y \<noteq> Greater) rs"
    by (simp_all add: is_top_k_def)
  then have A: "set rs \<subseteq> A" using assms(4) by (auto dest: mset_subset_eqD)
  have "c x y \<noteq> Greater" if x: "x \<in> set rs" and y: "y \<in># N" for x y
  proof -
    from x obtain i where i: "i < k" "x = rs ! i" using assms(2) by (auto simp: in_set_conv_nth)
    have last: "rs ! (k - 1) \<in> set rs" using assms(2,3) by simp
    have "i < k - 1 \<or> x = rs ! (k - 1)" using i by (cases "i = k - 1") auto
    then show ?thesis
    proof
      assume "i < k - 1"
      then have "c x (rs ! (k - 1)) \<noteq> Greater"
        using sorted assms(2,3) i by (simp add: sorted_wrt_iff_nth_less)
      with chain [of x "rs ! (k - 1)" y] assms(4,5) A x y last show ?thesis by auto
    qed (use assms(5) y in simp)
  qed
  moreover obtain R where "M = mset rs + R" using sub by (auto simp: mset_subset_eq_exists_conv)
  ultimately show ?thesis using assms(1,2) unfolding is_top_k_def by (auto simp: add.assoc)
qed

end

subsection \<open>Values of one kind are ordered\<close>

text \<open>The values of a column are of one kind or null.\<close>

datatype value_kind = Number_Kind | String_Kind | Bool_Kind

fun of_kind :: "value_kind \<Rightarrow> json \<Rightarrow> bool" where
  "of_kind k JNull \<longleftrightarrow> True"
| "of_kind k (JNumber n) \<longleftrightarrow> k = Number_Kind"
| "of_kind k (JString s) \<longleftrightarrow> k = String_Kind"
| "of_kind k (JBool b) \<longleftrightarrow> k = Bool_Kind"
| "of_kind k _ \<longleftrightarrow> False"

lemma of_kind_cases:
  assumes "of_kind k v"
  obtains "v = JNull" | n where "k = Number_Kind" "v = JNumber n" | s where "k = String_Kind" "v = JString s" |
    b where "k = Bool_Kind" "v = JBool b"
  using assms by (cases v) auto

lemma reverse_simps [simp]:
  "ordering_reverse c = Greater \<longleftrightarrow> c = Less" "ordering_reverse c = Less \<longleftrightarrow> c = Greater"
  by (cases c; simp)+

lemma compare_values_swap:
  assumes "of_kind k x" "of_kind k y"
  shows "compare_values render x y = Greater \<longleftrightarrow> compare_values render y x = Less"
  using assms by (auto elim!: of_kind_cases)

lemma compare_values_chain:
  assumes "of_kind k x" "of_kind k y" "of_kind k z" "compare_values render x y \<noteq> Greater" "compare_values render y z \<noteq> Greater"
  shows "compare_values render x z \<noteq> Greater"
  using assms by (auto elim!: of_kind_cases)

lemma compare_sort_swap:
  assumes "of_kind k x" "of_kind k y" "compare_sort_values render x y d = Greater"
  shows "compare_sort_values render y x d = Less"
  using assms compare_values_swap [of k x y render] compare_values_swap [of k y x render]
  by (auto simp: compare_sort_values_def compare_row_values_def Let_def split: if_splits)

lemma compare_sort_chain:
  assumes "of_kind k x" "of_kind k y" "of_kind k z"
    and "compare_sort_values render x y d \<noteq> Greater" "compare_sort_values render y z d \<noteq> Greater"
  shows "compare_sort_values render x z d \<noteq> Greater"
  using assms compare_values_chain [of k x y z] compare_values_chain [of k z y x] compare_values_swap [of k]
  by (auto simp: compare_sort_values_def compare_row_values_def Let_def split: if_splits)

text \<open>The value a result row is sorted by.\<close>

definition sort_value :: "string \<Rightarrow> json \<Rightarrow> json" where
  "sort_value field row = (case json_get row field of Some v \<Rightarrow> v | None \<Rightarrow> JNull)"

definition rows_of_kind :: "value_kind \<Rightarrow> string \<Rightarrow> json set" where
  "rows_of_kind k field = {row. of_kind k (sort_value field row)}"

lemma compare_rows_sort_values:
  "compare_rows render field d l r = compare_sort_values render (sort_value field l) (sort_value field r) d"
  by (simp add: sort_value_def compare_rows_def compare_sort_values_def compare_row_values_def)

interpretation rows: ordered_rows "compare_rows render field d" "rows_of_kind k field" for render field d k
proof
  fix x y z
  assume x: "x \<in> rows_of_kind k field" and y: "y \<in> rows_of_kind k field"
  show "compare_rows render field d x y = Greater \<Longrightarrow> compare_rows render field d y x \<noteq> Greater"
    unfolding compare_rows_sort_values using x y compare_sort_swap [of k "sort_value field x"] by (auto simp: rows_of_kind_def)
  assume z: "z \<in> rows_of_kind k field"
  show "compare_rows render field d x y \<noteq> Greater \<Longrightarrow> compare_rows render field d y z \<noteq> Greater \<Longrightarrow>
      compare_rows render field d x z \<noteq> Greater"
    unfolding compare_rows_sort_values using x y z compare_sort_chain [of k "sort_value field x" "sort_value field y"] by (simp add: rows_of_kind_def)
qed

definition groups_of_kind :: "value_kind \<Rightarrow> ordered_file_group set" where
  "groups_of_kind k = {g. of_kind k (ofg_best_case_sort_value g)}"

interpretation groups: ordered_rows
  "\<lambda>l r. compare_sort_values render (ofg_best_case_sort_value l) (ofg_best_case_sort_value r) d" "groups_of_kind k"
  for render d k
proof
  fix x y z :: ordered_file_group
  assume x: "x \<in> groups_of_kind k" and y: "y \<in> groups_of_kind k"
  show "compare_sort_values render (ofg_best_case_sort_value x) (ofg_best_case_sort_value y) d = Greater \<Longrightarrow>
      compare_sort_values render (ofg_best_case_sort_value y) (ofg_best_case_sort_value x) d \<noteq> Greater"
    using x y compare_sort_swap [of k "ofg_best_case_sort_value x"] by (auto simp: groups_of_kind_def)
  assume z: "z \<in> groups_of_kind k"
  show "compare_sort_values render (ofg_best_case_sort_value x) (ofg_best_case_sort_value y) d \<noteq> Greater \<Longrightarrow>
      compare_sort_values render (ofg_best_case_sort_value y) (ofg_best_case_sort_value z) d \<noteq> Greater \<Longrightarrow>
      compare_sort_values render (ofg_best_case_sort_value x) (ofg_best_case_sort_value z) d \<noteq> Greater"
    using x y z compare_sort_chain [of k "ofg_best_case_sort_value x" "ofg_best_case_sort_value y"]
    by (simp add: groups_of_kind_def)
qed

subsection \<open>The bound of a group is no worse than its rows\<close>

text \<open>A row sorts no earlier than a bound.\<close>

abbreviation bounded :: "(json \<Rightarrow> string) \<Rightarrow> bool \<Rightarrow> json \<Rightarrow> json \<Rightarrow> bool" where
  "bounded render d b v \<equiv> compare_sort_values render b v d \<noteq> Greater"

lemma compare_values_bound:
  assumes "sql_compare v b = Some c" "double_json v" "double_json b"
  shows "c \<noteq> Less \<Longrightarrow> compare_values render b v \<noteq> Greater" "c \<noteq> Greater \<Longrightarrow> compare_values render b v \<noteq> Less"
proof -
  from assms(1) consider
      l r where "v = JNumber l" "b = JNumber r" "c = cmp (exact l) (exact r)"
    | l r where "v = JString l" "b = JString r" "c = cmp l r" | l r where "v = JBool l" "b = JBool r" "c = cmp l r"
    unfolding sql_compare_Some by blast
  then have "(c \<noteq> Less \<longrightarrow> compare_values render b v \<noteq> Greater) \<and> (c \<noteq> Greater \<longrightarrow> compare_values render b v \<noteq> Less)"
  proof cases
    case 1
    with assms as_f64_mono [of l r] as_f64_mono [of r l] show ?thesis
      by (auto simp del: double_json.simps simp: not_less)
  qed auto
  then show "c \<noteq> Less \<Longrightarrow> compare_values render b v \<noteq> Greater" "c \<noteq> Greater \<Longrightarrow> compare_values render b v \<noteq> Less"
    by blast+
qed

lemma compare_values_null [simp]: "compare_values render v JNull \<noteq> Greater"
  by (cases v) simp_all

lemma column_bound:
  assumes "describes_column cs rc vs" "v \<in> set vs" "bounds_ok cs" "double_json v" "d \<longrightarrow> v \<noteq> JNull"
    and "column_sort_bound cs rc d = Some b"
  shows "bounded render d b v"
proof (cases "v = JNull")
  case True
  with assms(5) show ?thesis by (simp add: compare_sort_values_def compare_row_values_def)
next
  case False
  note bounds = describes_bounds [OF assms(1,2) False]
  from assms(6) describes_not_all_null [OF assms(1,2) False]
  have b: "(if d then cs_upper_bound cs else cs_lower_bound cs) = Some b"
    by (auto simp: column_sort_bound_def split: if_splits)
  with assms(3) have "double_json b" by (auto simp: bounds_ok_def split: if_splits)
  with b bounds compare_values_bound [OF _ assms(4), of b] show ?thesis
    by (cases d) (fastforce simp: compare_sort_values_def compare_row_values_def)+
qed

lemma bounded_refl: "of_kind k b \<Longrightarrow> bounded render d b b"
  using compare_sort_swap [of k b b] by auto

lemma best_bound_loop_best:
  assumes "best_bound_loop render d bound best xs = Some best'"
    and "\<And>x b. x \<in> set xs \<Longrightarrow> bound x = Some b \<Longrightarrow> of_kind k b" "opt_all (of_kind k) best"
  shows "opt_all (of_kind k) best' \<and>
    (\<forall>b. best = Some b \<or> (\<exists>x \<in> set xs. bound x = Some b) \<longrightarrow> (\<exists>b'. best' = Some b' \<and> bounded render d b' b)) \<and>
    (\<forall>x \<in> set xs. bound x \<noteq> None)"
  using assms
proof (induction xs arbitrary: best)
  case Nil
  then show ?case using bounded_refl by auto
next
  case (Cons x xs)
  from Cons.prems(1) obtain cand where cand: "bound x = Some cand" by (auto split: option.splits)
  define next_best where "next_best = (if (case best of Some b \<Rightarrow> compare_sort_values render cand b d = Less | None \<Rightarrow> True)
      then Some cand else best)"
  have run: "best_bound_loop render d bound next_best xs = Some best'"
    using Cons.prems(1) cand by (simp add: next_best_def)
  have kind: "of_kind k cand" using Cons.prems(2) [of x] cand by simp
  have rest: "of_kind k b" if "y \<in> set xs" "bound y = Some b" for y b using Cons.prems(2) [of y] that by simp
  have kinds: "opt_all (of_kind k) next_best" using kind Cons.prems(3) by (simp add: next_best_def)
  have IH: "opt_all (of_kind k) best' \<and>
    (\<forall>b. next_best = Some b \<or> (\<exists>x \<in> set xs. bound x = Some b) \<longrightarrow> (\<exists>b'. best' = Some b' \<and> bounded render d b' b)) \<and>
    (\<forall>x \<in> set xs. bound x \<noteq> None)"
    by (rule Cons.IH [OF run _ kinds]) (rule rest)
  obtain n where n: "next_best = Some n" "bounded render d n cand" "\<And>b. best = Some b \<Longrightarrow> bounded render d n b"
  proof (cases best)
    case None
    then show ?thesis using that [of cand] bounded_refl [OF kind] by (simp add: next_best_def)
  next
    case (Some b)
    with Cons.prems(3) have "of_kind k b" by simp
    with Some that [of cand] that [of b] kind bounded_refl [of k] compare_sort_swap [of k b cand render d] show ?thesis
      by (cases "compare_sort_values render cand b d = Less") (auto simp: next_best_def)
  qed
  from IH n(1) obtain b' where b': "best' = Some b'" "bounded render d b' n" by auto
  from IH b'(1) kinds n(1) have kb: "of_kind k b'" "of_kind k n" by auto
  have "bounded render d b' b" if some: "best = Some b \<or> (\<exists>y \<in> set (x # xs). bound y = Some b)" for b
  proof -
    consider "best = Some b" | "b = cand" | y where "y \<in> set xs" "bound y = Some b"
      using some cand by auto
    then show ?thesis
    proof cases
      case 1
      with n(3) kb b'(2) Cons.prems(3) compare_sort_chain [of k b' n b] show ?thesis by auto
    next
      case 2
      with n(2) kb b'(2) kind compare_sort_chain [of k b' n b] show ?thesis by auto
    next
      case 3
      with IH b'(1) show ?thesis by auto
    qed
  qed
  with b'(1) kb IH cand show ?case by auto
qed

text \<open>The bounds the statistics of a file give for the sort field are of the kind of the column.\<close>

definition sortable_file :: "value_kind \<Rightarrow> string \<Rightarrow> iceberg_file_stats \<Rightarrow> bool" where
  "sortable_file k sort_field st \<longleftrightarrow>
     (\<forall>cs \<in> set (st_columns st @ concat (map rg_columns (st_row_groups st))). cs_field_name cs = sort_field \<longrightarrow>
        opt_all (of_kind k) (cs_lower_bound cs) \<and> opt_all (of_kind k) (cs_upper_bound cs)) \<and>
     (\<forall>pv \<in> set (st_partition_values st). pv_source_field_name pv = sort_field \<longrightarrow> opt_all (of_kind k) (pv_value pv))"

lemma column_sort_bound_kind:
  assumes "column_sort_bound cs rc d = Some b" "opt_all (of_kind k) (cs_lower_bound cs)" "opt_all (of_kind k) (cs_upper_bound cs)"
  shows "of_kind k b"
  using assms by (auto simp: column_sort_bound_def split: if_splits)

lemma find_SomeD: "find P xs = Some x \<Longrightarrow> x \<in> set xs \<and> P x"
  by (auto simp: find_Some_iff)

lemma file_level_bound:
  assumes "describes_file st rows" "usable_file ps st" "sortable_file k f st" "row \<in> set rows"
    and "double_json (row_value row f)" "d \<longrightarrow> row_value row f \<noteq> JNull"
    and "file_level_sort_bound st so f d = Some b"
  shows "bounded render d b (row_value row f) \<and> of_kind k b"
proof (cases "find (\<lambda>cs. cs_field_name cs = f) (st_columns st)")
  case (Some cs)
  then have cs: "cs \<in> set (st_columns st)" "cs_field_name cs = f" by (auto simp: find_Some_iff)
  from Some assms(7) have b: "column_sort_bound cs (st_record_count st) d = Some b" by (simp add: file_level_sort_bound_def)
  have "bounded render d b (row_value row f)"
    by (rule column_bound [OF _ _ _ assms(5,6) b]) (use cs assms in \<open>auto simp: describes_file_def describes_columns_def
        usable_file_def usable_columns_def\<close>)
  moreover have "of_kind k b"
    by (rule column_sort_bound_kind [OF b]) (use cs assms(3) in \<open>auto simp: sortable_file_def\<close>)
  ultimately show ?thesis ..
next
  case None
  with assms(7) obtain pv where pv: "pv \<in> set (st_partition_values st)" "pv_source_field_name pv = f"
    "pv_transform pv = ''identity''" "pv_value pv = Some b"
    by (auto simp: file_level_sort_bound_def partition_value_sort_bound_def bind_eq_Some_conv
        split: if_splits dest!: find_SomeD)
  with assms(1-4) have "row_value row f = JNull \<or> sql_compare (row_value row f) b = Some Equal" "double_json b" "of_kind k b"
    by (auto simp: describes_file_def usable_file_def sortable_file_def dest!: bspec)
  with assms(5,6) compare_values_bound [of "row_value row f" b Equal] show ?thesis
    by (auto simp: compare_sort_values_def compare_row_values_def Let_def split: if_splits)
qed

lemma row_group_bound:
  assumes "describes_columns (rg_columns rg) (rg_record_count rg) rows" "row \<in> set rows" "usable_columns ps (rg_columns rg)"
    and "double_json (row_value row f)" "d \<longrightarrow> row_value row f \<noteq> JNull" "row_group_sort_bound rg f d = Some b"
  shows "bounded render d b (row_value row f)"
proof -
  from assms(6) obtain cs where cs: "cs \<in> set (rg_columns rg)" "cs_field_name cs = f"
    "column_sort_bound cs (rg_record_count rg) d = Some b"
    by (auto simp: row_group_sort_bound_def split: option.splits dest!: find_SomeD)
  show ?thesis
    by (rule column_bound [OF _ _ _ assms(4,5) cs(3)]) (use cs assms in \<open>auto simp: describes_columns_def usable_columns_def\<close>)
qed

lemma row_group_bound_kind:
  assumes "sortable_file k f st" "rg \<in> set (st_row_groups st)" "row_group_sort_bound rg f d = Some b"
  shows "of_kind k b"
proof -
  from assms(3) obtain cs where cs: "cs \<in> set (rg_columns rg)" "cs_field_name cs = f"
    "column_sort_bound cs (rg_record_count rg) d = Some b"
    by (auto simp: row_group_sort_bound_def split: option.splits dest!: find_SomeD)
  with assms(1,2) show ?thesis by (intro column_sort_bound_kind [OF cs(3)]) (auto simp: sortable_file_def)
qed

lemma file_bound:
  assumes "fmlookup stats (fd_path file) = Some st" "describes_file st rows"
    and "usable_file (serving_request_predicates request) st" "sortable_file k f st"
    and "row \<in> set rows" "row_matches (serving_request_predicates request) row"
    and "list_all operands_ok (serving_request_predicates request)"
    and "double_json (row_value row f)" "d \<longrightarrow> row_value row f \<noteq> JNull" "of_kind k (row_value row f)"
    and "file_sort_bound render stats so request f d file = Some b"
  shows "bounded render d b (row_value row f) \<and> of_kind k b"
proof (cases "st_row_groups st = []")
  case True
  with assms(1,11) file_level_bound [OF assms(2-5,8,9)] show ?thesis by (simp add: file_sort_bound_def)
next
  case False
  let ?m = "filter (\<lambda>rg. row_group_may_match_request rg request) (st_row_groups st)"
  let ?loop = "best_bound_loop render d (\<lambda>rg. row_group_sort_bound rg f d) None ?m"
  show ?thesis
  proof (cases ?loop)
    case None
    with assms(1,11) False file_level_bound [OF assms(2-5,8,9)] show ?thesis
      by (simp add: file_sort_bound_def Let_def split: if_splits)
  next
    case (Some best)
    from assms(2,5) False obtain parts where "row \<in> set (concat parts)"
      "list_all2 (\<lambda>rg part. describes_columns (rg_columns rg) (rg_record_count rg) part) (st_row_groups st) parts"
      by (auto simp: describes_file_def)
    with row_groups_sound [of "st_row_groups st" parts row "serving_request_predicates request"] assms(3,6,7)
    obtain rg part where rg: "rg \<in> set ?m" "describes_columns (rg_columns rg) (rg_record_count rg) part" "row \<in> set part"
      by (auto simp: usable_file_def row_group_may_match_request_def)
    have best: "opt_all (of_kind k) best \<and>
        (\<forall>b. None = Some b \<or> (\<exists>x \<in> set ?m. row_group_sort_bound x f d = Some b) \<longrightarrow>
          (\<exists>b'. best = Some b' \<and> bounded render d b' b)) \<and> (\<forall>x \<in> set ?m. row_group_sort_bound x f d \<noteq> None)"
      by (rule best_bound_loop_best [OF Some]) (auto intro: row_group_bound_kind [OF assms(4)])
    with rg(1) obtain c where c: "row_group_sort_bound rg f d = Some c" by auto
    from rg(1) have "?m \<noteq> []" by (auto simp: filter_empty_conv)
    with assms(1,11) False Some have b: "best = Some b" by (simp add: file_sort_bound_def Let_def)
    with best rg(1) c have "bounded render d b c" "of_kind k b" by auto
    moreover have "bounded render d c (row_value row f)"
      by (rule row_group_bound [OF rg(2,3) _ assms(8,9) c]) (use assms(3) rg(1) in \<open>auto simp: usable_file_def\<close>)
    moreover have "of_kind k c" using row_group_bound_kind [OF assms(4) _ c] rg(1) by simp
    ultimately show ?thesis using compare_sort_chain [of k b c "row_value row f"] assms(10) by blast
  qed
qed

subsection \<open>The rows a query is about\<close>

text \<open>
  \<open>rows_of\<close> gives the rows of a file, \<open>live\<close> tells the rows that no delete file removes and \<open>out\<close>
  is the projection of the query. \<open>matching_rows\<close> are the results of all files together.
\<close>

definition file_rows ::
    "(json_map \<Rightarrow> json) \<Rightarrow> (json_map \<Rightarrow> bool) \<Rightarrow> query_predicate list \<Rightarrow> (file_descriptor \<Rightarrow> json_map list) \<Rightarrow>
     file_descriptor \<Rightarrow> json multiset" where
  "file_rows out live ps rows_of f = mset (map out (filter (\<lambda>r. live r \<and> row_matches ps r) (rows_of f)))"

definition matching_rows ::
    "(json_map \<Rightarrow> json) \<Rightarrow> (json_map \<Rightarrow> bool) \<Rightarrow> query_predicate list \<Rightarrow> (file_descriptor \<Rightarrow> json_map list) \<Rightarrow>
     file_descriptor list \<Rightarrow> json multiset" where
  "matching_rows out live ps rows_of fs = sum_mset (image_mset (file_rows out live ps rows_of) (mset fs))"

text \<open>The contract of the query engine: it returns, and its rows contain a best-\<open>k\<close> selection.\<close>

definition engine_ok ::
    "('r \<Rightarrow> 'r \<Rightarrow> ordering) \<Rightarrow> nat \<Rightarrow> (file_descriptor list \<Rightarrow> 'r multiset) \<Rightarrow>
     (query_input_file list \<Rightarrow> 'r list res) \<Rightarrow> bool" where
  "engine_ok c limit content exec \<longleftrightarrow>
     (\<forall>fs. \<exists>rs. exec fs = Inr rs \<and> holds_top_k c limit rs (content (map qif_file fs)))"

lemma matching_rows_append [simp]:
  "matching_rows out live ps rows_of (xs @ ys) = matching_rows out live ps rows_of xs + matching_rows out live ps rows_of ys"
  by (simp add: matching_rows_def)

lemma matching_rows_Nil [simp]: "matching_rows out live ps rows_of [] = {#}"
  by (simp add: matching_rows_def)

lemma matching_rows_mset: "mset xs = mset ys \<Longrightarrow> matching_rows out live ps rows_of xs = matching_rows out live ps rows_of ys"
  by (simp add: matching_rows_def)

lemma matching_rows_mem:
  "y \<in># matching_rows out live ps rows_of fs \<longleftrightarrow>
     (\<exists>f \<in> set fs. \<exists>r \<in> set (rows_of f). live r \<and> row_matches ps r \<and> y = out r)"
  by (auto simp: matching_rows_def file_rows_def)

text \<open>Merging the rows of the next group.\<close>

lemma merge_rows_top_k:
  assumes "is_top_k (compare_rows render (rs_field s) (rs_descending s)) limit rows M"
    and "holds_top_k (compare_rows render (rs_field s) (rs_descending s)) limit new N"
    and "rpl_order_by request = s # ss" "set_mset (M + N) \<subseteq> rows_of_kind k (rs_field s)"
  shows "is_top_k (compare_rows render (rs_field s) (rs_descending s)) limit (merge_rows render request limit rows new) (M + N)"
  using rows.top_k_of_holds [OF holds_top_k_append [OF is_top_k_holds [OF assms(1)] assms(2)] assms(4)] assms(3)
  by (simp add: merge_rows_def)

lemma parallel_top_k:
  assumes "engine_ok (compare_rows render (rs_field s) (rs_descending s)) limit (matching_rows out live ps rows_of) exec"
    and "rpl_order_by request = s # ss" "is_top_k (compare_rows render (rs_field s) (rs_descending s)) limit rows M"
    and "set_mset (M + matching_rows out live ps rows_of (map qif_file (concat groups))) \<subseteq> rows_of_kind k (rs_field s)"
  shows "\<exists>rs. foldm (\<lambda>rows group. rmap (merge_rows render request limit rows) (exec group)) rows groups = Inr rs \<and>
    is_top_k (compare_rows render (rs_field s) (rs_descending s)) limit rs
      (M + matching_rows out live ps rows_of (map qif_file (concat groups)))"
  using assms(3,4)
proof (induction groups arbitrary: rows M)
  case (Cons g gs)
  let ?c = "compare_rows render (rs_field s) (rs_descending s)"
  let ?N = "matching_rows out live ps rows_of (map qif_file g)"
  from assms(1) obtain new where new: "exec g = Inr new" "holds_top_k ?c limit new ?N"
    unfolding engine_ok_def by blast
  have "is_top_k ?c limit (merge_rows render request limit rows new) (M + ?N)"
    by (rule merge_rows_top_k [OF Cons.prems(1) new(2) assms(2)]) (use Cons.prems(2) in auto)
  from Cons.IH [OF this] Cons.prems(2) new(1) show ?case by (simp add: add.assoc)
qed simp

subsection \<open>The early stop is harmless\<close>

lemma file_level_bound_kind:
  "sortable_file k f st \<Longrightarrow> file_level_sort_bound st so f d = Some b \<Longrightarrow> of_kind k b"
  by (auto simp: file_level_sort_bound_def partition_value_sort_bound_def sortable_file_def bind_eq_Some_conv
      split: option.splits if_splits dest!: find_SomeD intro: column_sort_bound_kind)

lemma file_bound_kind:
  assumes "opt_all (sortable_file k f) (fmlookup stats (fd_path file))" "file_sort_bound render stats so request f d file = Some b"
  shows "of_kind k b"
proof -
  from assms(2) obtain st where st: "fmlookup stats (fd_path file) = Some st"
    by (auto simp: file_sort_bound_def split: option.splits)
  with assms(1) have sortable: "sortable_file k f st" by simp
  let ?m = "filter (\<lambda>rg. row_group_may_match_request rg request) (st_row_groups st)"
  have "opt_all (of_kind k) best"
    if "best_bound_loop render d (\<lambda>rg. row_group_sort_bound rg f d) None ?m = Some best" for best
    by (rule best_bound_loop_best [OF that, THEN conjunct1]) (auto intro: row_group_bound_kind [OF sortable])
  with assms(2) st file_level_bound_kind [OF sortable] show ?thesis
    by (auto simp: file_sort_bound_def Let_def split: if_splits option.splits)
qed

text \<open>
  What is assumed of a table: the sort values are of one kind, and the statistics describe the
  rows. For a descending order no sort value is null.
\<close>

definition sorted_table ::
    "value_kind \<Rightarrow> string \<Rightarrow> bool \<Rightarrow> query_predicate list \<Rightarrow> (string, iceberg_file_stats) hash_map \<Rightarrow>
     (file_descriptor \<Rightarrow> json_map list) \<Rightarrow> file_descriptor list \<Rightarrow> bool" where
  "sorted_table k f d ps stats rows_of files \<longleftrightarrow>
     (\<forall>file \<in> set files.
        (\<forall>row \<in> set (rows_of file). double_json (row_value row f) \<and> of_kind k (row_value row f) \<and>
           (d \<longrightarrow> row_value row f \<noteq> JNull)) \<and>
        opt_all (\<lambda>st. describes_file st (rows_of file) \<and> usable_file ps st \<and> sortable_file k f st)
          (fmlookup stats (fd_path file)))"

lemma group_bound:
  assumes "file_group_sort_bound render stats so request f d files = Some b"
    and "sorted_table k f d (serving_request_predicates request) stats rows_of files"
    and "list_all operands_ok (serving_request_predicates request)"
  shows "of_kind k b \<and> (\<forall>fl \<in> set files. \<forall>row \<in> set (rows_of fl).
    row_matches (serving_request_predicates request) row \<longrightarrow> bounded render d b (row_value row f))"
proof -
  let ?bound = "file_sort_bound render stats so request f d"
  from assms(1) have loop: "best_bound_loop render d ?bound None files = Some (Some b)"
    by (auto simp: file_group_sort_bound_def split: option.splits)
  have kind: "of_kind k c" if "fl \<in> set files" "?bound fl = Some c" for fl c
    using file_bound_kind [OF _ that(2)] assms(2) that(1)
    by (cases "fmlookup stats (fd_path fl)") (auto simp: sorted_table_def)
  have best: "of_kind k b" "\<And>c fl. fl \<in> set files \<Longrightarrow> ?bound fl = Some c \<Longrightarrow> bounded render d b c"
    "\<And>fl. fl \<in> set files \<Longrightarrow> ?bound fl \<noteq> None"
    using best_bound_loop_best [OF loop, of k] kind by auto
  have "bounded render d b (row_value row f)"
    if "fl \<in> set files" "row \<in> set (rows_of fl)" "row_matches (serving_request_predicates request) row" for fl row
  proof -
    from best(3) [OF that(1)] obtain c st where c: "?bound fl = Some c" "fmlookup stats (fd_path fl) = Some st"
      by (auto simp: file_sort_bound_def split: option.splits)
    from assms(2) that(1,2) c(2) have st: "describes_file st (rows_of fl)"
      "usable_file (serving_request_predicates request) st" "sortable_file k f st"
      and v: "double_json (row_value row f)" "d \<longrightarrow> row_value row f \<noteq> JNull" "of_kind k (row_value row f)"
      by (auto simp: sorted_table_def)
    from file_bound [OF c(2) st that(2,3) assms(3) v c(1)] best(2) [OF that(1) c(1)] v(3)
      compare_sort_chain [of k b c "row_value row f"] best(1) show ?thesis by blast
  qed
  with best(1) show ?thesis by blast
qed

lemma top_k_loop_correct:
  assumes "engine_ok (compare_rows render (rs_field s) (rs_descending s)) limit (matching_rows out live ps rows_of) exec"
    and order: "rpl_order_by request = s # ss"
    and "is_top_k (compare_rows render (rs_field s) (rs_descending s)) limit rows M"
    and "set_mset (M + matching_rows out live ps rows_of (concat (map ofg_files groups))) \<subseteq> rows_of_kind k (rs_field s)"
    and "set groups \<subseteq> groups_of_kind k"
    and "sorted_wrt (\<lambda>l r. bounded render (rs_descending s) (ofg_best_case_sort_value l) (ofg_best_case_sort_value r)) groups"
    and "\<And>g y. g \<in> set groups \<Longrightarrow> y \<in># matching_rows out live ps rows_of (ofg_files g) \<Longrightarrow>
      bounded render (rs_descending s) (ofg_best_case_sort_value g) (sort_value (rs_field s) y)"
  shows "\<exists>rs. top_k_loop render exec request s limit rows groups = Inr rs \<and>
    is_top_k (compare_rows render (rs_field s) (rs_descending s)) limit rs
      (M + matching_rows out live ps rows_of (concat (map ofg_files groups)))"
  using assms(3-7)
proof (induction groups arbitrary: rows M)
  case (Cons g gs)
  let ?c = "compare_rows render (rs_field s) (rs_descending s)" let ?d = "rs_descending s"
  let ?N = "matching_rows out live ps rows_of (ofg_files g)"
  let ?R = "matching_rows out live ps rows_of (concat (map ofg_files gs))"
  have files: "map qif_file (iceberg_query_inputs fs) = fs" for fs by (simp add: iceberg_query_inputs_def comp_def)
  from assms(1) have "\<exists>new. exec (iceberg_query_inputs (ofg_files g)) = Inr new \<and>
      holds_top_k ?c limit new (matching_rows out live ps rows_of (map qif_file (iceberg_query_inputs (ofg_files g))))"
    unfolding engine_ok_def by blast
  then obtain new where new: "exec (iceberg_query_inputs (ofg_files g)) = Inr new" "holds_top_k ?c limit new ?N"
    unfolding files by blast
  define rows' where "rows' = merge_rows render request limit rows new"
  have top: "is_top_k ?c limit rows' (M + ?N)" unfolding rows'_def
    by (rule merge_rows_top_k [OF Cons.prems(1) new(2) order]) (use Cons.prems(2) in auto)
  show ?case
  proof (cases "\<exists>h hs. gs = h # hs \<and> remaining_groups_cannot_beat_kth_row render rows' (ofg_best_case_sort_value h)
      (rs_field s) ?d limit")
    case True
    then obtain h hs where gs: "gs = h # hs"
      and stop: "remaining_groups_cannot_beat_kth_row render rows' (ofg_best_case_sort_value h) (rs_field s) ?d limit" by blast
    let ?kth = "rows' ! (limit - 1)"
    from stop have len: "0 < limit" "limit \<le> length rows'"
      and beat: "compare_sort_values render (ofg_best_case_sort_value h) (sort_value (rs_field s) ?kth) ?d = Greater"
      by (auto simp: remaining_groups_cannot_beat_kth_row_def sort_value_def split: if_splits option.splits)
    from top len have len': "length rows' = limit" by (simp add: is_top_k_def)
    from top len' len(1) have kth: "?kth \<in> rows_of_kind k (rs_field s)"
      using Cons.prems(2) nth_mem [of "limit - 1" rows'] by (auto simp: is_top_k_def dest!: mset_subset_eqD)
    have "?c ?kth y \<noteq> Greater" if y: "y \<in># ?R" for y
    proof -
      from y obtain g' where g': "g' \<in> set gs" "y \<in># matching_rows out live ps rows_of (ofg_files g')"
        by (auto simp: matching_rows_mem)
      have kinds: "of_kind k (ofg_best_case_sort_value h)" "of_kind k (ofg_best_case_sort_value g')"
        "of_kind k (sort_value (rs_field s) y)" "of_kind k (sort_value (rs_field s) ?kth)"
        using Cons.prems(2,3) gs g' y kth by (auto simp: groups_of_kind_def rows_of_kind_def)
      have "bounded render ?d (sort_value (rs_field s) ?kth) (ofg_best_case_sort_value h)"
        using compare_sort_swap [OF kinds(1,4) beat] by simp
      moreover have "bounded render ?d (ofg_best_case_sort_value h) (ofg_best_case_sort_value g')"
        using Cons.prems(4) gs g'(1) bounded_refl [OF kinds(1)] by auto
      moreover have "bounded render ?d (ofg_best_case_sort_value g') (sort_value (rs_field s) y)"
        using Cons.prems(5) [of g'] g' by simp
      ultimately show ?thesis unfolding compare_rows_sort_values using kinds compare_sort_chain by metis
    qed
    from rows.top_k_extend [OF top len' len(1) _ this] Cons.prems(2)
    have "is_top_k ?c limit rows' (M + ?N + ?R)" by (simp add: add.assoc)
    with new(1) stop gs show ?thesis by (simp add: rows'_def Let_def add.assoc)
  next
    case False
    have "\<exists>rs. top_k_loop render exec request s limit rows' gs = Inr rs \<and> is_top_k ?c limit rs (M + ?N + ?R)"
      by (rule Cons.IH [OF top]) (use Cons.prems in \<open>auto simp: add.assoc\<close>)
    with False new(1) show ?thesis by (auto simp: rows'_def Let_def add.assoc split: list.splits)
  qed
qed simp

lemma mset_concat_perm: "mset xs = mset ys \<Longrightarrow> mset (concat xs) = mset (concat ys)"
  by (metis mset_concat mset_map sum_mset_sum_list)

lemma group_query_input_files_mset: "mset (concat (group_query_input_files_by_schema xs)) = mset xs"
  unfolding group_query_input_files_by_schema_def by (rule trans [OF foldl_groups]) simp

lemma query_groups_mset: "mset (concat (serving_query_input_groups files speedboat)) =
    mset (iceberg_query_inputs files @ speedboat_query_inputs speedboat)"
  by (simp only: serving_query_input_groups_def group_query_input_files_mset)

lemma collect_options_Some: "collect_options (map f xs) = Some ys \<longleftrightarrow> list_all2 (\<lambda>x y. f x = Some y) xs ys"
  by (induction xs arbitrary: ys) (auto simp: list_all2_Cons1 split: option.splits)

lemma ordered_groups:
  assumes "ordered_file_groups_for_top_k render files stats so request f d = Some groups"
    and "sorted_table k f d (serving_request_predicates request) stats rows_of files"
    and "list_all operands_ok (serving_request_predicates request)"
  shows "mset (concat (map ofg_files groups)) = mset files" "set groups \<subseteq> groups_of_kind k"
    "sorted_wrt (\<lambda>l r. bounded render d (ofg_best_case_sort_value l) (ofg_best_case_sort_value r)) groups"
    "\<And>g. g \<in> set groups \<Longrightarrow> \<forall>fl \<in> set (ofg_files g). \<forall>row \<in> set (rows_of fl).
      row_matches (serving_request_predicates request) row \<longrightarrow>
        bounded render d (ofg_best_case_sort_value g) (row_value row f)"
proof -
  let ?bound = "file_group_sort_bound render stats so request f d"
  let ?c = "\<lambda>l r. compare_sort_values render (ofg_best_case_sort_value l) (ofg_best_case_sort_value r) d"
  from assms(1) obtain gs where groups: "groups = sort_by ?c gs"
    and gs: "list_all2 (\<lambda>x g. map_option (\<lambda>b. \<lparr>ofg_files = x, ofg_best_case_sort_value = b\<rparr>) (?bound x) = Some g)
      (group_files_by_schema files) gs"
    by (auto simp: ordered_file_groups_for_top_k_def collect_options_Some)
  have files: "map ofg_files gs = group_files_by_schema files"
    using gs by (induction rule: list_all2_induct) auto
  have members: "?bound (ofg_files g) = Some (ofg_best_case_sort_value g)" if "g \<in> set gs" for g
    using gs that by (induction rule: list_all2_induct) auto
  have "mset (concat (map ofg_files groups)) = mset (concat (map ofg_files gs))"
    by (rule mset_concat_perm) (simp add: groups)
  then show perm: "mset (concat (map ofg_files groups)) = mset files"
    by (simp add: files group_files_mset)
  have group: "of_kind k (ofg_best_case_sort_value g) \<and> (\<forall>fl \<in> set (ofg_files g). \<forall>row \<in> set (rows_of fl).
      row_matches (serving_request_predicates request) row \<longrightarrow>
        bounded render d (ofg_best_case_sort_value g) (row_value row f))" if g: "g \<in> set groups" for g
  proof (rule group_bound [OF members _ assms(3)])
    have "set (ofg_files g) \<subseteq> set files"
      using g mset_eq_setD [OF perm] by auto
    with assms(2) show "sorted_table k f d (serving_request_predicates request) stats rows_of (ofg_files g)"
      by (auto simp: sorted_table_def)
  qed (use g groups in simp)
  then show kinds: "set groups \<subseteq> groups_of_kind k" by (auto simp: groups_of_kind_def)
  then show "sorted_wrt (\<lambda>l r. bounded render d (ofg_best_case_sort_value l) (ofg_best_case_sort_value r)) groups"
    using groups.sorted_sort_by [of gs k render d] by (simp add: groups)
  show "\<forall>fl \<in> set (ofg_files g). \<forall>row \<in> set (rows_of fl). row_matches (serving_request_predicates request) row \<longrightarrow>
      bounded render d (ofg_best_case_sort_value g) (row_value row f)" if "g \<in> set groups" for g
    using group [OF that] by blast
qed

lemma completed_groups_files:
  assumes "\<And>gs. mset (completion gs) = mset gs"
  shows "mset (map qif_file (concat (completion (serving_query_input_groups files speedboat)))) = mset (files @ speedboat)"
proof -
  have "mset (concat (completion (serving_query_input_groups files speedboat))) =
      mset (iceberg_query_inputs files @ speedboat_query_inputs speedboat)"
    using mset_concat_perm [OF assms] query_groups_mset by metis
  then have "mset (map qif_file (concat (completion (serving_query_input_groups files speedboat)))) =
      mset (map qif_file (iceberg_query_inputs files @ speedboat_query_inputs speedboat))"
    by (metis mset_map)
  then show ?thesis by (simp add: iceberg_query_inputs_def speedboat_query_inputs_def comp_def)
qed

text \<open>
  C38. An ordered query returns the best rows: whether it runs all groups of files at once, in any
  order of completion, or one after the other with an early stop, its result is sorted, has \<open>limit\<close>
  rows (or all, if there are fewer) out of the matching rows of all files, and no row left out sorts
  before one returned. The hypotheses: the engine answers each group with rows that contain the
  group's best ones, the statistics describe the files, the sort values are of one kind and selected
  by the query, and none is null if the order is descending.
\<close>

theorem ordered_query_returns_top_k:
  assumes "rpl_order_by request = s # ss"
    and "sorted_table k (rs_field s) (rs_descending s) (serving_request_predicates request) stats rows_of files"
    and "\<forall>f \<in> set speedboat. \<forall>row \<in> set (rows_of f). of_kind k (row_value row (rs_field s))"
    and "list_all operands_ok (serving_request_predicates request)"
    and "\<And>row. sort_value (rs_field s) (out row) = row_value row (rs_field s)"
    and "engine_ok (compare_rows render (rs_field s) (rs_descending s)) limit
      (matching_rows out live (serving_request_predicates request) rows_of) exec"
    and "\<And>gs. mset (completion gs) = mset gs"
  shows "\<exists>rows. execute_plan_scan render completion exec files speedboat stats so request limit = Inr rows \<and>
    is_top_k (compare_rows render (rs_field s) (rs_descending s)) limit rows
      (matching_rows out live (serving_request_predicates request) rows_of (files @ speedboat))"
proof -
  let ?c = "compare_rows render (rs_field s) (rs_descending s)" let ?ps = "serving_request_predicates request"
  let ?rows = "matching_rows out live ?ps rows_of"
  have start: "is_top_k ?c limit [] {#}" by (simp add: is_top_k_def)
  have kinds: "set_mset (?rows (files @ speedboat)) \<subseteq> rows_of_kind k (rs_field s)"
    using assms(2,3,5) by (auto simp: matching_rows_mem rows_of_kind_def sorted_table_def)
  consider groups where "speedboat = []"
      "ordered_file_groups_for_top_k render files stats so request (rs_field s) (rs_descending s) = Some groups"
    | "execute_plan_scan render completion exec files speedboat stats so request limit =
        execute_parallel_plan render completion exec files speedboat request limit"
    using assms(1) by (cases "speedboat = []";
        cases "ordered_file_groups_for_top_k render files stats so request (rs_field s) (rs_descending s)")
      (auto simp: execute_plan_scan_def)
  then show ?thesis
  proof cases
    case 1
    note groups = ordered_groups [OF 1(2) assms(2,4)]
    have all: "?rows (concat (map ofg_files groups)) = ?rows files" by (rule matching_rows_mset [OF groups(1)])
    have "\<exists>rs. top_k_loop render exec request s limit [] groups = Inr rs \<and>
        is_top_k ?c limit rs ({#} + ?rows (concat (map ofg_files groups)))"
    proof (rule top_k_loop_correct [OF assms(6,1) start _ groups(2,3)])
      show "set_mset ({#} + ?rows (concat (map ofg_files groups))) \<subseteq> rows_of_kind k (rs_field s)"
        using kinds 1(1) all by simp
      fix g y assume "g \<in> set groups" "y \<in># ?rows (ofg_files g)"
      with groups(4) assms(5) show "bounded render (rs_descending s) (ofg_best_case_sort_value g) (sort_value (rs_field s) y)"
        by (fastforce simp: matching_rows_mem)
    qed
    with 1 all assms(1) show ?thesis by (simp add: execute_plan_scan_def execute_ordered_top_k_plan_def)
  next
    case 2
    let ?gs = "completion (serving_query_input_groups files speedboat)"
    note all = matching_rows_mset [OF completed_groups_files [OF assms(7)], of out live ?ps rows_of files speedboat]
    have "set_mset ({#} + ?rows (map qif_file (concat ?gs))) \<subseteq> rows_of_kind k (rs_field s)"
      using kinds all by simp
    from parallel_top_k [OF assms(6,1) start this] 2 all show ?thesis
      by (simp add: execute_parallel_plan_def)
  qed
qed

text \<open>
  Two files of different schemas, with the statistics of their only column, and an engine that
  returns every row. The second file may hold a null besides.
\<close>

definition topk_file :: "nat \<Rightarrow> file_descriptor" where
  "topk_file n = \<lparr>fd_path = replicate n (CHR ''f''),
     fd_schema = PowdrrSchema (replicate n (PowdrrField ''a'' DT_Integer)), fd_size = 1\<rparr>"

definition topk_stats :: "nat \<Rightarrow> u64 \<Rightarrow> u64 \<Rightarrow> int \<Rightarrow> iceberg_file_stats" where
  "topk_stats n nulls records v =
     \<lparr>st_file_path = replicate n (CHR ''f''), st_record_count = Some records,
      st_columns = [\<lparr>cs_field_id = 1, cs_field_name = ''a'', cs_null_count = Some nulls,
        cs_lower_bound = Some (jint v), cs_upper_bound = Some (jint v)\<rparr>],
      st_partition_values = [], st_row_groups = []\<rparr>"

definition topk_request :: "bool \<Rightarrow> read_plan" where
  "topk_request descending =
     \<lparr>rpl_select = None, rpl_filters = [], rpl_aggregate = None,
      rpl_order_by = [\<lparr>rs_field = ''a'', rs_descending = descending\<rparr>], rpl_limit = Some 1, rpl_offset = 0,
      rpl_search_after = None, rpl_allow_slow_path = True, rpl_explain = False\<rparr>"

definition topk_rows :: "json_map list \<Rightarrow> file_descriptor \<Rightarrow> json_map list" where
  "topk_rows extra f = (if f = topk_file 1 then [[(''a'', jint 5)]]
     else if f = topk_file 2 then [(''a'', jint 3)] # extra else [])"

definition topk_engine :: "json_map list \<Rightarrow> query_input_file list \<Rightarrow> json list res" where
  "topk_engine extra fs = Inr (concat (map (\<lambda>q. map JObject (topk_rows extra (qif_file q))) fs))"

lemmas topk_sample_defs = topk_file_def topk_stats_def topk_request_def topk_rows_def topk_engine_def

lemma topk_engine_ok:
  "engine_ok c limit (matching_rows JObject (\<lambda>_. True) [] (topk_rows extra)) (topk_engine extra)"
proof -
  have "mset (concat (map (\<lambda>q. map JObject (topk_rows extra (qif_file q))) fs)) =
      matching_rows JObject (\<lambda>_. True) [] (topk_rows extra) (map qif_file fs)" for fs
    by (induction fs) (simp_all add: matching_rows_def file_rows_def row_matches_def)
  note all = this [symmetric]
  show ?thesis unfolding engine_ok_def topk_engine_def holds_top_k_def all by auto
qed

lemma topk_table:
  "sorted_table Number_Kind ''a'' True [] (fmupd ''ff'' (topk_stats 2 0 1 3) (fmupd ''f'' (topk_stats 1 0 1 5) fmempty))
     (topk_rows []) [topk_file 1, topk_file 2]"
  by (simp add: sorted_table_def topk_sample_defs row_value_def describes_file_def describes_columns_def
      describes_column_def usable_file_def usable_columns_def bounds_ok_def sortable_file_def sql_holds_simps
      numeral_2_eq_2)

lemma ordered_query_returns_top_k_witness:
  "\<exists>rows. execute_plan_scan (\<lambda>_. []) rev (topk_engine []) [topk_file 1, topk_file 2] []
      (fmupd ''ff'' (topk_stats 2 0 1 3) (fmupd ''f'' (topk_stats 1 0 1 5) fmempty)) [] (topk_request True) 1 = Inr rows \<and>
    is_top_k (compare_rows (\<lambda>_. []) ''a'' True) 1 rows
      (matching_rows JObject (\<lambda>_. True) [] (topk_rows []) [topk_file 1, topk_file 2])"
proof -
  let ?s = "\<lparr>rs_field = ''a'', rs_descending = True\<rparr>"
  have ps: "serving_request_predicates (topk_request True) = []"
    by (simp add: serving_request_predicates_def topk_request_def)
  have "rpl_order_by (topk_request True) = ?s # []" by (simp add: topk_request_def)
  from ordered_query_returns_top_k [OF this, where k = Number_Kind and rows_of = "topk_rows []" and speedboat = "[]"
      and out = JObject and live = "\<lambda>_. True" and exec = "topk_engine []" and completion = rev and limit = 1
      and files = "[topk_file 1, topk_file 2]" and so = "[]" and render = "\<lambda>_. []"
      and stats = "fmupd ''ff'' (topk_stats 2 0 1 3) (fmupd ''f'' (topk_stats 1 0 1 5) fmempty)"]
    topk_table topk_engine_ok ps
  show ?thesis by (simp add: sort_value_def json_get_def row_value_def)
qed

text \<open>
  C39. A descending top-k query can miss null rows: with two groups of files, the second holding a
  row whose sort value is null, the loop stops after the first group and returns its row, while
  running both groups returns the null row, which a descending order puts first.
\<close>

theorem descending_top_k_skips_nulls:
  "execute_plan_scan render completion (topk_engine [[(''a'', JNull)]]) [topk_file 1, topk_file 2] []
      (fmupd ''ff'' (topk_stats 2 1 2 3) (fmupd ''f'' (topk_stats 1 0 1 5) fmempty)) [] (topk_request True) 1 =
     Inr [JObject [(''a'', jint 5)]] \<and>
   execute_parallel_plan render (\<lambda>gs. gs) (topk_engine [[(''a'', JNull)]]) [topk_file 1, topk_file 2] []
      (topk_request True) 1 = Inr [JObject [(''a'', JNull)]]"
proof (intro conjI)
  let ?stats = "fmupd ''ff'' (topk_stats 2 1 2 3) (fmupd ''f'' (topk_stats 1 0 1 5) fmempty)"
  have schemas: "fd_schema (topk_file 1) \<noteq> fd_schema (topk_file 2)" and "topk_file 1 \<noteq> topk_file 2"
    by (simp_all add: topk_file_def numeral_2_eq_2)
  then have rows: "topk_rows [[(''a'', JNull)]] (topk_file 1) = [[(''a'', jint 5)]]"
    "topk_rows [[(''a'', JNull)]] (topk_file 2) = [[(''a'', jint 3)], [(''a'', JNull)]]"
    by (auto simp: topk_rows_def)
  have paths: "fd_path (topk_file 1) = ''f''" "fd_path (topk_file 2) = ''ff''"
    by (simp_all add: topk_file_def numeral_2_eq_2)
  have f64: "f64_of_int 5 = 5" "f64_of_int 3 = 3"
    by (simp_all add: f64_of_int_exact)
  have "group_files_by_schema [topk_file 1, topk_file 2] = [[topk_file 1], [topk_file 2]]"
    using schemas by (simp add: group_files_by_schema_def)
  then have "ordered_file_groups_for_top_k render [topk_file 1, topk_file 2] ?stats [] (topk_request True) ''a'' True =
      Some [\<lparr>ofg_files = [topk_file 1], ofg_best_case_sort_value = jint 5\<rparr>,
            \<lparr>ofg_files = [topk_file 2], ofg_best_case_sort_value = jint 3\<rparr>]"
    by (simp add: ordered_file_groups_for_top_k_def file_group_sort_bound_def file_sort_bound_def
        file_level_sort_bound_def column_sort_bound_def column_is_all_null_def topk_stats_def sort_by_def
        compare_sort_values_def compare_row_values_def f64 paths word_le_nat_alt del: One_nat_def)
  then show "execute_plan_scan render completion (topk_engine [[(''a'', JNull)]]) [topk_file 1, topk_file 2] [] ?stats []
      (topk_request True) 1 = Inr [JObject [(''a'', jint 5)]]"
    by (simp add: execute_plan_scan_def execute_ordered_top_k_plan_def topk_request_def topk_engine_def
        iceberg_query_inputs_def rows merge_rows_def sort_by_def remaining_groups_cannot_beat_kth_row_def json_get_def
        compare_sort_values_def compare_row_values_def f64 del: One_nat_def)
  have "serving_query_input_groups [topk_file 1, topk_file 2] [] =
      [iceberg_query_inputs [topk_file 1], iceberg_query_inputs [topk_file 2]]"
    using schemas by (simp add: serving_query_input_groups_def group_query_input_files_by_schema_def
        iceberg_query_inputs_def speedboat_query_inputs_def)
  then show "execute_parallel_plan render (\<lambda>gs. gs) (topk_engine [[(''a'', JNull)]]) [topk_file 1, topk_file 2] []
      (topk_request True) 1 = Inr [JObject [(''a'', JNull)]]"
    by (simp add: execute_parallel_plan_def topk_request_def topk_engine_def iceberg_query_inputs_def rows
        merge_rows_def sort_by_def json_get_def compare_rows_def compare_row_values_def f64 take_Cons' del: One_nat_def)
qed

text \<open>
  Ordering by a field that is not selected is lost when groups are merged: if the rows do not
  carry the sort field, merging keeps the rows that came first, whatever their sort values are.
\<close>

lemma unselected_sort_field_is_ignored:
  assumes "rpl_order_by request = s # ss"
    and "\<And>row. row \<in> set (rows @ new_rows) \<Longrightarrow> json_get row (rs_field s) = None"
  shows "merge_rows render request limit rows new_rows = take limit (rows @ new_rows)"
proof -
  have "sort_by (compare_rows render (rs_field s) (rs_descending s)) xs = xs"
    if "\<And>row. row \<in> set xs \<Longrightarrow> json_get row (rs_field s) = None" for xs
    using that
  proof (induction xs)
    case (Cons x xs)
    let ?c = "compare_rows render (rs_field s) (rs_descending s)"
    have "?c x y \<noteq> Greater" if "y \<in> set xs" for y
      using Cons.prems that by (simp add: compare_rows_def compare_row_values_def)
    then have "insert_by ?c x xs = x # xs" by (cases xs) simp_all
    with Cons show ?case by (simp add: sort_by_def)
  qed (simp add: sort_by_def)
  from this [of "rows @ new_rows", OF assms(2)] assms(1) show ?thesis by (simp add: merge_rows_def)
qed

lemma unselected_sort_field_is_ignored_witness:
  "merge_rows (\<lambda>_. []) (topk_request True) 1 [JObject [(''b'', jint 3)]] [JObject [(''b'', jint 5)]] =
     [JObject [(''b'', jint 3)]]"
proof -
  have "json_get row ''a'' = None"
    if "row \<in> set ([JObject [(''b'', jint 3)]] @ [JObject [(''b'', jint 5)]])" for row
    using that by (auto simp: json_get_def)
  then have "merge_rows (\<lambda>_. []) (topk_request True) 1 [JObject [(''b'', jint 3)]] [JObject [(''b'', jint 5)]] =
      take 1 ([JObject [(''b'', jint 3)]] @ [JObject [(''b'', jint 5)]])"
    by (intro unselected_sort_field_is_ignored [where s = "\<lparr>rs_field = ''a'', rs_descending = True\<rparr>" and ss = "[]"])
      (simp_all add: topk_request_def)
  then show ?thesis by simp
qed

end
