(* ===== verification/Decimal.thy ===== *)
theory Decimal
  imports Prelude
begin

section \<open>Decimal numbers and UTF-8\<close>

text \<open>
  What the wire protocols and the SQL builder use of the standard library: printing integers,
  \<^verbatim>\<open>str::parse::<i64>\<close>, the validity check of \<^verbatim>\<open>String::from_utf8\<close> and
  \<^verbatim>\<open>split_whitespace\<close>, on the bytes of a string.
\<close>

definition digit_char :: "nat \<Rightarrow> char" where
  "digit_char d = char_of (48 + d)"

fun show_nat :: "nat \<Rightarrow> string" where
  "show_nat n = (if n < 10 then [digit_char n] else show_nat (n div 10) @ [digit_char (n mod 10)])"

declare show_nat.simps [simp del]

definition show_int :: "int \<Rightarrow> string" where
  "show_int i = (if i < 0 then CHR ''-'' # show_nat (nat (- i)) else show_nat (nat i))"

definition is_digit :: "char \<Rightarrow> bool" where
  "is_digit c \<longleftrightarrow> 48 \<le> (of_char c :: nat) \<and> (of_char c :: nat) \<le> 57"

definition digit_value :: "char \<Rightarrow> nat" where
  "digit_value c = of_char c - 48"

definition parse_digits :: "string \<Rightarrow> nat option" where
  "parse_digits s = (if s \<noteq> [] \<and> list_all is_digit s then Some (foldl (\<lambda>n c. 10 * n + digit_value c) 0 s) else None)"

text \<open>An optional sign, digits, and a value of 64 bits; anything else is an error.\<close>

definition parse_i64 :: "string \<Rightarrow> int option" where
  "parse_i64 s =
     Option.bind
       (case s of
          [] \<Rightarrow> None
        | c # cs \<Rightarrow>
            if c = CHR ''-'' then map_option (\<lambda>n. - int n) (parse_digits cs)
            else if c = CHR ''+'' then map_option int (parse_digits cs)
            else map_option int (parse_digits s))
       (\<lambda>i. if - (2 ^ 63) \<le> i \<and> i < 2 ^ 63 then Some i else None)"

lemma of_digit_char [simp]: "d < 10 \<Longrightarrow> of_char (digit_char d) = 48 + (d :: nat)"
  by (simp add: digit_char_def)

lemma digit_char_simps:
  assumes "d < 10"
  shows "is_digit (digit_char d)" "digit_value (digit_char d) = d"
  using assms by (simp_all add: is_digit_def digit_value_def)

lemma show_nat_digits: "list_all is_digit (show_nat n) \<and> show_nat n \<noteq> []"
proof (induction n rule: show_nat.induct)
  case (1 n)
  then show ?case by (cases "n < 10") (simp_all add: show_nat.simps [of n] digit_char_simps)
qed

lemma foldl_show_nat: "foldl (\<lambda>n c. 10 * n + digit_value c) 0 (show_nat n) = n"
proof (induction n rule: show_nat.induct)
  case (1 n)
  then show ?case by (cases "n < 10") (simp_all add: show_nat.simps [of n] digit_char_simps)
qed

lemma parse_digits_show_nat [simp]: "parse_digits (show_nat n) = Some n"
  using show_nat_digits [of n] by (simp add: parse_digits_def foldl_show_nat)

lemma digit_not_sign: "is_digit c \<Longrightarrow> c \<noteq> CHR ''-'' \<and> c \<noteq> CHR ''+''"
  by (auto simp: is_digit_def)

lemma parse_i64_show_nat: "n < 2 ^ 63 \<Longrightarrow> parse_i64 (show_nat n) = Some (int n)"
proof -
  assume n: "n < 2 ^ 63"
  then have "int n < 2 ^ 63" by (metis of_nat_less_iff of_nat_numeral of_nat_power)
  moreover obtain c cs where c: "show_nat n = c # cs" "is_digit c"
    using show_nat_digits [of n] by (cases "show_nat n") auto
  moreover have "parse_digits (c # cs) = Some n" using parse_digits_show_nat [of n] c(1) by simp
  ultimately show ?thesis
    using digit_not_sign [of c] by (simp add: parse_i64_def)
qed

text \<open>Digits are not line breaks.\<close>

lemma digit_not_break: "is_digit c \<Longrightarrow> c \<noteq> CHR 0x0A \<and> c \<noteq> CHR 0x0D"
  by (auto simp: is_digit_def)

lemma show_nat_no_break: "CHR 0x0A \<notin> set (show_nat n)" "CHR 0x0D \<notin> set (show_nat n)"
  using show_nat_digits [of n] digit_not_break by (auto simp: list_all_iff)

subsection \<open>UTF-8\<close>

definition cont_byte :: "nat \<Rightarrow> bool" where
  "cont_byte b \<longleftrightarrow> 0x80 \<le> b \<and> b \<le> 0xBF"

text \<open>The byte sequences of Unicode scalar values, in their shortest form and without surrogates.\<close>

fun utf8_bytes :: "nat list \<Rightarrow> bool" where
  "utf8_bytes [] = True"
| "utf8_bytes (a # s) =
     (if a < 0x80 then utf8_bytes s
      else if 0xC2 \<le> a \<and> a \<le> 0xDF then
        (case s of b # s' \<Rightarrow> cont_byte b \<and> utf8_bytes s' | _ \<Rightarrow> False)
      else if 0xE0 \<le> a \<and> a \<le> 0xEF then
        (case s of b # c # s' \<Rightarrow>
            cont_byte b \<and> cont_byte c \<and> (a = 0xE0 \<longrightarrow> 0xA0 \<le> b) \<and> (a = 0xED \<longrightarrow> b \<le> 0x9F) \<and> utf8_bytes s'
         | _ \<Rightarrow> False)
      else if 0xF0 \<le> a \<and> a \<le> 0xF4 then
        (case s of b # c # d # s' \<Rightarrow>
            cont_byte b \<and> cont_byte c \<and> cont_byte d \<and> (a = 0xF0 \<longrightarrow> 0x90 \<le> b) \<and> (a = 0xF4 \<longrightarrow> b \<le> 0x8F) \<and>
            utf8_bytes s'
         | _ \<Rightarrow> False)
      else False)"

definition from_utf8 :: "string \<Rightarrow> bool" where
  "from_utf8 s = utf8_bytes (map of_char s)"

lemma utf8_ascii: "list_all (\<lambda>b. b < 0x80) s \<Longrightarrow> utf8_bytes s"
  by (induction s) simp_all

lemma from_utf8_digits: "list_all is_digit s \<Longrightarrow> from_utf8 s"
  unfolding from_utf8_def by (rule utf8_ascii) (auto simp: list_all_iff is_digit_def)

lemma from_utf8_ascii_Cons: "(of_char c :: nat) < 0x80 \<Longrightarrow> from_utf8 (c # s) = from_utf8 s"
  by (simp add: from_utf8_def)

subsection \<open>White space\<close>

text \<open>The number of bytes of the white-space character a string starts with, 0 if it does not.\<close>

definition ws_len :: "string \<Rightarrow> nat" where
  "ws_len s =
     (case map of_char s of
        [] \<Rightarrow> 0
      | a # r \<Rightarrow>
          if (9 \<le> a \<and> a \<le> 13) \<or> a = 32 then 1
          else
            (case r of
               [] \<Rightarrow> 0
             | b # r' \<Rightarrow>
                 if a = 0xC2 \<and> (b = 0x85 \<or> b = 0xA0) then 2
                 else
                   (case r' of
                      [] \<Rightarrow> 0
                    | c # _ \<Rightarrow>
                        if (a = 0xE1 \<and> b = 0x9A \<and> c = 0x80) \<or>
                           (a = 0xE2 \<and> b = 0x80 \<and> ((0x80 \<le> c \<and> c \<le> 0x8A) \<or> c = 0xA8 \<or> c = 0xA9 \<or> c = 0xAF)) \<or>
                           (a = 0xE2 \<and> b = 0x81 \<and> c = (0x9F :: nat)) \<or> (a = 0xE3 \<and> b = 0x80 \<and> c = 0x80)
                        then 3 else 0)))"

text \<open>
  \<^verbatim>\<open>split_whitespace\<close>: \<open>word\<close> is the part being read; the bytes of a white-space character are
  skipped (\<open>skip\<close>) and empty parts left out.
\<close>

fun split_ws_loop :: "nat \<Rightarrow> string \<Rightarrow> string \<Rightarrow> string list" where
  "split_ws_loop skip part [] = (if part = [] then [] else [part])"
| "split_ws_loop (Suc skip) part (c # s) = split_ws_loop skip part s"
| "split_ws_loop 0 part (c # s) =
     (case ws_len (c # s) of
        0 \<Rightarrow> split_ws_loop 0 (part @ [c]) s
      | Suc n \<Rightarrow> (if part = [] then [] else [part]) @ split_ws_loop n [] s)"

definition split_whitespace :: "string \<Rightarrow> string list" where
  "split_whitespace s = split_ws_loop 0 [] s"

end
