(* ===== verification/Serving_Request.thy ===== *)
theory Serving_Request
  imports Serving_Topk Decimal
begin

section \<open>Validation of serving requests and their SQL\<close>

text \<open>
  The first stage of \<^verbatim>\<open>query_runtime/src/lakehouse_serving.rs\<close>: a request is validated against
  the schema of its table (\<^verbatim>\<open>validate_request\<close> and what it calls) and translated to SQL
  (\<^verbatim>\<open>build_sql\<close>). \<open>render_float\<close> is the text \<^verbatim>\<open>serde_json\<close> prints for a float. Three facts
  are proved: a validated request always has its SQL, without an error and without one of the
  \<^verbatim>\<open>unwrap\<close>s of the aggregate branch panicking; the text a client supplies stays inside the
  literal or the quoted identifier it is written to (\<open>sql_lex\<close> is the reader of SQL quoting that
  says so); and the literals and identifiers read back are the ones of the request.
\<close>

subsection \<open>Text of the standard library\<close>

definition to_ascii_lowercase :: "string \<Rightarrow> string" where
  "to_ascii_lowercase = map (\<lambda>c. let n = of_char c :: nat in if 65 \<le> n \<and> n \<le> 90 then char_of (n + 32) else c)"

definition to_ascii_uppercase :: "string \<Rightarrow> string" where
  "to_ascii_uppercase = map (\<lambda>c. let n = of_char c :: nat in if 97 \<le> n \<and> n \<le> 122 then char_of (n - 32) else c)"

fun join :: "'a list \<Rightarrow> 'a list list \<Rightarrow> 'a list" where
  "join sep [] = []"
| "join sep [x] = x"
| "join sep (x # y # xs) = x @ sep @ join sep (y # xs)"

text \<open>\<^verbatim>\<open>replace(c, with)\<close>.\<close>

definition replace_char :: "char \<Rightarrow> string \<Rightarrow> string \<Rightarrow> string" where
  "replace_char c w s = concat (map (\<lambda>x. if x = c then w else [x]) s)"

text \<open>\<^verbatim>\<open>str::replace\<close>: every occurrence, from the left, without overlaps.\<close>

function replace_str :: "string \<Rightarrow> string \<Rightarrow> string \<Rightarrow> string" where
  "replace_str p w s =
     (case s of
        [] \<Rightarrow> []
      | c # cs \<Rightarrow>
          if p \<noteq> [] \<and> take (length p) s = p then w @ replace_str p w (drop (length p) s)
          else c # replace_str p w cs)"
  by pat_completeness auto
termination
  by (relation "measure (\<lambda>(p, w, s). length s)") auto

declare replace_str.simps [simp del]

abbreviation DQUOTE :: char where "DQUOTE \<equiv> CHR 0x22"
abbreviation SQUOTE :: char where "SQUOTE \<equiv> CHR 0x27"

definition bad_request :: "string \<Rightarrow> 'a res" where
  "bad_request message = Inl (Serving_Query_Error 400 message)"

text \<open>\<^verbatim>\<open>ok_or_else\<close> with a bad request.\<close>

definition ok_or :: "string \<Rightarrow> 'a option \<Rightarrow> 'a res" where
  "ok_or message x = (case x of None \<Rightarrow> bad_request message | Some v \<Rightarrow> Inr v)"

definition for_each :: "('a \<Rightarrow> unit res) \<Rightarrow> 'a list \<Rightarrow> unit res" where
  "for_each f xs = foldm (\<lambda>_. f) () xs"

subsection \<open>Constants\<close>

definition default_limit :: nat where "default_limit = 100"
definition max_limit :: nat where "max_limit = 1000"
definition max_in_values :: nat where "max_in_values = 32"

subsection \<open>Validation\<close>

definition normalized_select :: "string list option \<Rightarrow> string list option" where
  "normalized_select select =
     (case select of
        Some names \<Rightarrow> if length names = 1 \<and> names ! 0 = ''*'' then None else Some names
      | None \<Rightarrow> None)"

fun is_scalar_type :: "powdrr_data_type \<Rightarrow> bool" where
  "is_scalar_type DT_Boolean = True"
| "is_scalar_type DT_Float = True"
| "is_scalar_type DT_Integer = True"
| "is_scalar_type DT_String = True"
| "is_scalar_type _ = False"

definition validate_literal :: "json \<Rightarrow> powdrr_data_type \<Rightarrow> string \<Rightarrow> unit res" where
  "validate_literal v data_type name =
     (case data_type of
        DT_Boolean \<Rightarrow>
          (case v of JBool _ \<Rightarrow> Inr () | _ \<Rightarrow> bad_request (''Field '' @ name @ '' expects a boolean literal''))
      | DT_Float \<Rightarrow>
          (case v of JNumber _ \<Rightarrow> Inr () | _ \<Rightarrow> bad_request (''Field '' @ name @ '' expects a numeric literal''))
      | DT_Integer \<Rightarrow>
          (case v of JNumber _ \<Rightarrow> Inr () | _ \<Rightarrow> bad_request (''Field '' @ name @ '' expects a numeric literal''))
      | DT_String \<Rightarrow>
          (case v of JString _ \<Rightarrow> Inr () | _ \<Rightarrow> bad_request (''Field '' @ name @ '' expects a string literal''))
      | _ \<Rightarrow> bad_request (''Field '' @ name @ '' is not supported by the serving MVP''))"

definition count_given :: "'a option list \<Rightarrow> nat" where
  "count_given xs = length [x \<leftarrow> xs. x \<noteq> None]"

definition validate_optional_literal :: "powdrr_data_type \<Rightarrow> string \<Rightarrow> json option \<Rightarrow> unit res" where
  "validate_optional_literal data_type name v =
     (case v of None \<Rightarrow> Inr () | Some x \<Rightarrow> validate_literal x data_type name)"

definition validate_filter :: "serving_predicate \<Rightarrow> powdrr_data_type \<Rightarrow> unit res" where
  "validate_filter f data_type =
     (let eq_like = (if svp_eq f \<noteq> None then 1 else 0) + (if svp_in_values f \<noteq> None then 1 else (0 :: nat));
          range_like = count_given [svp_gt f, svp_gte f, svp_lt f, svp_lte f] in
      if eq_like = 0 \<and> range_like = 0
      then bad_request (''Filter for '' @ svp_field f @ '' has no operator'')
      else if eq_like > 1 \<or> (eq_like > 0 \<and> range_like > 0)
      then bad_request (''Filter for '' @ svp_field f @ '' mixes incompatible operators'')
      else
        rbind (case svp_in_values f of
                 None \<Rightarrow> Inr ()
               | Some values \<Rightarrow>
                   if values = [] \<or> length values > max_in_values
                   then bad_request (''IN filter for '' @ svp_field f @ '' must have 1-'' @ show_nat max_in_values @ '' values'')
                   else for_each (\<lambda>v. validate_literal v data_type (svp_field f)) values) (\<lambda>_.
        rbind (validate_optional_literal data_type (svp_field f) (svp_eq f)) (\<lambda>_.
        for_each (validate_optional_literal data_type (svp_field f)) [svp_gt f, svp_gte f, svp_lt f, svp_lte f])))"

definition validate_scalar_serving_field_type :: "powdrr_data_type \<Rightarrow> string \<Rightarrow> unit res" where
  "validate_scalar_serving_field_type data_type name =
     (if is_scalar_type data_type then Inr ()
      else bad_request (''Field '' @ name @ '' is not supported by the serving MVP''))"

definition normalized_aggregate_function :: "string \<Rightarrow> string option" where
  "normalized_aggregate_function f =
     (let l = to_ascii_lowercase f in
      if l \<in> {''count'', ''sum'', ''avg'', ''min'', ''max''} then Some l else None)"

definition aggregate_measure_alias_with_function :: "serving_aggregate_measure \<Rightarrow> string \<Rightarrow> string res" where
  "aggregate_measure_alias_with_function ms f =
     (case am_alias ms of
        Some a \<Rightarrow> if a = [] then bad_request ''Aggregate measure aliases must not be empty'' else Inr a
      | None \<Rightarrow>
          if f = ''count'' then Inr ''count''
          else if f \<in> {''sum'', ''avg'', ''min'', ''max''} then
            rmap (\<lambda>field. f @ ''_'' @ field)
              (ok_or (to_ascii_uppercase f @ '' serving measures require a field'') (am_field ms))
          else bad_request (''Unsupported aggregate function '' @ am_function ms))"

definition aggregate_measure_signature_with_function ::
    "serving_aggregate_measure \<Rightarrow> string \<Rightarrow> (string \<times> string option) res" where
  "aggregate_measure_signature_with_function ms f = Inr (f, am_field ms)"

definition validate_group_by ::
    "(string, powdrr_field) hash_map \<Rightarrow> string set \<Rightarrow> string \<Rightarrow> string set res" where
  "validate_group_by schema_map seen name =
     (if name \<in> seen then bad_request (''Duplicate aggregate GROUP BY field '' @ name)
      else
        rbind (ok_or (''Unknown aggregate GROUP BY field '' @ name) (fmlookup schema_map name)) (\<lambda>field.
        rmap (\<lambda>_. insert name seen) (validate_scalar_serving_field_type (field_type field) name)))"

definition validate_measure_field ::
    "(string, powdrr_field) hash_map \<Rightarrow> serving_aggregate_measure \<Rightarrow> string \<Rightarrow> unit res" where
  "validate_measure_field schema_map ms f =
     (if f = ''count'' then
        (if am_field ms \<noteq> None then bad_request ''COUNT serving measures do not take a field'' else Inr ())
      else if f \<in> {''sum'', ''avg'', ''min'', ''max''} then
        rbind (ok_or (to_ascii_uppercase f @ '' serving measures require a field'') (am_field ms)) (\<lambda>name.
        rbind (ok_or (''Unknown aggregate field '' @ name) (fmlookup schema_map name)) (\<lambda>field.
        rbind (validate_scalar_serving_field_type (field_type field) name) (\<lambda>_.
          if f \<in> {''sum'', ''avg''} \<and> field_type field \<noteq> DT_Float \<and> field_type field \<noteq> DT_Integer
          then bad_request (to_ascii_uppercase f @ '' aggregate field '' @ name @ '' must be numeric'')
          else Inr ())))
      else Inl (Panic ''internal error: entered unreachable code''))"

definition validate_measure ::
    "(string, powdrr_field) hash_map \<Rightarrow> string set \<times> (string \<times> string option) set \<Rightarrow>
     serving_aggregate_measure \<Rightarrow> (string set \<times> (string \<times> string option) set) res" where
  "validate_measure schema_map seen ms =
     rbind (ok_or (''Unsupported aggregate function '' @ am_function ms)
              (normalized_aggregate_function (am_function ms))) (\<lambda>f.
     rbind (aggregate_measure_alias_with_function ms f) (\<lambda>a.
     if a \<in> fst seen then bad_request ''Aggregate measure aliases must be unique''
     else
       rbind (aggregate_measure_signature_with_function ms f) (\<lambda>signature.
       if signature \<in> snd seen then bad_request ''Duplicate aggregate measures are not supported''
       else
         rmap (\<lambda>_. (insert a (fst seen), insert signature (snd seen)))
           (validate_measure_field schema_map ms f))))"

definition validate_aggregate_request ::
    "serving_aggregate_spec \<Rightarrow> (string, powdrr_field) hash_map \<Rightarrow> unit res" where
  "validate_aggregate_request aggregate schema_map =
     (if as_measures aggregate = []
      then bad_request ''Aggregate serving queries must declare at least one measure''
      else
        rbind (foldm (validate_group_by schema_map) {} (as_group_by aggregate)) (\<lambda>_.
        rmap (\<lambda>_. ()) (foldm (validate_measure schema_map) ({}, {}) (as_measures aggregate))))"

definition validate_request_filter ::
    "(string, powdrr_field) hash_map \<Rightarrow> string set \<Rightarrow> serving_predicate \<Rightarrow> string set res" where
  "validate_request_filter schema_map seen f =
     (if svp_field f \<in> seen then bad_request ''Duplicate filters on the same field are not supported''
      else
        rbind (ok_or (''Unknown filter field '' @ svp_field f) (fmlookup schema_map (svp_field f))) (\<lambda>field.
        rmap (\<lambda>_. insert (svp_field f) seen) (validate_filter f (field_type field))))"

definition validate_known :: "string \<Rightarrow> (string, powdrr_field) hash_map \<Rightarrow> string \<Rightarrow> unit res" where
  "validate_known message schema_map name =
     (if hm_contains schema_map name then Inr () else bad_request (message @ name))"

definition validate_request :: "serving_request_plan \<Rightarrow> powdrr_schema \<Rightarrow> unit res" where
  "validate_request request schema =
     (let schema_map = to_map schema in
      if length (srp_order_by request) > 1
      then bad_request ''Only one ORDER BY field is supported in the serving MVP''
      else
        rbind (case normalized_select (srp_select request) of
                 None \<Rightarrow> Inr ()
               | Some names \<Rightarrow> for_each (validate_known ''Unknown select field '' schema_map) names) (\<lambda>_.
        rbind (if srp_aggregate request = None then Inr ()
               else if srp_select request \<noteq> None
               then bad_request ''Aggregate serving queries do not support select''
               else if srp_order_by request \<noteq> []
               then bad_request ''Aggregate serving queries do not support ORDER BY yet''
               else Inr ()) (\<lambda>_.
        rbind (for_each (\<lambda>s. validate_known ''Unknown sort field '' schema_map (svs_field s))
                 (srp_order_by request)) (\<lambda>_.
        rbind (foldm (validate_request_filter schema_map) {} (srp_filters request)) (\<lambda>_.
        rbind (case srp_aggregate request of
                 None \<Rightarrow> Inr ()
               | Some aggregate \<Rightarrow> validate_aggregate_request aggregate schema_map) (\<lambda>_.
        if (case srp_limit request of Some l \<Rightarrow> l | None \<Rightarrow> default_limit) > max_limit
        then bad_request (''Limit must be <= '' @ show_nat max_limit)
        else Inr ()))))))"

subsection \<open>SQL of a request\<close>

datatype aggregate_function = Agg_Count | Agg_Sum | Agg_Avg | Agg_Min | Agg_Max

record aggregate_measure_plan =
  amp_function :: aggregate_function
  amp_field :: "string option"
  amp_alias :: string
  amp_partial_value_alias :: string
  amp_partial_count_alias :: "string option"

definition aggregate_function_of :: "string \<Rightarrow> aggregate_function res" where
  "aggregate_function_of f =
     (if f = ''count'' then Inr Agg_Count
      else if f = ''sum'' then Inr Agg_Sum
      else if f = ''avg'' then Inr Agg_Avg
      else if f = ''min'' then Inr Agg_Min
      else if f = ''max'' then Inr Agg_Max
      else Inl (Panic ''internal error: entered unreachable code''))"

definition aggregate_measure_plan_of :: "serving_aggregate_measure \<Rightarrow> aggregate_measure_plan res" where
  "aggregate_measure_plan_of ms =
     rbind (ok_or (''Unsupported aggregate function '' @ am_function ms)
              (normalized_aggregate_function (am_function ms))) (\<lambda>f.
     rbind (aggregate_measure_alias_with_function ms f) (\<lambda>a.
     rmap (\<lambda>func.
         \<lparr>amp_function = func, amp_field = am_field ms, amp_alias = a,
          amp_partial_value_alias = ''__partial_value_'' @ a,
          amp_partial_count_alias = (if func = Agg_Avg then Some (''__partial_count_'' @ a) else None)\<rparr>)
       (aggregate_function_of f)))"

definition aggregate_measure_plans :: "serving_aggregate_spec \<Rightarrow> aggregate_measure_plan list res" where
  "aggregate_measure_plans aggregate = mapm aggregate_measure_plan_of (as_measures aggregate)"

definition escape_identifier :: "string \<Rightarrow> string" where
  "escape_identifier identifier = replace_char DQUOTE [DQUOTE, DQUOTE] identifier"

definition quoted_identifier :: "string \<Rightarrow> string" where
  "quoted_identifier name = [DQUOTE] @ escape_identifier name @ [DQUOTE]"

definition quoted_field :: "string \<Rightarrow> string" where
  "quoted_field name = ''t.'' @ quoted_identifier name"

fun number_to_string :: "(rat \<Rightarrow> string) \<Rightarrow> number \<Rightarrow> string" where
  "number_to_string render_float (Pos_Int n) = show_nat (unat n)"
| "number_to_string render_float (Neg_Int i) = show_int i"
| "number_to_string render_float (Float r) = render_float r"

fun sql_literal :: "(rat \<Rightarrow> string) \<Rightarrow> json \<Rightarrow> string res" where
  "sql_literal render_float (JString t) = Inr ([SQUOTE] @ replace_char SQUOTE [SQUOTE, SQUOTE] t @ [SQUOTE])"
| "sql_literal render_float (JNumber n) = Inr (number_to_string render_float n)"
| "sql_literal render_float (JBool b) = Inr (if b then ''TRUE'' else ''FALSE'')"
| "sql_literal render_float _ = bad_request ''Only scalar literals are supported in serving queries''"

text \<open>One side of a range: no part when the bound is absent.\<close>

definition sql_bound :: "(rat \<Rightarrow> string) \<Rightarrow> string \<Rightarrow> string \<Rightarrow> json option \<Rightarrow> string list res" where
  "sql_bound render_float field op bound =
     (case bound of
        None \<Rightarrow> Inr []
      | Some v \<Rightarrow> rmap (\<lambda>l. [field @ op @ l]) (sql_literal render_float v))"

definition sql_for_filter :: "(rat \<Rightarrow> string) \<Rightarrow> read_predicate \<Rightarrow> string res" where
  "sql_for_filter render_float f =
     (let field = quoted_field (rp_field f) in
      case rp_eq f of
        Some v \<Rightarrow> rmap (\<lambda>l. field @ '' = '' @ l) (sql_literal render_float v)
      | None \<Rightarrow>
          (case rp_in_values f of
             Some values \<Rightarrow>
               rmap (\<lambda>ls. field @ '' IN ('' @ join '', '' ls @ '')'') (mapm (sql_literal render_float) values)
           | None \<Rightarrow>
               rbind (sql_bound render_float field '' > '' (rp_gt f)) (\<lambda>gt.
               rbind (sql_bound render_float field '' >= '' (rp_gte f)) (\<lambda>gte.
               rbind (sql_bound render_float field '' < '' (rp_lt f)) (\<lambda>lt.
               rmap (\<lambda>lte. join '' AND '' (gt @ gte @ lt @ lte))
                 (sql_bound render_float field '' <= '' (rp_lte f)))))))"

definition delete_join :: string where
  "delete_join = '' LEFT JOIN {deletes_table} dt ON dt._id_seq_no = t.'' @ quoted_identifier ''_id_seq_no''"

text \<open>
  The common tail of both builders: \<^verbatim>\<open>FROM\<close>, the join that hides deleted rows, and
  \<^verbatim>\<open>WHERE\<close>.
\<close>

definition sql_from_where :: "string \<Rightarrow> string \<Rightarrow> bool \<Rightarrow> string list \<Rightarrow> string" where
  "sql_from_where select table_name include_delete_filter where_clauses =
     (let clauses = where_clauses @ (if include_delete_filter then [''dt._id_seq_no IS NULL''] else []) in
      ''SELECT '' @ select @ '' FROM '' @ table_name @ '' t'' @
      (if include_delete_filter then delete_join else []) @
      (if clauses \<noteq> [] then '' WHERE '' @ join '' AND '' clauses else []))"

definition aggregate_call :: "string \<Rightarrow> string \<Rightarrow> string \<Rightarrow> string" where
  "aggregate_call call field a = call @ ''('' @ quoted_field field @ '') AS '' @ quoted_identifier a"

definition unwrap_field :: "aggregate_measure_plan \<Rightarrow> string res" where
  "unwrap_field plan = unwrap ''called `Option::unwrap()` on a `None` value'' (amp_field plan)"

definition aggregate_select_parts :: "bool \<Rightarrow> aggregate_measure_plan \<Rightarrow> string list res" where
  "aggregate_select_parts partial plan =
     (let a = (if partial then amp_partial_value_alias plan else amp_alias plan) in
      case amp_function plan of
        Agg_Count \<Rightarrow> Inr [''COUNT(*) AS '' @ quoted_identifier a]
      | Agg_Sum \<Rightarrow> rmap (\<lambda>f. [aggregate_call ''SUM'' f a]) (unwrap_field plan)
      | Agg_Avg \<Rightarrow>
          rbind (unwrap_field plan) (\<lambda>f.
            if partial then
              rmap (\<lambda>c. [aggregate_call ''SUM'' f a, aggregate_call ''COUNT'' f c])
                (unwrap ''called `Option::unwrap()` on a `None` value'' (amp_partial_count_alias plan))
            else Inr [aggregate_call ''AVG'' f a])
      | Agg_Min \<Rightarrow> rmap (\<lambda>f. [aggregate_call ''MIN'' f a]) (unwrap_field plan)
      | Agg_Max \<Rightarrow> rmap (\<lambda>f. [aggregate_call ''MAX'' f a]) (unwrap_field plan))"

definition build_aggregate_sql ::
    "(rat \<Rightarrow> string) \<Rightarrow> string \<Rightarrow> read_plan \<Rightarrow> nat \<Rightarrow> bool \<Rightarrow> bool \<Rightarrow> string res" where
  "build_aggregate_sql render_float table_name request limit include_delete_filter partial =
     rbind (ok_or ''Aggregate serving query is missing aggregate specification'' (rpl_aggregate request)) (\<lambda>aggregate.
     rbind (aggregate_measure_plans aggregate) (\<lambda>plans.
     rbind (mapm (aggregate_select_parts partial) plans) (\<lambda>parts.
     rmap (\<lambda>where_clauses.
         (let group_fields = map quoted_field (as_group_by aggregate) in
          sql_from_where (join '', '' (group_fields @ concat parts)) table_name include_delete_filter where_clauses @
          (if as_group_by aggregate \<noteq> [] then '' GROUP BY '' @ join '', '' group_fields else []) @
          '' LIMIT '' @ show_nat (if as_group_by aggregate = [] then 1 else limit)))
       (mapm (sql_for_filter render_float) (rpl_filters request)))))"

definition build_sql :: "(rat \<Rightarrow> string) \<Rightarrow> string \<Rightarrow> read_plan \<Rightarrow> nat \<Rightarrow> bool \<Rightarrow> string res" where
  "build_sql render_float table_name request limit include_delete_filter =
     (if rpl_aggregate request \<noteq> None
      then build_aggregate_sql render_float table_name request limit include_delete_filter False
      else
        rmap (\<lambda>where_clauses.
            (let select = (case normalized_select (rpl_select request) of
                             Some names \<Rightarrow> join '', '' (map quoted_field names)
                           | None \<Rightarrow> if include_delete_filter then ''t.*'' else ''*'') in
             sql_from_where select table_name include_delete_filter where_clauses @
             (case rpl_order_by request of
                [] \<Rightarrow> []
              | s # _ \<Rightarrow> '' ORDER BY '' @ quoted_field (rs_field s) @
                  (if rs_descending s then '' DESC'' else '' ASC'')) @
             '' LIMIT '' @ show_nat limit))
          (mapm (sql_for_filter render_float) (rpl_filters request)))"

subsection \<open>A validated request has its SQL\<close>

lemma foldm_each:
  assumes "foldm f s xs = Inr s'" "x \<in> set xs"
  shows "\<exists>t t'. f t x = Inr t'"
  using assms
proof (induction xs arbitrary: s)
  case (Cons y ys)
  from Cons.prems(1) obtain t where t: "f s y = Inr t" "foldm f t ys = Inr s'" by (auto simp: rbind_eq_Inr)
  show ?case
  proof (cases "x = y")
    case True
    with t(1) show ?thesis by blast
  next
    case False
    with Cons.prems(2) have "x \<in> set ys" by simp
    with Cons.IH [OF t(2)] show ?thesis .
  qed
qed simp

lemma mapm_ok: "(\<And>x. x \<in> set xs \<Longrightarrow> \<exists>y. f x = Inr y) \<Longrightarrow> \<exists>ys. mapm f xs = Inr ys"
proof (induction xs)
  case (Cons x xs)
  from Cons.prems [of x] obtain y where "f x = Inr y" by auto
  moreover from Cons obtain ys where "mapm f xs = Inr ys" by auto
  ultimately show ?case by simp
qed simp

lemma mapm_mapm_ok:
  "(\<And>x. x \<in> set xs \<Longrightarrow> \<exists>y z. f x = Inr y \<and> g y = Inr z) \<Longrightarrow> \<exists>ys zs. mapm f xs = Inr ys \<and> mapm g ys = Inr zs"
proof (induction xs)
  case (Cons x xs)
  from Cons.prems [of x] obtain y z where "f x = Inr y" "g y = Inr z" by auto
  moreover from Cons obtain ys zs where "mapm f xs = Inr ys" "mapm g ys = Inr zs" by auto
  ultimately show ?case by simp
qed simp

lemma ok_or_Inr [simp]: "ok_or m x = Inr y \<longleftrightarrow> x = Some y"
  by (cases x) (simp_all add: ok_or_def bad_request_def)

lemma bad_request_not_Inr [simp]: "bad_request m \<noteq> Inr x"
  by (simp add: bad_request_def)

lemma validated_literal:
  assumes "validate_literal v t n = Inr u"
  obtains l where "sql_literal render_float v = Inr l"
  using assms that by (cases t; cases v) (auto simp: validate_literal_def)

lemma for_each_ok: "for_each f xs = Inr u \<Longrightarrow> x \<in> set xs \<Longrightarrow> f x = Inr ()"
  unfolding for_each_def by (drule (1) foldm_each) simp

lemma validated_bound:
  assumes "validate_optional_literal t n v = Inr u"
  obtains ps where "sql_bound render_float field op v = Inr ps"
proof (cases v)
  case None
  then show ?thesis by (intro that [of "[]"]) (simp add: sql_bound_def)
next
  case (Some x)
  with assms have "validate_literal x t n = Inr u" by (simp add: validate_optional_literal_def)
  from validated_literal [OF this, of render_float] obtain l where "sql_literal render_float x = Inr l" .
  with Some show ?thesis by (intro that [of "[field @ op @ l]"]) (simp add: sql_bound_def)
qed

lemma validated_filter:
  assumes "validate_filter f t = Inr u"
  shows "\<exists>w. sql_for_filter render_float (read_predicate_from f) = Inr w"
proof (cases "svp_eq f")
  case (Some v)
  with assms have "validate_literal v t (svp_field f) = Inr ()"
    by (auto simp: validate_filter_def Let_def rbind_eq_Inr validate_optional_literal_def split: if_splits)
  from validated_literal [OF this, of render_float] obtain l where "sql_literal render_float v = Inr l" .
  with Some show ?thesis by (simp add: sql_for_filter_def read_predicate_from_def Let_def)
next
  case no_eq: None
  show ?thesis
  proof (cases "svp_in_values f")
    case (Some vs)
    with assms have all: "for_each (\<lambda>v. validate_literal v t (svp_field f)) vs = Inr ()"
      by (auto simp: validate_filter_def Let_def rbind_eq_Inr split: if_splits)
    have "\<exists>ls. mapm (sql_literal render_float) vs = Inr ls"
    proof (rule mapm_ok)
      fix v assume "v \<in> set vs"
      from for_each_ok [OF all this] show "\<exists>l. sql_literal render_float v = Inr l"
        by (rule validated_literal) blast
    qed
    with Some no_eq show ?thesis by (auto simp: sql_for_filter_def read_predicate_from_def Let_def)
  next
    case None
    with assms have all: "for_each (validate_optional_literal t (svp_field f)) [svp_gt f, svp_gte f, svp_lt f, svp_lte f] = Inr ()"
      by (auto simp: validate_filter_def Let_def rbind_eq_Inr split: if_splits)
    have bound: "\<exists>ps. sql_bound render_float (quoted_field (svp_field f)) op v = Inr ps"
      if "v \<in> set [svp_gt f, svp_gte f, svp_lt f, svp_lte f]" for op v
      using for_each_ok [OF all that] by (rule validated_bound) blast
    from bound [of "svp_gt f" "'' > ''"] bound [of "svp_gte f" "'' >= ''"] bound [of "svp_lt f" "'' < ''"]
      bound [of "svp_lte f" "'' <= ''"] None no_eq
    show ?thesis by (auto simp: sql_for_filter_def read_predicate_from_def Let_def)
  qed
qed

lemma validated_filters:
  assumes "foldm (validate_request_filter schema_map) {} fs = Inr seen"
  shows "\<exists>ws. mapm (sql_for_filter render_float) (map read_predicate_from fs) = Inr ws"
proof (rule mapm_ok)
  fix p assume "p \<in> set (map read_predicate_from fs)"
  then obtain f where f: "f \<in> set fs" "p = read_predicate_from f" by auto
  from foldm_each [OF assms f(1)] obtain t where "validate_filter f t = Inr ()"
    by (auto simp: validate_request_filter_def res_Inr split: if_splits)
  from validated_filter [OF this] f(2) show "\<exists>w. sql_for_filter render_float p = Inr w" by simp
qed

lemma validated_measure:
  assumes "validate_measure schema_map seen ms = Inr seen'"
  shows "\<exists>plan parts. aggregate_measure_plan_of ms = Inr plan \<and> aggregate_select_parts partial plan = Inr parts"
proof -
  from assms obtain f a where f: "normalized_aggregate_function (am_function ms) = Some f"
    and a: "aggregate_measure_alias_with_function ms f = Inr a"
    and field: "validate_measure_field schema_map ms f = Inr ()"
    by (auto simp: validate_measure_def res_Inr split: if_splits)
  from f have "f \<in> {''count'', ''sum'', ''avg'', ''min'', ''max''}"
    by (auto simp: normalized_aggregate_function_def Let_def split: if_splits)
  then consider "f = ''count''" | "f \<in> {''sum'', ''avg'', ''min'', ''max''}" by auto
  then show ?thesis
  proof cases
    case 1
    with f a show ?thesis
      by (simp add: aggregate_measure_plan_of_def ok_or_def aggregate_function_of_def aggregate_select_parts_def)
  next
    case 2
    with field obtain name where "am_field ms = Some name"
      by (auto simp: validate_measure_field_def res_Inr split: if_splits)
    with 2 f a show ?thesis
      by (auto simp: aggregate_measure_plan_of_def ok_or_def aggregate_function_of_def aggregate_select_parts_def
          unwrap_field_def Let_def)
  qed
qed

lemma validated_aggregate:
  assumes "validate_aggregate_request aggregate schema_map = Inr u"
  shows "\<exists>plans parts. aggregate_measure_plans aggregate = Inr plans \<and> mapm (aggregate_select_parts partial) plans = Inr parts"
proof -
  from assms obtain seen where run: "foldm (validate_measure schema_map) ({}, {}) (as_measures aggregate) = Inr seen"
    by (auto simp: validate_aggregate_request_def res_Inr split: if_splits)
  show ?thesis unfolding aggregate_measure_plans_def
  proof (rule mapm_mapm_ok)
    fix ms assume "ms \<in> set (as_measures aggregate)"
    from foldm_each [OF run this] show "\<exists>plan parts. aggregate_measure_plan_of ms = Inr plan \<and>
        aggregate_select_parts partial plan = Inr parts"
      using validated_measure by blast
  qed
qed

lemma validated_request_builds:
  assumes "validate_request request schema = Inr u"
  shows "\<exists>sql. build_sql render_float table_name (read_plan_from request) limit include_delete_filter = Inr sql"
    and "srp_aggregate request \<noteq> None \<Longrightarrow>
      \<exists>sql. build_aggregate_sql render_float table_name (read_plan_from request) limit include_delete_filter partial = Inr sql"
proof -
  from assms obtain seen where "foldm (validate_request_filter (to_map schema)) {} (srp_filters request) = Inr seen"
    by (auto simp: validate_request_def Let_def rbind_eq_Inr split: if_splits)
  from validated_filters [OF this, of render_float] obtain ws where
    ws: "mapm (sql_for_filter render_float) (rpl_filters (read_plan_from request)) = Inr ws"
    by (auto simp: read_plan_from_def)
  have aggregate: "\<exists>sql. build_aggregate_sql render_float table_name (read_plan_from request) limit include_delete_filter partial = Inr sql"
    if "srp_aggregate request = Some aggregate" for partial aggregate
  proof -
    from assms that have "validate_aggregate_request aggregate (to_map schema) = Inr ()"
      by (auto simp: validate_request_def Let_def rbind_eq_Inr split: if_splits)
    from validated_aggregate [OF this, of partial] ws that show ?thesis
      by (auto simp: build_aggregate_sql_def read_plan_from_def ok_or_def)
  qed
  then show "srp_aggregate request \<noteq> None \<Longrightarrow>
      \<exists>sql. build_aggregate_sql render_float table_name (read_plan_from request) limit include_delete_filter partial = Inr sql"
    by blast
  show "\<exists>sql. build_sql render_float table_name (read_plan_from request) limit include_delete_filter = Inr sql"
    using aggregate ws by (cases "srp_aggregate request") (auto simp: build_sql_def read_plan_from_def)
qed

lemma validated_limit:
  assumes "validate_request request schema = Inr u"
  shows "(case srp_limit request of Some l \<Rightarrow> l | None \<Rightarrow> default_limit) \<le> max_limit"
    and "length (srp_order_by request) \<le> 1"
    and "srp_aggregate request \<noteq> None \<Longrightarrow> srp_order_by request = []"
  using assms by (auto simp: validate_request_def Let_def rbind_eq_Inr not_less split: if_splits)

subsection \<open>Reading SQL quoting\<close>

text \<open>
  How SQL reads quotes: a quoted piece ends at a quote that is not doubled, and a doubled quote
  stands for one. A token is a quoted piece, with its quote and its text, or a character outside
  quotes. Reading fails when a quoted piece does not end.
\<close>

datatype sql_token = Quoted char string | Plain char

fun lex_quoted :: "char \<Rightarrow> string \<Rightarrow> (string \<times> string) option" where
  "lex_quoted q [] = None"
| "lex_quoted q [c] = (if c = q then Some ([], []) else None)"
| "lex_quoted q (c # d # cs) =
     (if c = q then (if d = q then map_option (apfst (Cons q)) (lex_quoted q cs) else Some ([], d # cs))
      else map_option (apfst (Cons c)) (lex_quoted q (d # cs)))"

lemma lex_quoted_shorter: "lex_quoted q s = Some (t, rest) \<Longrightarrow> length rest < length s"
  by (induction q s arbitrary: t rest rule: lex_quoted.induct) (force split: if_splits)+

function sql_lex :: "string \<Rightarrow> sql_token list option" where
  "sql_lex [] = Some []"
| "sql_lex (c # cs) =
     (if c = DQUOTE \<or> c = SQUOTE then
        (case lex_quoted c cs of
           None \<Rightarrow> None
         | Some (t, rest) \<Rightarrow> map_option (Cons (Quoted c t)) (sql_lex rest))
      else map_option (Cons (Plain c)) (sql_lex cs))"
  by pat_completeness auto
termination
  by (relation "measure length") (auto dest: lex_quoted_shorter)

declare sql_lex.simps(2) [simp del]

abbreviation plain_tokens :: "string \<Rightarrow> sql_token list" where
  "plain_tokens \<equiv> map Plain"

definition unquoted :: "string \<Rightarrow> bool" where
  "unquoted s \<longleftrightarrow> DQUOTE \<notin> set s \<and> SQUOTE \<notin> set s"

definition starts_unquoted :: "string \<Rightarrow> bool" where
  "starts_unquoted s = (case s of [] \<Rightarrow> True | c # _ \<Rightarrow> c \<noteq> DQUOTE \<and> c \<noteq> SQUOTE)"

text \<open>\<open>s\<close> reads as \<open>ts\<close> wherever a statement goes on without a quote.\<close>

definition lexes :: "string \<Rightarrow> sql_token list \<Rightarrow> bool" where
  "lexes s ts \<longleftrightarrow> (\<forall>rest. starts_unquoted rest \<longrightarrow> sql_lex (s @ rest) = map_option ((@) ts) (sql_lex rest))"

lemma map_option_append_Nil: "map_option ((@) []) x = x"
  by (cases x) simp_all

lemma map_option_append_append: "map_option ((@) xs) (map_option ((@) ys) x) = map_option ((@) (xs @ ys)) x"
  by (cases x) simp_all

lemma sql_lex_unquoted: "unquoted p \<Longrightarrow> sql_lex (p @ s) = map_option ((@) (plain_tokens p)) (sql_lex s)"
proof (induction p)
  case (Cons c p)
  then have "sql_lex (p @ s) = map_option ((@) (plain_tokens p)) (sql_lex s)" by (simp add: unquoted_def)
  with Cons.prems show ?case by (cases "sql_lex s") (auto simp: unquoted_def sql_lex.simps(2))
qed (simp add: map_option_append_Nil)

lemma lexes_whole: "lexes s ts \<Longrightarrow> sql_lex s = Some ts"
  unfolding lexes_def by (drule spec [of _ "[]"]) (simp add: starts_unquoted_def)

lemma lexes_Nil: "lexes [] []"
  by (simp add: lexes_def map_option_append_Nil)

lemma lexes_prefix: "unquoted p \<Longrightarrow> lexes s ts \<Longrightarrow> lexes (p @ s) (plain_tokens p @ ts)"
  by (simp add: lexes_def sql_lex_unquoted map_option_append_append)

lemma lexes_unquoted: "unquoted p \<Longrightarrow> lexes p (plain_tokens p)"
  by (simp add: lexes_def sql_lex_unquoted)

lemma lexes_append:
  assumes "lexes s ts" "lexes s' ts'" "starts_unquoted s'"
  shows "lexes (s @ s') (ts @ ts')"
proof (unfold lexes_def, intro allI impI)
  fix rest :: string
  assume rest: "starts_unquoted rest"
  with assms(3) have "starts_unquoted (s' @ rest)" by (cases s') (simp_all add: starts_unquoted_def)
  with assms(1) have "sql_lex (s @ s' @ rest) = map_option ((@) ts) (sql_lex (s' @ rest))" by (simp add: lexes_def)
  also from assms(2) rest have "sql_lex (s' @ rest) = map_option ((@) ts') (sql_lex rest)" by (simp add: lexes_def)
  finally show "sql_lex ((s @ s') @ rest) = map_option ((@) (ts @ ts')) (sql_lex rest)"
    by (simp add: map_option_append_append)
qed

lemma lex_quoted_escaped:
  assumes "rest = [] \<or> hd rest \<noteq> q"
  shows "lex_quoted q (replace_char q [q, q] t @ q # rest) = Some (t, rest)"
proof (induction t)
  case Nil
  from assms show ?case by (cases rest) (simp_all add: replace_char_def)
next
  case (Cons c t)
  show ?case
  proof (cases "c = q")
    case True
    with Cons show ?thesis by (simp add: replace_char_def)
  next
    case False
    obtain d ds where tail: "replace_char q [q, q] t @ q # rest = d # ds"
      by (cases "replace_char q [q, q] t") auto
    with Cons False show ?thesis by (simp add: replace_char_def)
  qed
qed

lemma lexes_quoted:
  assumes "q = DQUOTE \<or> q = SQUOTE"
  shows "lexes ([q] @ replace_char q [q, q] t @ [q]) [Quoted q t]"
proof (unfold lexes_def, intro allI impI)
  fix rest :: string
  assume "starts_unquoted rest"
  with assms have "rest = [] \<or> hd rest \<noteq> q" by (cases rest) (auto simp: starts_unquoted_def)
  from lex_quoted_escaped [OF this, of t] assms
  show "sql_lex (([q] @ replace_char q [q, q] t @ [q]) @ rest) = map_option ((@) [Quoted q t]) (sql_lex rest)"
    by (cases "sql_lex rest") (auto simp: sql_lex.simps(2))
qed

lemma lexes_join:
  assumes "list_all2 lexes ss tss" "unquoted sep" "sep \<noteq> []"
  shows "lexes (join sep ss) (join (plain_tokens sep) tss)"
  using assms
proof (induction sep ss arbitrary: tss rule: join.induct)
  case (1 sep)
  then show ?case by (simp add: lexes_Nil)
next
  case (2 sep x)
  then show ?case by (auto simp: list_all2_Cons1)
next
  case (3 sep x y xs)
  then obtain t u us where tss: "tss = t # u # us" by (auto simp: list_all2_Cons1)
  with 3 have x: "lexes x t" and rest: "lexes (join sep (y # xs)) (join (plain_tokens sep) (u # us))" by auto
  have "starts_unquoted (sep @ join sep (y # xs))"
    using "3.prems"(2,3) by (cases sep) (auto simp: starts_unquoted_def unquoted_def)
  from lexes_append [OF x lexes_prefix [OF "3.prems"(2) rest] this] tss show ?case by simp
qed

subsection \<open>The tokens of a statement\<close>

definition field_tokens :: "string \<Rightarrow> sql_token list" where
  "field_tokens name = plain_tokens ''t.'' @ [Quoted DQUOTE name]"

fun literal_tokens :: "(rat \<Rightarrow> string) \<Rightarrow> json \<Rightarrow> sql_token list" where
  "literal_tokens render_float (JString t) = [Quoted SQUOTE t]"
| "literal_tokens render_float (JNumber n) = plain_tokens (number_to_string render_float n)"
| "literal_tokens render_float (JBool b) = plain_tokens (if b then ''TRUE'' else ''FALSE'')"
| "literal_tokens render_float _ = []"

definition bound_tokens :: "(rat \<Rightarrow> string) \<Rightarrow> string \<Rightarrow> string \<Rightarrow> json option \<Rightarrow> sql_token list list" where
  "bound_tokens render_float name op bound =
     (case bound of None \<Rightarrow> [] | Some v \<Rightarrow> [field_tokens name @ plain_tokens op @ literal_tokens render_float v])"

definition filter_tokens :: "(rat \<Rightarrow> string) \<Rightarrow> read_predicate \<Rightarrow> sql_token list" where
  "filter_tokens render_float f =
     (case rp_eq f of
        Some v \<Rightarrow> field_tokens (rp_field f) @ plain_tokens '' = '' @ literal_tokens render_float v
      | None \<Rightarrow>
          (case rp_in_values f of
             Some vs \<Rightarrow> field_tokens (rp_field f) @ plain_tokens '' IN ('' @
               join (plain_tokens '', '') (map (literal_tokens render_float) vs) @ plain_tokens '')''
           | None \<Rightarrow>
               join (plain_tokens '' AND '')
                 (bound_tokens render_float (rp_field f) '' > '' (rp_gt f) @
                  bound_tokens render_float (rp_field f) '' >= '' (rp_gte f) @
                  bound_tokens render_float (rp_field f) '' < '' (rp_lt f) @
                  bound_tokens render_float (rp_field f) '' <= '' (rp_lte f))))"

definition from_where_tokens :: "sql_token list \<Rightarrow> string \<Rightarrow> bool \<Rightarrow> sql_token list list \<Rightarrow> sql_token list" where
  "from_where_tokens select table_name deletes clauses =
     (let all = clauses @ (if deletes then [plain_tokens ''dt._id_seq_no IS NULL''] else []) in
      plain_tokens ''SELECT '' @ select @ plain_tokens ('' FROM '' @ table_name @ '' t'') @
      (if deletes then plain_tokens '' LEFT JOIN {deletes_table} dt ON dt._id_seq_no = '' @ field_tokens ''_id_seq_no''
       else []) @
      (if all \<noteq> [] then plain_tokens '' WHERE '' @ join (plain_tokens '' AND '') all else []))"

definition call_tokens :: "string \<Rightarrow> string option \<Rightarrow> string option \<Rightarrow> sql_token list" where
  "call_tokens call name a =
     plain_tokens (call @ ''('') @ (case name of None \<Rightarrow> plain_tokens ''*'' | Some n \<Rightarrow> field_tokens n) @ plain_tokens '') AS '' @
     (case a of None \<Rightarrow> [] | Some x \<Rightarrow> [Quoted DQUOTE x])"

definition measure_tokens :: "bool \<Rightarrow> aggregate_measure_plan \<Rightarrow> sql_token list list" where
  "measure_tokens partial plan =
     (let a = Some (if partial then amp_partial_value_alias plan else amp_alias plan) in
      case amp_function plan of
        Agg_Count \<Rightarrow> [call_tokens ''COUNT'' None a]
      | Agg_Sum \<Rightarrow> [call_tokens ''SUM'' (amp_field plan) a]
      | Agg_Avg \<Rightarrow>
          if partial then
            [call_tokens ''SUM'' (amp_field plan) a, call_tokens ''COUNT'' (amp_field plan) (amp_partial_count_alias plan)]
          else [call_tokens ''AVG'' (amp_field plan) a]
      | Agg_Min \<Rightarrow> [call_tokens ''MIN'' (amp_field plan) a]
      | Agg_Max \<Rightarrow> [call_tokens ''MAX'' (amp_field plan) a])"

definition aggregate_tokens ::
    "(rat \<Rightarrow> string) \<Rightarrow> string \<Rightarrow> read_plan \<Rightarrow> nat \<Rightarrow> bool \<Rightarrow> bool \<Rightarrow> sql_token list" where
  "aggregate_tokens render_float table_name request limit deletes partial =
     (case rpl_aggregate request of
        None \<Rightarrow> []
      | Some aggregate \<Rightarrow>
          (let groups = map field_tokens (as_group_by aggregate);
               plans = (case aggregate_measure_plans aggregate of Inr plans \<Rightarrow> plans | Inl _ \<Rightarrow> []) in
           from_where_tokens (join (plain_tokens '', '') (groups @ concat (map (measure_tokens partial) plans)))
             table_name deletes (map (filter_tokens render_float) (rpl_filters request)) @
           (if as_group_by aggregate \<noteq> [] then plain_tokens '' GROUP BY '' @ join (plain_tokens '', '') groups else []) @
           plain_tokens ('' LIMIT '' @ show_nat (if as_group_by aggregate = [] then 1 else limit))))"

definition request_tokens ::
    "(rat \<Rightarrow> string) \<Rightarrow> string \<Rightarrow> read_plan \<Rightarrow> nat \<Rightarrow> bool \<Rightarrow> sql_token list" where
  "request_tokens render_float table_name request limit deletes =
     (if rpl_aggregate request \<noteq> None then aggregate_tokens render_float table_name request limit deletes False
      else
        from_where_tokens
          (case normalized_select (rpl_select request) of
             Some names \<Rightarrow> join (plain_tokens '', '') (map field_tokens names)
           | None \<Rightarrow> plain_tokens (if deletes then ''t.*'' else ''*''))
          table_name deletes (map (filter_tokens render_float) (rpl_filters request)) @
        (case rpl_order_by request of
           [] \<Rightarrow> []
         | s # _ \<Rightarrow> plain_tokens '' ORDER BY '' @ field_tokens (rs_field s) @
             plain_tokens (if rs_descending s then '' DESC'' else '' ASC'')) @
        plain_tokens ('' LIMIT '' @ show_nat limit))"

lemma unquoted_append [simp]: "unquoted (s @ t) \<longleftrightarrow> unquoted s \<and> unquoted t"
  by (auto simp: unquoted_def)

lemma unquoted_Cons [simp]: "unquoted (c # s) \<longleftrightarrow> c \<noteq> DQUOTE \<and> c \<noteq> SQUOTE \<and> unquoted s"
  by (auto simp: unquoted_def)

lemma unquoted_Nil [simp]: "unquoted []"
  by (simp add: unquoted_def)

lemma starts_unquoted_simps [simp]:
  "starts_unquoted []"
  "starts_unquoted (c # s) \<longleftrightarrow> c \<noteq> DQUOTE \<and> c \<noteq> SQUOTE"
  by (simp_all add: starts_unquoted_def)

lemma unquoted_show_nat [simp]: "unquoted (show_nat n)"
  using show_nat_digits [of n] by (auto simp: unquoted_def list_all_iff is_digit_def)

lemma unquoted_number:
  assumes "\<And>r. unquoted (render_float r)"
  shows "unquoted (number_to_string render_float n)"
  using assms by (cases n) (simp_all add: show_int_def)

lemma lexes_identifier: "lexes (quoted_identifier name) [Quoted DQUOTE name]"
  using lexes_quoted [of DQUOTE name] by (simp add: quoted_identifier_def escape_identifier_def)

lemma lexes_field: "lexes (quoted_field name) (field_tokens name)"
  unfolding quoted_field_def field_tokens_def by (intro lexes_prefix lexes_identifier) simp

lemma starts_unquoted_field [simp]: "starts_unquoted (quoted_field name)" "starts_unquoted (quoted_field name @ s)"
  by (simp_all add: quoted_field_def)

lemma lexes_literal:
  assumes "sql_literal render_float v = Inr l" "\<And>r. unquoted (render_float r)"
  shows "lexes l (literal_tokens render_float v)"
proof (cases v)
  case (JString t)
  with assms lexes_quoted [of SQUOTE t] show ?thesis by auto
next
  case (JNumber n)
  with assms lexes_unquoted [OF unquoted_number [where n = n, OF assms(2)]] show ?thesis by auto
next
  case (JBool b)
  with assms(1) have "unquoted l" "literal_tokens render_float v = plain_tokens l" by auto
  then show ?thesis by (simp add: lexes_unquoted)
qed (use assms(1) in \<open>simp_all add: bad_request_def\<close>)

text \<open>A field, an operator and what it is compared with.\<close>

lemma lexes_comparison:
  assumes "lexes l ts" "unquoted op" "op \<noteq> []"
  shows "lexes (quoted_field name @ op @ l) (field_tokens name @ plain_tokens op @ ts)"
  by (rule lexes_append [OF lexes_field lexes_prefix [OF assms(2,1)]]) (use assms in \<open>cases op; simp\<close>)

lemma lexes_bound:
  assumes "sql_bound render_float (quoted_field name) op bound = Inr ps" "\<And>r. unquoted (render_float r)"
    "unquoted op" "op \<noteq> []"
  shows "list_all2 lexes ps (bound_tokens render_float name op bound)"
  using assms by (cases bound) (auto simp: sql_bound_def bound_tokens_def rmap_eq_Inr intro: lexes_comparison lexes_literal)

lemma lexes_filter:
  assumes "sql_for_filter render_float f = Inr w" "\<And>r. unquoted (render_float r)"
  shows "lexes w (filter_tokens render_float f)"
proof (cases "rp_eq f")
  case (Some v)
  with assms obtain l where l: "sql_literal render_float v = Inr l" "w = quoted_field (rp_field f) @ '' = '' @ l"
    by (auto simp: sql_for_filter_def Let_def rmap_eq_Inr)
  from lexes_comparison [where op = "'' = ''" and name = "rp_field f", OF lexes_literal [OF l(1) assms(2)]] Some l(2)
  show ?thesis by (simp add: filter_tokens_def)
next
  case no_eq: None
  show ?thesis
  proof (cases "rp_in_values f")
    case (Some vs)
    with assms no_eq obtain ls where ls: "mapm (sql_literal render_float) vs = Inr ls"
      "w = quoted_field (rp_field f) @ '' IN ('' @ join '', '' ls @ '')''"
      by (auto simp: sql_for_filter_def Let_def rmap_eq_Inr)
    from ls(1) have "list_all2 lexes ls (map (literal_tokens render_float) vs)"
      by (auto simp: mapm_Inr_iff list_all2_conv_all_nth intro: lexes_literal assms(2))
    from lexes_append [OF lexes_join [OF this, of "'', ''"] lexes_unquoted [of "'')''"]]
    have "lexes (join '', '' ls @ '')'') (join (plain_tokens '', '') (map (literal_tokens render_float) vs) @ plain_tokens '')'')"
      by simp
    from lexes_comparison [OF this, of "'' IN (''" "rp_field f"] ls(2) Some no_eq
    show ?thesis by (simp add: filter_tokens_def)
  next
    case None
    with assms no_eq obtain gt gte lt lte where parts:
      "sql_bound render_float (quoted_field (rp_field f)) '' > '' (rp_gt f) = Inr gt"
      "sql_bound render_float (quoted_field (rp_field f)) '' >= '' (rp_gte f) = Inr gte"
      "sql_bound render_float (quoted_field (rp_field f)) '' < '' (rp_lt f) = Inr lt"
      "sql_bound render_float (quoted_field (rp_field f)) '' <= '' (rp_lte f) = Inr lte"
      "w = join '' AND '' (gt @ gte @ lt @ lte)"
      by (auto simp: sql_for_filter_def Let_def res_Inr)
    note each = parts(1-4) [THEN lexes_bound, OF assms(2)]
    show ?thesis unfolding parts(5) filter_tokens_def no_eq None
      by (simp only: option.case) (rule lexes_join; (intro list_all2_appendI each)?; simp)
  qed
qed

lemma lexes_filters:
  assumes "mapm (sql_for_filter render_float) fs = Inr ws" "\<And>r. unquoted (render_float r)"
  shows "list_all2 lexes ws (map (filter_tokens render_float) fs)"
  using assms by (auto simp: mapm_Inr_iff list_all2_conv_all_nth intro: lexes_filter)

lemma lexes_fields: "list_all2 lexes (map quoted_field names) (map field_tokens names)"
  by (simp add: list_all2_conv_all_nth lexes_field)

text \<open>Composition where the second piece starts with text outside quotes.\<close>

lemma lexes_then:
  assumes "lexes s ts" "unquoted p" "p \<noteq> []" "lexes s' ts'"
  shows "lexes (s @ p @ s') (ts @ plain_tokens p @ ts')"
  by (rule lexes_append [OF assms(1) lexes_prefix [OF assms(2,4)]]) (use assms in \<open>cases p; simp\<close>)

lemma lexes_delete_join:
  "lexes delete_join (plain_tokens '' LEFT JOIN {deletes_table} dt ON dt._id_seq_no = '' @ field_tokens ''_id_seq_no'')"
  using lexes_prefix [OF _ lexes_field, of "'' LEFT JOIN {deletes_table} dt ON dt._id_seq_no = ''" "''_id_seq_no''"]
  by (simp add: delete_join_def quoted_field_def)

lemma lexes_from_where:
  assumes "lexes select ts" "list_all2 lexes ws cs" "unquoted table_name"
  shows "lexes (sql_from_where select table_name deletes ws) (from_where_tokens ts table_name deletes cs)"
proof -
  let ?ws = "ws @ (if deletes then [''dt._id_seq_no IS NULL''] else [])"
  let ?cs = "cs @ (if deletes then [plain_tokens ''dt._id_seq_no IS NULL''] else [])"
  let ?j = "if deletes then delete_join else []"
  let ?where = "if ?ws \<noteq> [] then '' WHERE '' @ join '' AND '' ?ws else []"
  let ?from = "'' FROM '' @ table_name @ '' t''"
  have clauses: "list_all2 lexes ?ws ?cs"
    using assms(2) lexes_unquoted [of "''dt._id_seq_no IS NULL''"] by (intro list_all2_appendI) simp_all
  have where_clause: "lexes ?where (if ?cs \<noteq> [] then plain_tokens '' WHERE '' @ join (plain_tokens '' AND '') ?cs else [])"
  proof (cases "?ws = []")
    case True
    with clauses show ?thesis by (simp add: lexes_Nil)
  next
    case False
    with clauses have "?cs \<noteq> []" by (metis list_all2_Nil2)
    moreover have "lexes ('' WHERE '' @ join '' AND '' ?ws) (plain_tokens '' WHERE '' @ join (plain_tokens '' AND '') ?cs)"
      by (rule lexes_prefix [OF _ lexes_join [OF clauses]]) simp_all
    ultimately show ?thesis using False by simp
  qed
  have start: "starts_unquoted ?where" by simp
  have join_part: "lexes ?j (if deletes then plain_tokens '' LEFT JOIN {deletes_table} dt ON dt._id_seq_no = '' @
      field_tokens ''_id_seq_no'' else [])"
    using lexes_delete_join by (simp add: lexes_Nil)
  have "lexes (''SELECT '' @ select @ ?from @ ?j @ ?where)
      (plain_tokens ''SELECT '' @ ts @ plain_tokens ?from @
       (if deletes then plain_tokens '' LEFT JOIN {deletes_table} dt ON dt._id_seq_no = '' @ field_tokens ''_id_seq_no''
        else []) @ (if ?cs \<noteq> [] then plain_tokens '' WHERE '' @ join (plain_tokens '' AND '') ?cs else []))"
    by (rule lexes_prefix, simp, rule lexes_then [OF assms(1) _ _ lexes_append [OF join_part where_clause start]])
      (simp_all add: assms(3))
  then show ?thesis by (simp add: sql_from_where_def from_where_tokens_def Let_def)
qed

lemma lexes_call:
  assumes "unquoted call"
  shows "lexes (aggregate_call call name a) (call_tokens call (Some name) (Some a))"
    "lexes (call @ ''(*) AS '' @ quoted_identifier a) (call_tokens call None (Some a))"
proof -
  have "lexes ((call @ ''('') @ quoted_field name @ '') AS '' @ quoted_identifier a)
      (plain_tokens (call @ ''('') @ field_tokens name @ plain_tokens '') AS '' @ [Quoted DQUOTE a])"
    by (rule lexes_prefix, simp add: assms, rule lexes_then [OF lexes_field _ _ lexes_identifier]) simp_all
  then show "lexes (aggregate_call call name a) (call_tokens call (Some name) (Some a))"
    by (simp add: aggregate_call_def call_tokens_def)
  have "lexes ((call @ ''(*) AS '') @ quoted_identifier a) (plain_tokens (call @ ''(*) AS '') @ [Quoted DQUOTE a])"
    by (rule lexes_prefix [OF _ lexes_identifier]) (simp add: assms)
  then show "lexes (call @ ''(*) AS '' @ quoted_identifier a) (call_tokens call None (Some a))"
    by (simp add: call_tokens_def)
qed

lemma lexes_measure:
  assumes "aggregate_select_parts partial plan = Inr parts"
  shows "list_all2 lexes parts (measure_tokens partial plan)"
  using assms lexes_call(2) [of "''COUNT''"] lexes_call(1) [of "''SUM''"] lexes_call(1) [of "''COUNT''"]
    lexes_call(1) [of "''AVG''"] lexes_call(1) [of "''MIN''"] lexes_call(1) [of "''MAX''"]
  by (auto simp: aggregate_select_parts_def measure_tokens_def Let_def res_Inr unwrap_field_def
      split: aggregate_function.splits if_splits)

lemma lexes_measures:
  assumes "mapm (aggregate_select_parts partial) plans = Inr parts"
  shows "list_all2 lexes (concat parts) (concat (map (measure_tokens partial) plans))"
proof -
  from assms have "list_all2 (\<lambda>plan ps. aggregate_select_parts partial plan = Inr ps) plans parts"
    by (simp add: mapm_Inr_iff)
  then show ?thesis by (induction rule: list_all2_induct) (auto intro: list_all2_appendI lexes_measure)
qed

lemma lexes_limit:
  assumes "lexes s ts"
  shows "lexes (s @ '' LIMIT '' @ show_nat n) (ts @ plain_tokens ('' LIMIT '' @ show_nat n))"
  by (rule lexes_append [OF assms lexes_unquoted]) simp_all

lemma lexes_optional:
  assumes "lexes s ts" "b \<Longrightarrow> lexes s' ts'" "unquoted p" "p \<noteq> []"
  shows "lexes (s @ (if b then p @ s' else [])) (ts @ (if b then plain_tokens p @ ts' else []))"
  using assms lexes_then [OF assms(1,3,4)] by simp

lemma lexes_aggregate:
  assumes "build_aggregate_sql render_float table_name request limit deletes partial = Inr sql"
    "\<And>r. unquoted (render_float r)" "unquoted table_name"
  shows "lexes sql (aggregate_tokens render_float table_name request limit deletes partial)"
proof -
  from assms(1) obtain aggregate plans parts ws where
    run: "rpl_aggregate request = Some aggregate" "aggregate_measure_plans aggregate = Inr plans"
      "mapm (aggregate_select_parts partial) plans = Inr parts"
      "mapm (sql_for_filter render_float) (rpl_filters request) = Inr ws"
    and sql: "sql = sql_from_where (join '', '' (map quoted_field (as_group_by aggregate) @ concat parts)) table_name deletes ws @
          (if as_group_by aggregate \<noteq> [] then '' GROUP BY '' @ join '', '' (map quoted_field (as_group_by aggregate)) else []) @
          '' LIMIT '' @ show_nat (if as_group_by aggregate = [] then 1 else limit)"
    by (auto simp: build_aggregate_sql_def res_Inr Let_def)
  have select: "lexes (join '', '' (map quoted_field (as_group_by aggregate) @ concat parts))
      (join (plain_tokens '', '') (map field_tokens (as_group_by aggregate) @ concat (map (measure_tokens partial) plans)))"
    by (rule lexes_join [OF list_all2_appendI [OF lexes_fields lexes_measures [OF run(3)]]]) simp_all
  have groups: "lexes (join '', '' (map quoted_field (as_group_by aggregate)))
      (join (plain_tokens '', '') (map field_tokens (as_group_by aggregate)))"
    by (rule lexes_join [OF lexes_fields]) simp_all
  note body = lexes_from_where [OF select lexes_filters [OF run(4) assms(2)] assms(3), of deletes]
  from lexes_limit [OF lexes_optional [OF body groups, of "'' GROUP BY ''" "as_group_by aggregate \<noteq> []"]] run(1,2)
  show ?thesis unfolding sql by (simp add: aggregate_tokens_def Let_def)
qed

text \<open>
  C36. The SQL of a request reads back as exactly the tokens of the request: every string operand
  is one literal token with its own text, every field and alias one identifier token with its own
  name, and everything outside quotes is the fixed text of the statement, the table name, numbers
  and booleans. Nothing a client writes into an operand or a name can end its quotes.
\<close>

theorem sql_text_stays_quoted:
  assumes "build_sql render_float table_name request limit deletes = Inr sql"
    "\<And>r. unquoted (render_float r)" "unquoted table_name"
  shows "sql_lex sql = Some (request_tokens render_float table_name request limit deletes)"
proof (cases "rpl_aggregate request = None")
  case False
  with assms show ?thesis
    by (auto simp: build_sql_def request_tokens_def intro!: lexes_whole lexes_aggregate)
next
  case True
  let ?select = "case normalized_select (rpl_select request) of
      Some names \<Rightarrow> join '', '' (map quoted_field names) | None \<Rightarrow> if deletes then ''t.*'' else ''*''"
  let ?tokens = "case normalized_select (rpl_select request) of
      Some names \<Rightarrow> join (plain_tokens '', '') (map field_tokens names) | None \<Rightarrow> plain_tokens (if deletes then ''t.*'' else ''*'')"
  let ?direction = "\<lambda>s. if rs_descending s then '' DESC'' else '' ASC''"
  from True assms(1) obtain ws where ws: "mapm (sql_for_filter render_float) (rpl_filters request) = Inr ws"
    and sql: "sql = sql_from_where ?select table_name deletes ws @
      (case rpl_order_by request of [] \<Rightarrow> [] | s # _ \<Rightarrow> '' ORDER BY '' @ quoted_field (rs_field s) @ ?direction s) @
      '' LIMIT '' @ show_nat limit"
    by (auto simp: build_sql_def rmap_eq_Inr Let_def)
  have "lexes ?select ?tokens"
    using lexes_join [OF lexes_fields, of "'', ''"] lexes_unquoted [of "''t.*''"] lexes_unquoted [of "''*''"]
    by (simp split: option.split)
  from lexes_from_where [OF this lexes_filters [OF ws assms(2)] assms(3)]
  have body: "lexes (sql_from_where ?select table_name deletes ws)
      (from_where_tokens ?tokens table_name deletes (map (filter_tokens render_float) (rpl_filters request)))" .
  show ?thesis
  proof (cases "rpl_order_by request")
    case Nil
    from lexes_whole [OF lexes_limit [OF body]] True Nil show ?thesis unfolding sql by (simp add: request_tokens_def)
  next
    case (Cons s ss)
    have "lexes (quoted_field (rs_field s) @ ?direction s) (field_tokens (rs_field s) @ plain_tokens (?direction s))"
      by (rule lexes_append [OF lexes_field lexes_unquoted]) simp_all
    from lexes_whole [OF lexes_limit [OF lexes_then [OF body _ _ this, of "'' ORDER BY ''"]]] True Cons
    show ?thesis unfolding sql by (simp add: request_tokens_def)
  qed
qed

definition sample_hostile_request :: serving_request_plan where
  "sample_hostile_request =
     \<lparr>srp_select = Some [''title''],
      srp_filters = [\<lparr>svp_field = ''tenant'', svp_eq = Some (JString ([SQUOTE] @ '' OR TRUE --'')), svp_in_values = None,
        svp_gt = None, svp_gte = None, svp_lt = None, svp_lte = None\<rparr>],
      srp_aggregate = None, srp_order_by = [\<lparr>svs_field = ''title'', svs_descending = False\<rparr>], srp_limit = Some 5,
      srp_allow_slow_path = False, srp_explain = False\<rparr>"

lemma sql_text_stays_quoted_witness:
  "\<exists>sql. build_sql (\<lambda>_. ''0.5'') ''{table}'' (read_plan_from sample_hostile_request) 5 False = Inr sql \<and>
     sql_lex sql = Some (request_tokens (\<lambda>_. ''0.5'') ''{table}'' (read_plan_from sample_hostile_request) 5 False) \<and>
     Quoted SQUOTE ([SQUOTE] @ '' OR TRUE --'') \<in> set (request_tokens (\<lambda>_. ''0.5'') ''{table}''
       (read_plan_from sample_hostile_request) 5 False)"
proof -
  obtain sql where sql: "build_sql (\<lambda>_. ''0.5'') ''{table}'' (read_plan_from sample_hostile_request) 5 False = Inr sql"
    by (simp add: build_sql_def sample_hostile_request_def read_plan_from_def read_predicate_from_def sql_for_filter_def Let_def)
  from sql_text_stays_quoted [OF sql] have
    "sql_lex sql = Some (request_tokens (\<lambda>_. ''0.5'') ''{table}'' (read_plan_from sample_hostile_request) 5 False)"
    by simp
  with sql show ?thesis
    by (simp add: sample_hostile_request_def request_tokens_def from_where_tokens_def filter_tokens_def read_plan_from_def
        read_predicate_from_def)
qed

text \<open>
  The unit tests of the module expect statements whose columns have no table prefix; the builder
  writes one.
\<close>

definition sample_title_request :: serving_request_plan where
  "sample_title_request =
     \<lparr>srp_select = Some [''title''],
      srp_filters = [\<lparr>svp_field = ''snippet'', svp_eq = Some (JString ''hello''), svp_in_values = None,
        svp_gt = None, svp_gte = None, svp_lt = None, svp_lte = None\<rparr>],
      srp_aggregate = None, srp_order_by = [\<lparr>svs_field = ''title'', svs_descending = False\<rparr>], srp_limit = Some 5,
      srp_allow_slow_path = False, srp_explain = False\<rparr>"

lemma columns_carry_the_table_prefix:
  "build_sql render_float ''{table}'' (read_plan_from sample_title_request) 5 False =
     Inr (''SELECT t.'' @ quoted_identifier ''title'' @ '' FROM {table} t WHERE t.'' @ quoted_identifier ''snippet'' @ '' = '' @
       [SQUOTE] @ ''hello'' @ [SQUOTE] @ '' ORDER BY t.'' @ quoted_identifier ''title'' @ '' ASC LIMIT 5'')"
proof -
  have "show_nat 5 = ''5''" by code_simp
  then show ?thesis
    by (simp add: sample_title_request_def build_sql_def read_plan_from_def read_predicate_from_def read_sort_from_def
        sql_for_filter_def sql_from_where_def normalized_select_def quoted_field_def replace_char_def)
qed

text \<open>
  The statement a group of files runs: the placeholder of the table is replaced in the whole
  statement, literals included.
\<close>

definition group_sql_template :: "string \<Rightarrow> string" where
  "group_sql_template sql_template = replace_str ''{table}'' ''{target_table}'' sql_template"

definition sample_placeholder_request :: serving_request_plan where
  "sample_placeholder_request =
     sample_title_request\<lparr>srp_filters := map (\<lambda>f. f\<lparr>svp_eq := Some (JString ''{table}'')\<rparr>) (srp_filters sample_title_request)\<rparr>"

text \<open>A filter for the text of the placeholder is changed on the way to the engine.\<close>

lemma placeholder_in_literal_is_replaced:
  "case build_sql (\<lambda>_. []) ''{table}'' (read_plan_from sample_placeholder_request) 5 False of
     Inl _ \<Rightarrow> False
   | Inr sql \<Rightarrow>
       (case (sql_lex sql, sql_lex (group_sql_template sql)) of
          (Some ts, Some ts') \<Rightarrow>
            Quoted SQUOTE ''{table}'' \<in> set ts \<and> Quoted SQUOTE ''{target_table}'' \<in> set ts' \<and>
            Quoted SQUOTE ''{table}'' \<notin> set ts'
        | _ \<Rightarrow> False)"
  by code_simp

end
