(* ===== verification/Serving_Plan.thy ===== *)
theory Serving_Plan
  imports Serving_Request
begin

section \<open>Planning and admission of serving queries\<close>

text \<open>
  \<^verbatim>\<open>query_runtime/src/lakehouse_serving.rs\<close> from the validated request to its execution: matching
  the declared serving patterns, choosing artifacts, pruning (theory \<open>Serving_Prune\<close>), and the
  admission decision on the estimated cost, composed by \<open>plan_request\<close> and guarded by
  \<open>execute_serving_query\<close>. Loading the context of a table reads the metadata service and object
  storage: the context is an argument. Executing an admitted plan is the parameter \<open>run\<close>;
  theory \<open>Serving_Topk\<close> models its scan of a row query. The statistics of the bulk cache are
  passed through.

  A validated request always gets a plan, and rows are only produced within the budgets: without
  the permission of the client within those of the fast path.
\<close>

subsection \<open>Context and plan\<close>

record serving_execution_context =
  ctx_description :: table_description
  ctx_checkpoint :: checkpoint_descriptor
  ctx_schema :: powdrr_schema
  ctx_files :: "file_descriptor list"
  ctx_speedboat_files :: "file_descriptor list"
  ctx_delete_files :: "string list"
  ctx_file_stats :: "(string, iceberg_file_stats) hash_map"
  ctx_partition_spec :: "iceberg_partition_field list"
  ctx_sort_order :: "iceberg_sort_field list"
  ctx_access_artifacts :: "iceberg_access_artifact list"
  ctx_extension_files :: "(string, extension_file list) hash_map"
  ctx_exact_artifact_fields :: "string list"
  ctx_snapshot_id :: "string option"
  ctx_metadata_snapshot_cached :: bool

record serving_plan =
  pln_classification :: serving_query_classification
  pln_matched_pattern :: "string option"
  pln_reason :: "string option"
  pln_limit :: nat
  pln_sql :: string
  pln_selected_files :: "file_descriptor list"
  pln_files_considered :: nat
  pln_files_selected :: nat
  pln_row_groups_considered :: nat
  pln_row_groups_selected :: nat
  pln_delete_files_considered :: nat
  pln_estimated_bytes :: u64
  pln_partition_fields_available :: nat
  pln_sort_fields_available :: nat
  pln_declared_sort_order_match :: bool
  pln_metadata_snapshot_cached :: bool
  pln_metadata_files_cached :: nat
  pln_metadata_row_groups_cached :: nat
  pln_page_index_row_groups_selected :: nat
  pln_bloom_filter_row_groups_selected :: nat
  pln_artifacts_considered :: "string list"
  pln_artifacts_used :: "string list"

definition fast_path_max_bytes :: u64 where "fast_path_max_bytes = 128 * 1024 * 1024"
definition fast_path_max_files :: nat where "fast_path_max_files = 32"
definition fast_path_max_row_groups :: nat where "fast_path_max_row_groups = 128"
definition fast_path_max_delete_files :: nat where "fast_path_max_delete_files = 8"
definition slow_path_max_bytes :: u64 where "slow_path_max_bytes = 512 * 1024 * 1024"
definition slow_path_max_files :: nat where "slow_path_max_files = 128"
definition slow_path_max_row_groups :: nat where "slow_path_max_row_groups = 512"
definition slow_path_max_delete_files :: nat where "slow_path_max_delete_files = 64"

definition artifact_secondary_pattern :: string where "artifact_secondary_pattern = ''secondary-pattern''"
definition artifact_sort_order :: string where "artifact_sort_order = ''sort-order''"
definition artifact_exact_pruning :: string where "artifact_exact_pruning = ''exact-pruning''"
definition artifact_exact_index :: string where "artifact_exact_index = ''exact-index''"

subsection \<open>Serving patterns\<close>

definition aggregate_measures_match :: "serving_aggregate_measure \<Rightarrow> serving_aggregate_measure \<Rightarrow> bool" where
  "aggregate_measures_match l r =
     (case (normalized_aggregate_function (am_function l), normalized_aggregate_function (am_function r)) of
        (Some f, Some g) \<Rightarrow> f = g \<and> am_field l = am_field r
      | _ \<Rightarrow> False)"

definition aggregate_specs_match :: "serving_aggregate_spec option \<Rightarrow> serving_aggregate_spec option \<Rightarrow> bool" where
  "aggregate_specs_match request pattern =
     (case (request, pattern) of
        (None, None) \<Rightarrow> True
      | (Some r, Some p) \<Rightarrow>
          as_group_by r = as_group_by p \<and> length (as_measures r) = length (as_measures p) \<and>
          list_all (\<lambda>(x, y). aggregate_measures_match x y) (zip (as_measures r) (as_measures p))
      | _ \<Rightarrow> False)"

definition request_supported :: "read_plan \<Rightarrow> bool" where
  "request_supported request =
     (if rpl_aggregate request \<noteq> None then rpl_order_by request = [] else length (rpl_order_by request) \<le> 1)"

definition sort_order_matches_request :: "iceberg_sort_field list \<Rightarrow> read_plan \<Rightarrow> bool" where
  "sort_order_matches_request sort_order request =
     (case rpl_order_by request of
        [] \<Rightarrow> False
      | s # _ \<Rightarrow>
          (case sort_order of
             [] \<Rightarrow> False
           | f # _ \<Rightarrow> sf_transform f = ''identity'' \<and> sf_source_field_name f = rs_field s \<and>
               sf_descending f = rs_descending s))"

definition uses_eq :: "read_predicate \<Rightarrow> bool" where
  "uses_eq p \<longleftrightarrow> rp_eq p \<noteq> None \<or> rp_in_values p \<noteq> None"

definition uses_range :: "read_predicate \<Rightarrow> bool" where
  "uses_range p \<longleftrightarrow> rp_gt p \<noteq> None \<or> rp_gte p \<noteq> None \<or> rp_lt p \<noteq> None \<or> rp_lte p \<noteq> None"

definition projection_matches :: "read_plan \<Rightarrow> serving_pattern \<Rightarrow> bool" where
  "projection_matches request pattern =
     (case (normalized_select (rpl_select request), sp_projection pattern) of
        (Some names, Some projection) \<Rightarrow> list_all (\<lambda>n. n \<in> set projection) names
      | _ \<Rightarrow> \<not> (rpl_select request = None \<and> sp_projection pattern \<noteq> None))"

definition order_matches :: "read_plan \<Rightarrow> serving_pattern \<Rightarrow> bool" where
  "order_matches request pattern =
     (case sp_order_field pattern of
        Some order_field \<Rightarrow>
          (case rpl_order_by request of
             s # _ \<Rightarrow> rs_field s = order_field \<and> rs_descending s = sp_descending pattern
           | [] \<Rightarrow> False)
      | None \<Rightarrow> rpl_order_by request = [])"

definition filters_match :: "read_plan \<Rightarrow> serving_pattern \<Rightarrow> bool" where
  "filters_match request pattern \<longleftrightarrow>
     list_all (\<lambda>f. (uses_eq f \<longrightarrow> rp_field f \<in> set (sp_eq_fields pattern)) \<and>
         (uses_range f \<longrightarrow> sp_range_field pattern = Some (rp_field f))) (rpl_filters request) \<and>
     list_all (\<lambda>n. n \<in> rp_field ` set (rpl_filters request)) (sp_eq_fields pattern) \<and>
     (case sp_range_field pattern of
        None \<Rightarrow> True
      | Some n \<Rightarrow> n \<in> rp_field ` set (rpl_filters request))"

definition request_matches_pattern :: "read_plan \<Rightarrow> serving_pattern \<Rightarrow> nat \<Rightarrow> bool" where
  "request_matches_pattern request pattern limit =
     (if (case sp_max_limit pattern of None \<Rightarrow> False | Some m \<Rightarrow> limit > unat m) then False
      else if \<not> projection_matches request pattern then False
      else if \<not> aggregate_specs_match (rpl_aggregate request) (sp_aggregate pattern) then False
      else if \<not> order_matches request pattern then False
      else filters_match request pattern)"

definition warmup_request_for_pattern :: "serving_pattern \<Rightarrow> (serving_request_plan \<times> nat) option" where
  "warmup_request_for_pattern pattern =
     (case sp_order_field pattern of
        None \<Rightarrow> None
      | Some order_field \<Rightarrow>
          if sp_eq_fields pattern \<noteq> [] \<or> sp_range_field pattern \<noteq> None \<or> sp_aggregate pattern \<noteq> None then None
          else
            (let limit = max 1 (min (case sp_max_limit pattern of None \<Rightarrow> default_limit | Some m \<Rightarrow> unat m) max_limit) in
             Some (\<lparr>srp_select = sp_projection pattern, srp_filters = [], srp_aggregate = None,
                    srp_order_by = [\<lparr>svs_field = order_field, svs_descending = sp_descending pattern\<rparr>],
                    srp_limit = Some limit, srp_allow_slow_path = False, srp_explain = False\<rparr>, limit)))"

subsection \<open>Artifacts\<close>

definition secondary_pattern_artifact_name :: "string \<Rightarrow> string" where
  "secondary_pattern_artifact_name pattern_name = artifact_secondary_pattern @ '':'' @ pattern_name"

definition strip_prefix :: "string \<Rightarrow> string \<Rightarrow> string option" where
  "strip_prefix p s = (if take (length p) s = p then Some (drop (length p) s) else None)"

definition artifact_matches_request :: "read_plan \<Rightarrow> bool \<Rightarrow> iceberg_access_artifact \<Rightarrow> bool" where
  "artifact_matches_request request declared_sort_order_match artifact \<longleftrightarrow>
     list_ex (\<lambda>p. rp_field p \<in> set (aa_fields artifact) \<and>
         ((uses_eq p \<and> aa_supports_eq artifact) \<or> (uses_range p \<and> aa_supports_range artifact))) (rpl_filters request) \<or>
     (case rpl_order_by request of
        [] \<Rightarrow> False
      | s # _ \<Rightarrow> aa_supports_order artifact \<and> declared_sort_order_match \<and> rs_field s \<in> set (aa_fields artifact)) \<or>
     (case rpl_aggregate request of
        None \<Rightarrow> False
      | Some aggregate \<Rightarrow>
          list_ex (\<lambda>n. n \<in> set (aa_fields artifact)) (as_group_by aggregate) \<or>
          list_ex (\<lambda>m. case am_field m of None \<Rightarrow> False | Some n \<Rightarrow> n \<in> set (aa_fields artifact))
            (as_measures aggregate))"

definition applicable_artifact ::
    "read_plan \<Rightarrow> serving_pattern list \<Rightarrow> bool \<Rightarrow> iceberg_access_artifact \<Rightarrow> bool" where
  "applicable_artifact request patterns declared_sort_order_match artifact =
     (if aa_kind artifact = artifact_secondary_pattern then
        (case strip_prefix (artifact_secondary_pattern @ '':'') (aa_name artifact) of
           None \<Rightarrow> False
         | Some pattern_name \<Rightarrow>
             list_ex (\<lambda>p. sp_name p = pattern_name \<and>
               request_matches_pattern request p (normalized_limit default_limit max_limit request)) patterns)
      else artifact_matches_request request declared_sort_order_match artifact)"

definition applicable_artifacts_for_request ::
    "read_plan \<Rightarrow> serving_pattern list \<Rightarrow> iceberg_access_artifact list \<Rightarrow> bool \<Rightarrow> string list" where
  "applicable_artifacts_for_request request patterns artifacts declared_sort_order_match =
     foldl (\<lambda>matched artifact.
         if applicable_artifact request patterns declared_sort_order_match artifact
         then push_unique_string matched (aa_name artifact) else matched) [] artifacts"

definition identity_partition_fields :: "iceberg_partition_field list \<Rightarrow> string set" where
  "identity_partition_fields spec = set (map pf_source_field_name [f \<leftarrow> spec. pf_transform f = ''identity''])"

definition has_exact_artifact :: "string list \<Rightarrow> bool" where
  "has_exact_artifact artifacts = list_ex (\<lambda>a. a = artifact_exact_pruning \<or> a = artifact_exact_index) artifacts"

definition exact_artifact_fields :: "powdrr_schema \<Rightarrow> string list" where
  "exact_artifact_fields schema = map field_name [f \<leftarrow> schema_fields schema. is_scalar_type (field_type f)]"

subsection \<open>Admission\<close>

definition serving_patterns :: "serving_execution_context \<Rightarrow> serving_pattern list" where
  "serving_patterns context = (case td_serving (ctx_description context) of None \<Rightarrow> [] | Some c \<Rightarrow> stc_patterns c)"

definition suggested_actions_for_request ::
    "serving_execution_context \<Rightarrow> read_plan \<Rightarrow> bool \<Rightarrow> string list \<Rightarrow> string list" where
  "suggested_actions_for_request context request declared_sort_order_match artifacts_considered =
     (let missing = [n \<leftarrow> map rp_field [p \<leftarrow> rpl_filters request. uses_eq p].
                       n \<notin> identity_partition_fields (ctx_partition_spec context)] in
      (if missing \<noteq> [] then [''cluster or partition hot data on '' @ join '', '' missing] else []) @
      (if uses_exact_filters request \<and> \<not> has_exact_artifact artifacts_considered
       then [''publish exact_pruning or exact_index sidecars for exact-match fields''] else []) @
      (if rpl_aggregate request \<noteq> None
       then [''declare aggregate fragments or a bitmap/rollup artifact for this aggregate pattern''] else []) @
      (case find (\<lambda>p. request_matches_pattern request p (normalized_limit default_limit max_limit request))
              (serving_patterns context) of
         None \<Rightarrow> []
       | Some p \<Rightarrow>
           if secondary_pattern_artifact_name (sp_name p) \<notin> set artifacts_considered \<and> rpl_aggregate request = None
           then [''build a declared secondary serving artifact for pattern '' @ sp_name p] else []) @
      (case rpl_order_by request of
         [] \<Rightarrow> []
       | s # _ \<Rightarrow> if \<not> declared_sort_order_match
           then [''rewrite or compact files with Iceberg sort order on '' @ rs_field s] else []) @
      (if length (ctx_delete_files context) > fast_path_max_delete_files
       then [''compact or apply delete files to reduce delete-join overhead''] else []))"

definition format_admission_reason ::
    "string \<Rightarrow> serving_execution_context \<Rightarrow> read_plan \<Rightarrow> bool \<Rightarrow> string list \<Rightarrow> pruned_file_selection \<Rightarrow> string" where
  "format_admission_reason lead context request declared_sort_order_match artifacts_considered pruned =
     (let reason = lead @ '': estimated '' @ show_nat (unat (pfs_estimated_bytes pruned)) @ '' bytes across '' @
            show_nat (pfs_files_selected pruned) @ '' files and '' @ show_nat (pfs_row_groups_selected pruned) @
            '' row groups with '' @ show_nat (length (ctx_delete_files context)) @ '' delete files.'';
          suggestions = suggested_actions_for_request context request declared_sort_order_match artifacts_considered in
      if suggestions \<noteq> [] then reason @ '' Suggested action: '' @ join ''; '' suggestions @ ''.'' else reason)"

definition exceeds_budget ::
    "u64 \<Rightarrow> nat \<Rightarrow> nat \<Rightarrow> nat \<Rightarrow> serving_execution_context \<Rightarrow> pruned_file_selection \<Rightarrow> bool" where
  "exceeds_budget bytes files row_groups delete_files context pruned \<longleftrightarrow>
     pfs_estimated_bytes pruned + sum_list (map fd_size (ctx_speedboat_files context)) > bytes \<or>
     pfs_files_selected pruned + length (ctx_speedboat_files context) > files \<or>
     pfs_row_groups_selected pruned > row_groups \<or>
     length (ctx_delete_files context) > delete_files"

definition classify_request_with_admission ::
    "serving_execution_context \<Rightarrow> read_plan \<Rightarrow> string option \<Rightarrow> bool \<Rightarrow> string list \<Rightarrow> pruned_file_selection \<Rightarrow>
     serving_query_classification \<times> string option" where
  "classify_request_with_admission context request matched_pattern declared_sort_order_match artifacts_considered pruned =
     (let exceeds_fast_budget = exceeds_budget fast_path_max_bytes fast_path_max_files fast_path_max_row_groups
            fast_path_max_delete_files context pruned;
          exceeds_slow_budget = exceeds_budget slow_path_max_bytes slow_path_max_files slow_path_max_row_groups
            slow_path_max_delete_files context pruned;
          reason = (\<lambda>lead. Some (format_admission_reason lead context request declared_sort_order_match
            artifacts_considered pruned)) in
      if rpl_aggregate request \<noteq> None \<and> matched_pattern = None
      then (Rejected, reason ''No declared aggregate serving pattern matched this query'')
      else if exceeds_slow_budget then (Rejected, reason ''Query exceeds serving budget'')
      else if matched_pattern \<noteq> None \<and> \<not> exceeds_fast_budget then (FastPath, None)
      else if matched_pattern \<noteq> None
      then (SlowPath, reason ''Matched serving pattern but exceeds fast-path budget'')
      else (SlowPath, reason ''No declared serving pattern matched this query''))"

subsection \<open>Planning\<close>

definition plan_request ::
    "(rat \<Rightarrow> string) \<Rightarrow> row_group_cache \<Rightarrow> serving_execution_context \<Rightarrow> read_plan \<Rightarrow> serving_plan res" where
  "plan_request render_float cache context request =
     (let patterns = serving_patterns context;
          limit = normalized_limit default_limit max_limit request in
      rmap (\<lambda>sql.
        (let declared_sort_order_match = sort_order_matches_request (ctx_sort_order context) request;
             matched_pattern = map_option sp_name (find (\<lambda>p. request_matches_pattern request p limit) patterns);
             artifacts_considered = applicable_artifacts_for_request request patterns (ctx_access_artifacts context)
               declared_sort_order_match in
         if \<not> request_supported request then
           \<lparr>pln_classification = Rejected, pln_matched_pattern = None,
            pln_reason = Some ''Unsupported serving query shape'', pln_limit = limit, pln_sql = sql,
            pln_selected_files = [],
            pln_files_considered = length (ctx_files context) + length (ctx_speedboat_files context),
            pln_files_selected = 0, pln_row_groups_considered = 0, pln_row_groups_selected = 0,
            pln_delete_files_considered = length (ctx_delete_files context), pln_estimated_bytes = 0,
            pln_partition_fields_available = length (ctx_partition_spec context),
            pln_sort_fields_available = length (ctx_sort_order context),
            pln_declared_sort_order_match = declared_sort_order_match,
            pln_metadata_snapshot_cached = ctx_metadata_snapshot_cached context,
            pln_metadata_files_cached = 0, pln_metadata_row_groups_cached = 0,
            pln_page_index_row_groups_selected = 0, pln_bloom_filter_row_groups_selected = 0,
            pln_artifacts_considered = artifacts_considered, pln_artifacts_used = []\<rparr>
         else
           (let pruned = prune_candidate_files cache (ctx_files context) (ctx_file_stats context) request;
                artifacts_used = (if declared_sort_order_match then
                    foldl push_unique_string (pfs_artifacts_used pruned)
                      [a \<leftarrow> artifacts_considered. take (length artifact_sort_order) a = artifact_sort_order]
                  else pfs_artifacts_used pruned);
                (classification, reason) = classify_request_with_admission context request matched_pattern
                  declared_sort_order_match artifacts_considered pruned in
            \<lparr>pln_classification = classification, pln_matched_pattern = matched_pattern, pln_reason = reason,
             pln_limit = limit, pln_sql = sql, pln_selected_files = pfs_selected_files pruned,
             pln_files_considered = length (ctx_files context) + length (ctx_speedboat_files context),
             pln_files_selected = pfs_files_selected pruned + length (ctx_speedboat_files context),
             pln_row_groups_considered = pfs_row_groups_considered pruned,
             pln_row_groups_selected = pfs_row_groups_selected pruned,
             pln_delete_files_considered = length (ctx_delete_files context),
             pln_estimated_bytes = pfs_estimated_bytes pruned + sum_list (map fd_size (ctx_speedboat_files context)),
             pln_partition_fields_available = length (ctx_partition_spec context),
             pln_sort_fields_available = length (ctx_sort_order context),
             pln_declared_sort_order_match = declared_sort_order_match,
             pln_metadata_snapshot_cached = ctx_metadata_snapshot_cached context,
             pln_metadata_files_cached = pfs_metadata_files_cached pruned,
             pln_metadata_row_groups_cached = pfs_metadata_row_groups_cached pruned,
             pln_page_index_row_groups_selected = pfs_page_index_row_groups_selected pruned,
             pln_bloom_filter_row_groups_selected = pfs_bloom_filter_row_groups_selected pruned,
             pln_artifacts_considered = artifacts_considered, pln_artifacts_used = artifacts_used\<rparr>)))
        (build_sql render_float ''{table}'' request limit (ctx_delete_files context \<noteq> [])))"

subsection \<open>Executing a query\<close>

record serving_execution_result =
  ser_rows :: "json list"
  ser_files_selected :: nat
  ser_estimated_bytes :: u64
  ser_artifacts_used :: "string list"

record 'b serving_query_response =
  sqr_table :: string
  sqr_classification :: serving_query_classification
  sqr_matched_pattern :: "string option"
  sqr_snapshot_id :: "string option"
  sqr_reason :: "string option"
  sqr_files_considered :: nat
  sqr_files_selected :: nat
  sqr_row_groups_considered :: nat
  sqr_row_groups_selected :: nat
  sqr_delete_files_considered :: nat
  sqr_estimated_bytes :: u64
  sqr_partition_fields_available :: nat
  sqr_sort_fields_available :: nat
  sqr_declared_sort_order_match :: bool
  sqr_metadata_snapshot_cached :: bool
  sqr_metadata_files_cached :: nat
  sqr_metadata_row_groups_cached :: nat
  sqr_page_index_row_groups_selected :: nat
  sqr_bloom_filter_row_groups_selected :: nat
  sqr_artifacts_considered :: "string list"
  sqr_artifacts_used :: "string list"
  sqr_bulk_cache :: 'b
  sqr_sql :: "string option"
  sqr_rows :: "json list"

text \<open>The response that reports a plan without executing it; the code writes it out three times.\<close>

definition plan_response :: "serving_execution_context \<Rightarrow> 'b \<Rightarrow> serving_plan \<Rightarrow> 'b serving_query_response" where
  "plan_response context bulk_cache plan =
     \<lparr>sqr_table = td_name (ctx_description context), sqr_classification = pln_classification plan,
      sqr_matched_pattern = pln_matched_pattern plan, sqr_snapshot_id = ctx_snapshot_id context,
      sqr_reason = pln_reason plan, sqr_files_considered = pln_files_considered plan,
      sqr_files_selected = pln_files_selected plan, sqr_row_groups_considered = pln_row_groups_considered plan,
      sqr_row_groups_selected = pln_row_groups_selected plan,
      sqr_delete_files_considered = pln_delete_files_considered plan, sqr_estimated_bytes = pln_estimated_bytes plan,
      sqr_partition_fields_available = pln_partition_fields_available plan,
      sqr_sort_fields_available = pln_sort_fields_available plan,
      sqr_declared_sort_order_match = pln_declared_sort_order_match plan,
      sqr_metadata_snapshot_cached = pln_metadata_snapshot_cached plan,
      sqr_metadata_files_cached = pln_metadata_files_cached plan,
      sqr_metadata_row_groups_cached = pln_metadata_row_groups_cached plan,
      sqr_page_index_row_groups_selected = pln_page_index_row_groups_selected plan,
      sqr_bloom_filter_row_groups_selected = pln_bloom_filter_row_groups_selected plan,
      sqr_artifacts_considered = pln_artifacts_considered plan, sqr_artifacts_used = pln_artifacts_used plan,
      sqr_bulk_cache = bulk_cache, sqr_sql = Some (pln_sql plan), sqr_rows = []\<rparr>"

definition execute_serving_query ::
    "(rat \<Rightarrow> string) \<Rightarrow> row_group_cache \<Rightarrow> (string \<Rightarrow> serving_execution_context res) \<Rightarrow>
     (serving_execution_context \<Rightarrow> serving_plan \<Rightarrow> read_plan \<Rightarrow> serving_execution_result res) \<Rightarrow> 'b \<Rightarrow> 'b \<Rightarrow>
     string \<Rightarrow> serving_request_plan \<Rightarrow> 'b serving_query_response res" where
  "execute_serving_query render_float cache load run bulk_cache bulk_cache' table_name request =
     rbind (load table_name) (\<lambda>context.
     rbind (validate_request request (ctx_schema context)) (\<lambda>_.
     (let rp = read_plan_from request in
      rbind (plan_request render_float cache context rp) (\<lambda>plan.
        if rpl_explain rp then Inr (plan_response context bulk_cache plan)
        else if pln_classification plan = Rejected then Inr (plan_response context bulk_cache plan)
        else if pln_classification plan = SlowPath \<and> \<not> rpl_allow_slow_path rp then
          Inr ((plan_response context bulk_cache plan)
            \<lparr>sqr_reason := Some ''Query requires slow path. Set allow_slow_path=true to execute it''\<rparr>)
        else
          rmap (\<lambda>execution.
              (plan_response context bulk_cache' plan)
                \<lparr>sqr_files_selected := ser_files_selected execution,
                 sqr_estimated_bytes := ser_estimated_bytes execution,
                 sqr_artifacts_used := foldl push_unique_string (pln_artifacts_used plan) (ser_artifacts_used execution),
                 sqr_rows := (if rpl_order_by rp = [] then take (pln_limit plan) (ser_rows execution)
                              else ser_rows execution)\<rparr>)
            (run context plan rp)))))"

subsection \<open>What planning guarantees\<close>

definition within_budget :: "u64 \<Rightarrow> nat \<Rightarrow> nat \<Rightarrow> nat \<Rightarrow> serving_plan \<Rightarrow> bool" where
  "within_budget bytes files row_groups delete_files plan \<longleftrightarrow>
     pln_estimated_bytes plan \<le> bytes \<and> pln_files_selected plan \<le> files \<and>
     pln_row_groups_selected plan \<le> row_groups \<and> pln_delete_files_considered plan \<le> delete_files"

abbreviation within_fast_budget :: "serving_plan \<Rightarrow> bool" where
  "within_fast_budget \<equiv> within_budget fast_path_max_bytes fast_path_max_files fast_path_max_row_groups fast_path_max_delete_files"

abbreviation within_slow_budget :: "serving_plan \<Rightarrow> bool" where
  "within_slow_budget \<equiv> within_budget slow_path_max_bytes slow_path_max_files slow_path_max_row_groups slow_path_max_delete_files"

lemmas budget_defs = within_budget_def exceeds_budget_def fast_path_max_bytes_def fast_path_max_files_def
  fast_path_max_row_groups_def fast_path_max_delete_files_def slow_path_max_bytes_def slow_path_max_files_def
  slow_path_max_row_groups_def slow_path_max_delete_files_def

lemma classification_budget:
  assumes "plan_request render_float cache context request = Inr plan" "pln_classification plan \<noteq> Rejected"
  shows "within_slow_budget plan"
  using assms
  by (auto simp: plan_request_def rmap_eq_Inr Let_def classify_request_with_admission_def within_budget_def
      exceeds_budget_def not_less split: if_splits)

lemma plan_limit:
  assumes "plan_request render_float cache context request = Inr plan"
  shows "pln_limit plan = normalized_limit default_limit max_limit request" "pln_limit plan \<le> max_limit"
  using assms by (auto simp: plan_request_def rmap_eq_Inr Let_def normalized_limit_def split: if_splits prod.splits)

lemma fast_path_budget:
  assumes "plan_request render_float cache context request = Inr plan" "pln_classification plan = FastPath"
  shows "within_fast_budget plan" "pln_matched_pattern plan \<noteq> None"
  using assms
  by (auto simp: plan_request_def rmap_eq_Inr Let_def classify_request_with_admission_def within_budget_def
      exceeds_budget_def not_less split: if_splits)

lemma plan_matched_pattern:
  assumes "plan_request render_float cache context request = Inr plan" "pln_matched_pattern plan = Some name"
  shows "\<exists>p \<in> set (serving_patterns context). sp_name p = name \<and> request_matches_pattern request p (pln_limit plan)"
proof -
  from assms have "map_option sp_name (find (\<lambda>p. request_matches_pattern request p (pln_limit plan)) (serving_patterns context)) = Some name"
    by (auto simp: plan_request_def rmap_eq_Inr Let_def split: if_splits prod.splits)
  then show ?thesis by (auto dest: find_SomeD)
qed

lemma read_plan_flags:
  "rpl_explain (read_plan_from request) = srp_explain request"
  "rpl_allow_slow_path (read_plan_from request) = srp_allow_slow_path request"
  "rpl_order_by (read_plan_from request) = [] \<longleftrightarrow> srp_order_by request = []"
  by (simp_all add: read_plan_from_def)

lemma validated_supported:
  assumes "validate_request request schema = Inr u"
  shows "request_supported (read_plan_from request)"
  using validated_limit(2,3) [OF assms] by (auto simp: request_supported_def read_plan_from_def)

lemma validated_normalized_limit:
  assumes "validate_request request schema = Inr u"
  shows "normalized_limit default_limit max_limit (read_plan_from request) =
    (case srp_limit request of Some l \<Rightarrow> l | None \<Rightarrow> default_limit)"
  using validated_limit(1) [OF assms] by (simp add: normalized_limit_def read_plan_from_def)

text \<open>
  C34. A request that passes validation against the schema of the table never goes wrong in
  planning: the planner returns a plan, with the limit of the request unchanged and at most 1000,
  and it is not turned down as an unsupported shape; and for an aggregate the statement over
  partial results is built as well, so none of the builder's \<open>unwrap\<close>s is reached with no value.
\<close>

theorem validated_request_plans:
  assumes "validate_request request (ctx_schema context) = Inr ()"
  shows "(\<exists>plan. plan_request render_float cache context (read_plan_from request) = Inr plan \<and>
      pln_limit plan = (case srp_limit request of Some l \<Rightarrow> l | None \<Rightarrow> default_limit) \<and> pln_limit plan \<le> max_limit \<and>
      pln_reason plan \<noteq> Some ''Unsupported serving query shape'') \<and>
    (srp_aggregate request \<noteq> None \<longrightarrow>
      (\<exists>sql. build_aggregate_sql render_float ''{table}'' (read_plan_from request) limit deletes True = Inr sql))"
proof -
  let ?rp = "read_plan_from request"
  from validated_request_builds(1) [OF assms] obtain sql where
    "build_sql render_float ''{table}'' ?rp (normalized_limit default_limit max_limit ?rp) (ctx_delete_files context \<noteq> []) = Inr sql"
    by blast
  then obtain plan where plan: "plan_request render_float cache context ?rp = Inr plan"
    by (simp add: plan_request_def Let_def)
  moreover have "pln_reason plan \<noteq> Some ''Unsupported serving query shape''"
    using plan validated_supported [OF assms]
    by (auto simp: plan_request_def rmap_eq_Inr Let_def classify_request_with_admission_def format_admission_reason_def
        split: if_splits)
  ultimately show ?thesis
    using plan_limit [OF plan] validated_normalized_limit [OF assms] validated_request_builds(2) [OF assms] by auto
qed

text \<open>
  C35. Rows are served only within the budgets of admission: the plan of a query that returns rows
  stays within 512 MiB, 128 files, 512 row groups and 64 delete files, and unless the client
  allowed the slow path it matched a declared pattern of the table and stays within 128 MiB,
  32 files, 128 row groups and 8 delete files. An unordered query returns at most its limit.
\<close>

theorem rows_within_budget:
  assumes "execute_serving_query render_float cache load run bulk_cache bulk_cache' table_name request = Inr response"
    "sqr_rows response \<noteq> []"
  shows "\<exists>context plan. load table_name = Inr context \<and>
      plan_request render_float cache context (read_plan_from request) = Inr plan \<and> within_slow_budget plan \<and>
      (srp_allow_slow_path request \<or>
       within_fast_budget plan \<and>
       (\<exists>p \<in> set (serving_patterns context). request_matches_pattern (read_plan_from request) p (pln_limit plan))) \<and>
      (srp_order_by request = [] \<longrightarrow> length (sqr_rows response) \<le> pln_limit plan)"
proof -
  let ?rp = "read_plan_from request"
  from assms(1) obtain ctx plan where run: "load table_name = Inr ctx" "plan_request render_float cache ctx ?rp = Inr plan"
    and body: "(if rpl_explain ?rp then Inr (plan_response ctx bulk_cache plan)
        else if pln_classification plan = Rejected then Inr (plan_response ctx bulk_cache plan)
        else if pln_classification plan = SlowPath \<and> \<not> rpl_allow_slow_path ?rp then
          Inr ((plan_response ctx bulk_cache plan)
            \<lparr>sqr_reason := Some ''Query requires slow path. Set allow_slow_path=true to execute it''\<rparr>)
        else
          rmap (\<lambda>execution.
              (plan_response ctx bulk_cache' plan)
                \<lparr>sqr_files_selected := ser_files_selected execution,
                 sqr_estimated_bytes := ser_estimated_bytes execution,
                 sqr_artifacts_used := foldl push_unique_string (pln_artifacts_used plan) (ser_artifacts_used execution),
                 sqr_rows := (if rpl_order_by ?rp = [] then take (pln_limit plan) (ser_rows execution)
                              else ser_rows execution)\<rparr>)
            (run ctx plan ?rp)) = Inr response"
    unfolding execute_serving_query_def Let_def rbind_eq_Inr by blast
  have empty: "sqr_rows (plan_response ctx bulk_cache plan) = []" by (simp add: plan_response_def)
  from body empty assms(2) have admitted: "pln_classification plan \<noteq> Rejected"
      "pln_classification plan = SlowPath \<longrightarrow> srp_allow_slow_path request"
    by (auto simp: read_plan_flags split: if_splits)
  from body empty assms(2) have rows: "srp_order_by request = [] \<longrightarrow> length (sqr_rows response) \<le> pln_limit plan"
    by (auto simp: read_plan_flags rmap_eq_Inr split: if_splits)
  have "srp_allow_slow_path request \<or> within_fast_budget plan \<and>
      (\<exists>p \<in> set (serving_patterns ctx). request_matches_pattern ?rp p (pln_limit plan))"
  proof (cases "srp_allow_slow_path request")
    case False
    with admitted have fast: "pln_classification plan = FastPath" by (cases "pln_classification plan") auto
    from fast_path_budget(2) [OF run(2) fast] obtain name where "pln_matched_pattern plan = Some name" by auto
    from plan_matched_pattern [OF run(2) this] fast_path_budget(1) [OF run(2) fast] show ?thesis by blast
  qed simp
  with run rows classification_budget [OF run(2) admitted(1)] show ?thesis by blast
qed

subsection \<open>Instances\<close>

definition sample_file :: file_descriptor where
  "sample_file = \<lparr>fd_path = ''a.parquet'', fd_schema = PowdrrSchema [], fd_size = 4096\<rparr>"

definition sample_pattern :: serving_pattern where
  "sample_pattern =
     \<lparr>sp_name = ''by_tenant'', sp_eq_fields = [''tenant''], sp_range_field = None, sp_order_field = None,
      sp_descending = False, sp_max_limit = Some 10, sp_projection = None, sp_aggregate = None\<rparr>"

definition sample_context :: serving_execution_context where
  "sample_context =
     \<lparr>ctx_description = \<lparr>td_name = ''t'', td_tags = fmempty, td_serving = Some \<lparr>stc_patterns = [sample_pattern]\<rparr>,
        td_support = None, td_dynamodb = None, td_mongodb = None, td_redis = None\<rparr>,
      ctx_checkpoint = descriptor_new ''t'' ''c1'',
      ctx_schema = PowdrrSchema [PowdrrField ''tenant'' DT_String, PowdrrField ''score'' DT_Integer],
      ctx_files = [], ctx_speedboat_files = [sample_file], ctx_delete_files = [],
      ctx_file_stats = fmempty, ctx_partition_spec = [], ctx_sort_order = [], ctx_access_artifacts = [],
      ctx_extension_files = fmempty, ctx_exact_artifact_fields = [], ctx_snapshot_id = None,
      ctx_metadata_snapshot_cached = False\<rparr>"

definition sample_measure :: "string \<Rightarrow> string option \<Rightarrow> serving_aggregate_measure" where
  "sample_measure f name = \<lparr>am_function = f, am_field = name, am_alias = None\<rparr>"

definition sample_request :: "serving_aggregate_spec option \<Rightarrow> serving_request_plan" where
  "sample_request aggregate =
     \<lparr>srp_select = None,
      srp_filters = [\<lparr>svp_field = ''tenant'', svp_eq = Some (JString ''acme''), svp_in_values = None, svp_gt = None,
        svp_gte = None, svp_lt = None, svp_lte = None\<rparr>],
      srp_aggregate = aggregate, srp_order_by = [], srp_limit = Some 5, srp_allow_slow_path = False,
      srp_explain = False\<rparr>"

lemmas sample_defs = sample_context_def sample_request_def sample_pattern_def sample_file_def sample_measure_def

lemma sample_validates:
  "validate_request (sample_request None) (ctx_schema sample_context) = Inr ()"
  "validate_request (sample_request (Some \<lparr>as_group_by = [''tenant''], as_measures = [sample_measure ''avg'' (Some ''score'')]\<rparr>))
     (ctx_schema sample_context) = Inr ()"
  by code_simp+

lemma validated_request_plans_witness:
  "\<exists>plan sql. plan_request (\<lambda>_. ''0.5'') fmempty sample_context (read_plan_from (sample_request
       (Some \<lparr>as_group_by = [''tenant''], as_measures = [sample_measure ''avg'' (Some ''score'')]\<rparr>))) = Inr plan \<and>
     pln_limit plan = 5 \<and>
     build_aggregate_sql (\<lambda>_. ''0.5'') ''{table}'' (read_plan_from (sample_request
       (Some \<lparr>as_group_by = [''tenant''], as_measures = [sample_measure ''avg'' (Some ''score'')]\<rparr>))) 5 False True = Inr sql"
  using validated_request_plans [OF sample_validates(2), of "\<lambda>_. ''0.5''" fmempty 5 False]
  by (auto simp: sample_request_def)

definition sample_run :: "serving_execution_context \<Rightarrow> serving_plan \<Rightarrow> read_plan \<Rightarrow> serving_execution_result res" where
  "sample_run context plan request =
     Inr \<lparr>ser_rows = [JObject [(''tenant'', JString ''acme'')]], ser_files_selected = 1, ser_estimated_bytes = 4096,
          ser_artifacts_used = []\<rparr>"

lemma sample_rows:
  "case execute_serving_query (\<lambda>_. ''0.5'') fmempty (\<lambda>_. Inr sample_context) sample_run () () ''t'' (sample_request None) of
     Inl _ \<Rightarrow> False | Inr response \<Rightarrow> sqr_rows response \<noteq> []"
  by code_simp

lemma rows_within_budget_witness:
  "\<exists>plan. plan_request (\<lambda>_. ''0.5'') fmempty sample_context (read_plan_from (sample_request None)) = Inr plan \<and>
     within_fast_budget plan"
proof -
  obtain response where "execute_serving_query (\<lambda>_. ''0.5'') fmempty (\<lambda>_. Inr sample_context) sample_run () () ''t''
      (sample_request None) = Inr response" "sqr_rows response \<noteq> []"
    using sample_rows by (auto split: sum.splits)
  from rows_within_budget [OF this] show ?thesis by (auto simp: sample_request_def)
qed

text \<open>
  Selecting every column with \<open>*\<close> matches a pattern that declares a projection, which leaving the
  selection out does not: only the missing selection is compared with the projection.
\<close>

lemma star_matches_any_projection:
  "projection_matches (read_plan_from (sample_request None)\<lparr>rpl_select := Some [''*'']\<rparr>) (sample_pattern\<lparr>sp_projection := Some [''score'']\<rparr>)"
  "\<not> projection_matches (read_plan_from (sample_request None)) (sample_pattern\<lparr>sp_projection := Some [''score'']\<rparr>)"
  by (simp_all add: projection_matches_def normalized_select_def read_plan_from_def sample_defs)

end
