(* ===== verification/Redis_Wire.thy ===== *)
theory Redis_Wire
  imports Decimal
begin

section \<open>The Redis wire protocol\<close>

text \<open>
  \<^verbatim>\<open>query_server/src/redis_wire_protocol.rs\<close>: reading commands from a connection, encoding
  replies, and the loop of a connection. The bytes still to be read are a list; reading returns
  the remaining ones. The messages of malformed input are without the text of the underlying
  parse error. Executing a command (\<^verbatim>\<open>execute_redis_command\<close>) is a parameter of the loop.
  A command encoded as an array of bulk strings is read back exactly; the loop ends on every input.
\<close>

datatype resp_value =
    SimpleString string
  | BulkString string
  | NullBulkString
  | Resp_Integer int
  | Resp_Array "resp_value list"

abbreviation CR :: char where "CR \<equiv> CHR 0x0D"
abbreviation LF :: char where "LF \<equiv> CHR 0x0A"

definition invalid_data :: "string \<Rightarrow> 'a res" where
  "invalid_data message = Inl (Protocol_Error message)"

definition parse_length :: "string \<Rightarrow> string \<Rightarrow> nat res" where
  "parse_length raw label =
     (case parse_i64 raw of
        None \<Rightarrow> invalid_data (label @ '' was invalid'')
      | Some v \<Rightarrow> if v < 0 then invalid_data (label @ '' was negative'') else Inr (nat v))"

text \<open>
  \<^verbatim>\<open>read_until\<close> reads up to and including the line feed, or to the end of the stream; nothing
  read is the end of the connection.
\<close>

definition read_line :: "string \<Rightarrow> (string option \<times> string) res" where
  "read_line stream =
     (let line = takeWhile (\<lambda>c. c \<noteq> LF) stream;
          rest = dropWhile (\<lambda>c. c \<noteq> LF) stream;
          read = line @ take 1 rest in
      if read = [] then Inr (None, [])
      else if length read < 2 \<or> drop (length read - 2) read \<noteq> [CR, LF]
      then invalid_data ''Redis line was not CRLF terminated''
      else
        (let text = take (length read - 2) read in
         if from_utf8 text then Inr (Some text, drop 1 rest)
         else invalid_data ''Redis line was not valid UTF-8''))"

definition isize_max :: nat where "isize_max = 2 ^ 63 - 1"

text \<open>\<^verbatim>\<open>read_exact\<close> fails when the stream ends early; a buffer beyond the address space panics.\<close>

definition read_bulk_string :: "string \<Rightarrow> string \<Rightarrow> (string \<times> string) res" where
  "read_bulk_string stream header =
     rbind (parse_length (drop 1 header) ''Redis bulk string length'') (\<lambda>len.
       if len + 2 > isize_max then Inl (Panic ''capacity overflow'')
       else if length stream < len + 2 then Inl (Protocol_Error ''early eof'')
       else
         (let payload = take (len + 2) stream in
          if drop len payload \<noteq> [CR, LF] then invalid_data ''Redis bulk string was missing CRLF terminator''
          else if from_utf8 (take len payload) then Inr (take len payload, drop (len + 2) stream)
          else invalid_data ''Redis bulk string was not valid UTF-8''))"

definition read_item :: "string \<Rightarrow> string \<Rightarrow> (string \<times> string) res" where
  "read_item stream header =
     (case header of
        [] \<Rightarrow> invalid_data ''Redis array item header was empty''
      | pre # argument \<Rightarrow>
          if pre = CHR ''$'' then read_bulk_string stream header
          else if pre = CHR ''+'' then Inr (argument, stream)
          else if pre = CHR '':'' then Inr (argument, stream)
          else invalid_data (''Unsupported Redis command argument prefix '' @ [pre]))"

fun read_items :: "nat \<Rightarrow> string \<Rightarrow> (string list \<times> string) res" where
  "read_items 0 stream = Inr ([], stream)"
| "read_items (Suc n) stream =
     rbind (read_line stream) (\<lambda>(header, stream1).
       case header of
         None \<Rightarrow> invalid_data ''Redis array item header ended early''
       | Some h \<Rightarrow>
           rbind (read_item stream1 h) (\<lambda>(item, stream2).
             rmap (\<lambda>(items, stream3). (item # items, stream3)) (read_items n stream2)))"

text \<open>\<^verbatim>\<open>Vec::with_capacity\<close> panics when the array of 24-byte strings exceeds the address space.\<close>

definition string_bytes :: nat where "string_bytes = 24"

definition parse_array_command :: "string \<Rightarrow> string \<Rightarrow> (string list \<times> string) res" where
  "parse_array_command stream line =
     rbind (parse_length (drop 1 line) ''Redis array length'') (\<lambda>item_count.
       if item_count * string_bytes > isize_max then Inl (Panic ''capacity overflow'')
       else read_items item_count stream)"

definition read_command :: "string \<Rightarrow> (string list option \<times> string) res" where
  "read_command stream =
     rbind (read_line stream) (\<lambda>(line, stream1).
       case line of
         None \<Rightarrow> Inr (None, stream1)
       | Some l \<Rightarrow>
           (case l of
              [] \<Rightarrow> invalid_data ''Redis command prefix was empty''
            | c # _ \<Rightarrow>
                if c = CHR ''*'' then rmap (\<lambda>(args, s). (Some args, s)) (parse_array_command stream1 l)
                else Inr (Some (split_whitespace l), stream1)))"

fun encode_resp_value :: "resp_value \<Rightarrow> string" where
  "encode_resp_value (SimpleString text) = ''+'' @ text @ [CR, LF]"
| "encode_resp_value (BulkString bytes) = ''$'' @ show_nat (length bytes) @ [CR, LF] @ bytes @ [CR, LF]"
| "encode_resp_value NullBulkString = ''$-1'' @ [CR, LF]"
| "encode_resp_value (Resp_Integer i) = '':'' @ show_int i @ [CR, LF]"
| "encode_resp_value (Resp_Array items) =
     ''*'' @ show_nat (length items) @ [CR, LF] @ concat (map encode_resp_value items)"

subsection \<open>Reading shrinks the stream\<close>

lemma read_line_shorter:
  assumes "read_line s = Inr (Some l, s')"
  shows "length s' < length s"
proof -
  have rest: "length (dropWhile (\<lambda>c. c \<noteq> LF) s) \<le> length s" by (simp add: length_dropWhile_le)
  from assms have "s' = drop 1 (dropWhile (\<lambda>c. c \<noteq> LF) s)" "takeWhile (\<lambda>c. c \<noteq> LF) s @ take 1 (dropWhile (\<lambda>c. c \<noteq> LF) s) \<noteq> []"
    by (auto simp: read_line_def Let_def invalid_data_def split: if_splits)
  moreover from this(2) have "s \<noteq> []" by auto
  ultimately show ?thesis using rest by (cases "dropWhile (\<lambda>c. c \<noteq> LF) s") auto
qed

lemma read_bulk_string_shorter: "read_bulk_string s h = Inr (x, s') \<Longrightarrow> length s' \<le> length s"
  by (auto simp: read_bulk_string_def res_Inr invalid_data_def Let_def split: if_splits)

lemma read_item_shorter: "read_item s h = Inr (x, s') \<Longrightarrow> length s' \<le> length s"
  by (auto simp: read_item_def invalid_data_def split: list.splits if_splits dest: read_bulk_string_shorter)

lemma read_items_shorter: "read_items n s = Inr (xs, s') \<Longrightarrow> length s' \<le> length s"
proof (induction n arbitrary: s xs)
  case (Suc n)
  from Suc.prems obtain h s1 item s2 items where
    step: "read_line s = Inr (Some h, s1)" "read_item s1 h = Inr (item, s2)" "read_items n s2 = Inr (items, s')"
    by (auto simp: res_Inr invalid_data_def split: option.splits)
  from Suc.IH [OF step(3)] read_item_shorter [OF step(2)] read_line_shorter [OF step(1)] show ?case by linarith
qed simp

lemma parse_array_command_shorter: "parse_array_command s l = Inr (xs, s') \<Longrightarrow> length s' \<le> length s"
  by (auto simp: parse_array_command_def rbind_eq_Inr split: if_splits dest: read_items_shorter)

lemma read_command_shorter:
  assumes "read_command s = Inr (Some args, s')"
  shows "length s' < length s"
proof -
  from assms obtain line s1 where line: "read_line s = Inr (line, s1)"
    by (auto simp: read_command_def rbind_eq_Inr)
  with assms obtain c l where l: "line = Some (c # l)"
    by (cases line) (auto simp: read_command_def invalid_data_def split: list.splits)
  have "length s' \<le> length s1"
    using assms line l parse_array_command_shorter [of s1 "c # l"]
    by (auto simp: read_command_def rmap_eq_Inr split: if_splits)
  with read_line_shorter [OF line [unfolded l]] show ?thesis by linarith
qed

subsection \<open>The loop of a connection\<close>

text \<open>
  \<open>exec\<close> executes a command on the selected database and gives the new one with either a reply
  and whether to close the connection, or the message of an error. The loop returns what it wrote
  and how it ended.
\<close>

function handle_connection ::
    "(nat \<Rightarrow> string list \<Rightarrow> nat \<times> (string + resp_value \<times> bool)) \<Rightarrow> nat \<Rightarrow> string \<Rightarrow> string \<times> unit res" where
  "handle_connection exec selected_db stream =
     (case read_command stream of
        Inl e \<Rightarrow> ([], Inl e)
      | Inr (None, stream1) \<Rightarrow> ([], Inr ())
      | Inr (Some args, stream1) \<Rightarrow>
          (case exec selected_db args of
             (db, Inr (response, close)) \<Rightarrow>
               if close then (encode_resp_value response, Inr ())
               else
                 (let (out, end) = handle_connection exec db stream1 in (encode_resp_value response @ out, end))
           | (db, Inl message) \<Rightarrow>
               (let (out, end) = handle_connection exec db stream1 in (''-'' @ message @ [CR, LF] @ out, end))))"
  by pat_completeness auto
termination
  by (relation "measure (\<lambda>(exec, db, stream). length stream)") (auto dest: read_command_shorter)

declare handle_connection.simps [simp del]

subsection \<open>Commands are read back\<close>

lemma read_line_encoded:
  assumes "LF \<notin> set l" "from_utf8 l"
  shows "read_line (l @ CR # LF # s) = Inr (Some l, s)"
proof -
  have "takeWhile (\<lambda>c. c \<noteq> LF) (l @ CR # LF # s) = l @ [CR]" "dropWhile (\<lambda>c. c \<noteq> LF) (l @ CR # LF # s) = LF # s"
    using assms(1) by (auto simp: takeWhile_append dropWhile_append)
  then show ?thesis using assms(2) by (simp add: read_line_def)
qed

lemma read_header:
  assumes "(of_char c :: nat) < 0x80" "c \<noteq> LF"
  shows "read_line (c # show_nat n @ CR # LF # s) = Inr (Some (c # show_nat n), s)"
  using read_line_encoded [of "c # show_nat n" s] assms show_nat_no_break [of n] show_nat_digits [of n]
  by (simp add: from_utf8_ascii_Cons from_utf8_digits)

lemma parse_length_show_nat: "n < 2 ^ 63 \<Longrightarrow> parse_length (show_nat n) label = Inr n"
  by (simp add: parse_length_def parse_i64_show_nat)

lemma read_items_encoded:
  assumes "list_all (\<lambda>a. from_utf8 a \<and> length a + 2 \<le> isize_max) args"
  shows "read_items (length args) (concat (map encode_resp_value (map BulkString args)) @ rest) = Inr (args, rest)"
  using assms
proof (induction args)
  case (Cons a args)
  let ?rest = "concat (map encode_resp_value (map BulkString args)) @ rest"
  have len: "length a < 2 ^ 63" "\<not> length a + 2 > isize_max"
    using Cons.prems by (simp_all add: isize_max_def)
  then have "read_bulk_string (a @ CR # LF # ?rest) (CHR ''$'' # show_nat (length a)) = Inr (a, ?rest)"
    using Cons.prems by (simp add: read_bulk_string_def parse_length_show_nat Let_def)
  moreover have "read_line (CHR ''$'' # show_nat (length a) @ CR # LF # a @ CR # LF # ?rest) =
      Inr (Some (CHR ''$'' # show_nat (length a)), a @ CR # LF # ?rest)"
    by (rule read_header) simp_all
  ultimately show ?case using Cons by (simp add: read_item_def)
qed simp

text \<open>
  C40. A command written as an array of bulk strings is read back: the server gets the arguments
  the client sent and the stream is left at the first byte after the command. The arguments are
  valid UTF-8, and they and their array fit the address space.
\<close>

theorem command_round_trip:
  assumes "list_all (\<lambda>a. from_utf8 a \<and> length a + 2 \<le> isize_max) args" "length args * string_bytes \<le> isize_max"
  shows "read_command (encode_resp_value (Resp_Array (map BulkString args)) @ rest) = Inr (Some args, rest)"
proof -
  let ?items = "concat (map encode_resp_value (map BulkString args)) @ rest"
  have "length args < 2 ^ 63" using assms(2) by (simp add: isize_max_def string_bytes_def)
  then have "parse_array_command ?items (CHR ''*'' # show_nat (length args)) = Inr (args, rest)"
    using read_items_encoded [OF assms(1)] assms(2)
    by (simp only: parse_array_command_def drop_Suc_Cons One_nat_def drop_0 parse_length_show_nat rbind_simps not_less
        if_False) simp
  moreover have "read_line (CHR ''*'' # show_nat (length args) @ CR # LF # ?items) =
      Inr (Some (CHR ''*'' # show_nat (length args)), ?items)"
    by (rule read_header) simp_all
  ultimately show ?thesis by (simp add: read_command_def)
qed

lemma command_round_trip_witness:
  "read_command (encode_resp_value (Resp_Array (map BulkString [''GET'', ''k''])) @ ''PING'') =
     Inr (Some [''GET'', ''k''], ''PING'')"
  by (rule command_round_trip) (simp_all add: from_utf8_def isize_max_def string_bytes_def)

text \<open>
  A length that no buffer can have makes the connection's task panic: the length of a client is
  only checked for its sign.
\<close>

lemma hostile_array_length_panics:
  assumes "isize_max < n * string_bytes" "n < 2 ^ 63"
  shows "read_command (CHR ''*'' # show_nat n @ CR # LF # rest) = Inl (Panic ''capacity overflow'')"
proof -
  have "read_line (CHR ''*'' # show_nat n @ CR # LF # rest) = Inr (Some (CHR ''*'' # show_nat n), rest)"
    by (rule read_header) simp_all
  with assms show ?thesis by (simp add: read_command_def parse_array_command_def parse_length_show_nat)
qed

end
