(* ===== verification/Spec2Isabelle.thy ===== *)
theory Spec2Isabelle
  imports Raft_Service Serving_Plan Redis_Wire
begin

text \<open>
  A verification development for powdrr-engine, a lakehouse that ingests documents, keeps them in
  Iceberg tables next to recent in-memory segments, and serves queries on published snapshots.

  \<^bold>\<open>The parts of the program.\<close> The \<^emph>\<open>metadata plane\<close> is the authority on tables. A table is a chain
  of immutable checkpoints; a checkpoint names the recent segment files (speedboat), the Iceberg
  files, the delete files, the schema, and the side files of the search extension \<^verbatim>\<open>es\<close>. Commits
  extend the chain; background workers claim extension, compaction and cleanup work under leases
  and commit the results; a checkpoint becomes the active one of the serving nodes by a cutover
  protocol of readiness and activation acknowledgements under epochs. The metadata service exists
  in memory, replicated with Raft, and over DynamoDB. The \<^emph>\<open>serving path\<close> takes a query request,
  validates it, prunes files by statistics, decides on admission, builds SQL, runs it per group of
  files on an external engine, and merges the rows. \<^emph>\<open>Protocol servers\<close> put wire protocols in
  front of it.

  \<^bold>\<open>Theories and sources\<close> (paths under \<^verbatim>\<open>src/\<close>). An operation that can fail or panic returns
  \<open>error + 'a\<close>; a stateful one is \<open>'s \<Rightarrow> error + 's \<times> 'a\<close>; a hash map is a finite map, and where its
  iteration order shows, the order is an argument.
  \<^item> \<open>Prelude\<close>: results, finite maps, vectors and strings of the standard library. \<open>Json\<close>: JSON
    values of \<^verbatim>\<open>serde_json\<close>, with the rounding of integers to doubles. \<open>Decimal\<close>: printing and
    reading integers, UTF-8.
  \<^item> \<open>Schema\<close>: \<^verbatim>\<open>control_plane/src/schema_massager.rs\<close>. Merging schemas gives the least upper bound.
  \<^item> \<open>File_Set\<close>, \<open>Checkpoint\<close>, \<open>Catalog\<close>: \<^verbatim>\<open>control_plane/src/data_contract.rs\<close>,
    \<^verbatim>\<open>checkpoint_descriptor.rs\<close>, \<^verbatim>\<open>pipeline.rs\<close>, \<^verbatim>\<open>ilm_policy.rs\<close>, \<^verbatim>\<open>test_api.rs\<close>. File sets refine
    finite maps from paths to files; applying commits to a checkpoint keeps its invariant;
    compaction removes exactly the compacted files; coverage by side files is what the checks say;
    names and segments round-trip; running a set of pipelines ends.
  \<^item> \<open>Coordination\<close>: \<^verbatim>\<open>service_lib/src/metadata_store.rs\<close> and \<^verbatim>\<open>read_only_coordination.rs\<close>.
  \<^item> \<open>Service_State\<close>, \<open>Service_Cutover\<close>, \<open>Service_Work\<close>, \<open>Service_Commits\<close>, \<open>Service_Extension\<close>:
    \<^verbatim>\<open>service_lib/src/ephemeral_service_impl.rs\<close>, the record \<open>service\<close> and one definition per
    operation. Snapshots restore the service; a checkpoint is promoted only when the artifacts are
    ready and every required node has acknowledged it in the current epoch; a claimed work item is
    claimed by nobody else while its lease runs; files are only cleaned up when no active
    checkpoint names them.
  \<^item> \<open>Commit_Properties\<close>, \<open>Service_Run\<close>: what each commit does on every state that satisfies the
    invariant, and what holds after any run of operations (\<open>service_step\<close>, \<open>service_run\<close>): the
    latest and the active checkpoint of a table are stored, an epoch identifies its target as long
    as the 64-bit counter does not wrap, extension work completes.
  \<^item> \<open>Raft_Service\<close>: \<^verbatim>\<open>service_lib/src/raft_service_impl.rs\<close>. The replicated service refines the
    ephemeral one on the node that does the writes.
  \<^item> \<open>Query_Path\<close>, \<open>Serving_Prune\<close>: \<^verbatim>\<open>query_core/src/query_path.rs\<close>, \<^verbatim>\<open>read_plan.rs\<close>,
    \<^verbatim>\<open>serving_plan.rs\<close> and the pruning of \<^verbatim>\<open>query_runtime/src/lakehouse_serving.rs\<close>. Pruning keeps
    every file with a matching row.
  \<^item> \<open>Serving_Topk\<close>: the scan and the early stop of ordered queries, with the grouping of
    \<^verbatim>\<open>query_lib/src/query_execution.rs\<close>. The result is a best-\<open>k\<close> selection of all matching rows.
  \<^item> \<open>Serving_Request\<close>, \<open>Serving_Plan\<close>: validation, SQL, patterns, admission and the guard of
    execution of \<^verbatim>\<open>lakehouse_serving.rs\<close>. A validated request always gets a plan, client text stays
    inside its quotes, and rows are only served within the budgets.
  \<^item> \<open>Redis_Wire\<close>: \<^verbatim>\<open>query_server/src/redis_wire_protocol.rs\<close>. A command is read back as sent, and the
    loop of a connection ends on every finite input.

  \<^bold>\<open>Interfaces.\<close> The locales state contracts and are interpreted on the definitions of the model:
  file sets as maps, the loops that apply commits to a checkpoint, the provider a read-only node
  relies on, pools of leased work, ordered rows and file groups.

  \<^bold>\<open>Parameters and bounds.\<close> External code is an argument. Identifiers come from a generator
  \<open>gen\<close> applied to a counter, assumed injective and without underscores (\<open>id_source\<close>); the shard of a file
  comes from \<open>hash\<close>; the clock is the argument \<open>now\<close>; template evaluation in pipelines, the query
  engine (\<open>exec\<close>, \<open>run\<close>), the text of JSON values and floats (\<open>render\<close>, \<open>render_float\<close>), the Raft
  group with its store (\<open>raft_env\<close>, laws \<open>raft_env_ok\<close>) and the execution of Redis commands are
  parameters. There is no fuel: every loop of the model is structural or has a termination proof.
  64-bit counters are words and wrap; floats are the rationals they denote.

  \<^bold>\<open>What the model shows to go wrong\<close> is stated as theorems too: a commit to an alias makes the
  table unreadable, a replayed extension commit panics, a publication request is never drained, a
  replicated write can be acknowledged and dropped, a strict bound beyond \<open>2 ^ 53\<close> prunes a
  matching row, a descending top-k skips nulls.

  \<^bold>\<open>Not modelled.\<close> The DynamoDB store, HTTP handlers and routing, peer transport and state providers
  are calls of SDKs and servers around the modelled operations. Search execution, ingest and index
  builds drive Arrow, Parquet, DataFusion and Iceberg, whose behaviour the sources do not contain;
  of the serving path the lookup artifacts, the merging of partial aggregates, cache warming and
  snapshot indexes are left out. The script, date and mapping parsers belong to the search front
  end. Asynchrony enters as the order of steps: operations of the metadata service hold its lock,
  so they are atomic; file groups of a scan complete in any order.
\<close>

end
